(* ===== verification/Prelude.thy ===== *)
theory Prelude
  imports Main "HOL-Library.Word" "HOL-Library.Char_ord" "HOL-Library.List_Lexorder"
    "HOL-Library.Product_Lexorder"
begin

text \<open>
  Shared ground of the development: results with errors on the left, keyed tables (the rows of a
  database relation), the parts of Python's \<open>str\<close> the gateway uses, and UUIDs with the unsigned
  order PostgreSQL gives them. Text is a list of 8-bit characters; code points of 256 and above
  are outside the model.
\<close>

named_theorems row_simps \<open>reading and writing the rows of a table\<close>
named_theorems result_simps \<open>results of fallible operations\<close>

subsection \<open>Results\<close>

definition bind_r :: "'e + 'a \<Rightarrow> ('a \<Rightarrow> 'e + 'b) \<Rightarrow> 'e + 'b" where
  "bind_r r f = (case r of Inl e \<Rightarrow> Inl e | Inr x \<Rightarrow> f x)"

lemma bind_r_simps [simp, result_simps]:
  "bind_r (Inl e) f = Inl e"
  "bind_r (Inr x) f = f x"
  by (simp_all add: bind_r_def)

lemma bind_r_Inr_iff [result_simps]: "bind_r r f = Inr y \<longleftrightarrow> (\<exists>x. r = Inr x \<and> f x = Inr y)"
  by (cases r) auto

lemma bind_r_Inl_iff [result_simps]:
  "bind_r r f = Inl e \<longleftrightarrow> r = Inl e \<or> (\<exists>x. r = Inr x \<and> f x = Inl e)"
  by (cases r) auto

lemma bind_r_assoc: "bind_r (bind_r r f) g = bind_r r (\<lambda>x. bind_r (f x) g)"
  by (cases r) auto

lemma bind_r_cong [fundef_cong]:
  assumes "r = r'" and "\<And>x. r' = Inr x \<Longrightarrow> f x = f' x"
  shows "bind_r r f = bind_r r' f'"
  using assms by (cases r') auto

text \<open>\<open>for x in xs: check(x)\<close>, where a check may raise.\<close>

fun check_all :: "('a \<Rightarrow> 'e + unit) \<Rightarrow> 'a list \<Rightarrow> 'e + unit" where
  "check_all f [] = Inr ()"
| "check_all f (x # xs) = bind_r (f x) (\<lambda>_. check_all f xs)"

lemma check_all_ok_iff [result_simps]:
  "check_all f xs = Inr () \<longleftrightarrow> (\<forall>x \<in> set xs. f x = Inr ())"
  by (induction xs) (auto simp: bind_r_Inr_iff)

lemma check_all_error:
  "check_all f xs = Inl e \<Longrightarrow> \<exists>x \<in> set xs. f x = Inl e"
  by (induction xs) (auto simp: bind_r_Inl_iff)

lemma check_all_cong [fundef_cong]:
  assumes "xs = ys" and "\<And>x. x \<in> set ys \<Longrightarrow> f x = g x"
  shows "check_all f xs = check_all g ys"
  using assms(2) unfolding assms(1) by (induction ys) (auto intro!: bind_r_cong)

lemma find_SomeD: "List.find P xs = Some x \<Longrightarrow> x \<in> set xs \<and> P x"
  by (induction xs) (auto split: if_splits)

lemma find_NoneD: "List.find P xs = None \<Longrightarrow> x \<in> set xs \<Longrightarrow> \<not> P x"
  by (induction xs) (auto split: if_splits)

subsection \<open>Tables: rows under a primary key\<close>

text \<open>
  A relation is the list of its rows in insertion order. \<open>row_get\<close> is \<open>SELECT\<close> by primary key,
  \<open>row_put\<close> an \<open>UPDATE\<close> of the row with the same key; a key that no row has is left alone, as the
  statement would.
\<close>

definition row_get :: "('r \<Rightarrow> 'k) \<Rightarrow> 'k \<Rightarrow> 'r list \<Rightarrow> 'r option" where
  "row_get key k rows = List.find (\<lambda>r. key r = k) rows"

definition row_put :: "('r \<Rightarrow> 'k) \<Rightarrow> 'r \<Rightarrow> 'r list \<Rightarrow> 'r list" where
  "row_put key r rows = map (\<lambda>x. if key x = key r then r else x) rows"

lemma row_get_Nil [simp]: "row_get key k [] = None"
  by (simp add: row_get_def)

lemma row_get_Cons [simp]:
  "row_get key k (r # rows) = (if key r = k then Some r else row_get key k rows)"
  by (simp add: row_get_def)

lemma row_put_Nil [simp]: "row_put key r [] = []"
  by (simp add: row_put_def)

lemma row_put_Cons [simp]:
  "row_put key r (x # rows) = (if key x = key r then r else x) # row_put key r rows"
  by (simp add: row_put_def)

lemma row_get_SomeD: "row_get key k rows = Some r \<Longrightarrow> r \<in> set rows \<and> key r = k"
  by (induction rows) (auto split: if_splits)

lemma row_get_mem: "row_get key k rows = Some r \<Longrightarrow> r \<in> set rows"
  and row_get_key: "row_get key k rows = Some r \<Longrightarrow> key r = k"
  by (auto dest: row_get_SomeD)

lemma row_get_None_iff: "row_get key k rows = None \<longleftrightarrow> k \<notin> key ` set rows"
  by (induction rows) auto

lemma row_get_distinct:
  "distinct (map key rows) \<Longrightarrow> r \<in> set rows \<Longrightarrow> row_get key (key r) rows = Some r"
  by (induction rows) (auto simp: image_iff)

lemma row_get_append:
  "row_get key k (rows @ rows') = (case row_get key k rows of None \<Rightarrow> row_get key k rows' | Some r \<Rightarrow> Some r)"
  by (induction rows) auto

lemma map_key_row_put [simp, row_simps]: "map key (row_put key r rows) = map key rows"
  by (induction rows) auto

lemma length_row_put [simp, row_simps]: "length (row_put key r rows) = length rows"
  by (induction rows) auto

lemma row_get_put_same [row_simps]:
  "row_get key (key r) rows \<noteq> None \<Longrightarrow> row_get key (key r) (row_put key r rows) = Some r"
  by (induction rows) auto

lemma row_get_put_other [row_simps]:
  "k \<noteq> key r \<Longrightarrow> row_get key k (row_put key r rows) = row_get key k rows"
  by (induction rows) auto

lemma row_get_put:
  "row_get key k (row_put key r rows) =
     (if k = key r \<and> row_get key k rows \<noteq> None then Some r else row_get key k rows)"
  by (induction rows) auto

lemma set_row_put_subset: "set (row_put key r rows) \<subseteq> insert r {x \<in> set rows. key x \<noteq> key r}"
  by (auto simp: row_put_def)

lemma set_row_put_subset': "x \<in> set (row_put key r rows) \<Longrightarrow> x = r \<or> x \<in> set rows \<and> key x \<noteq> key r"
  by (auto simp: row_put_def split: if_splits)

lemma row_put_mem_other: "x \<in> set rows \<Longrightarrow> key x \<noteq> key r \<Longrightarrow> x \<in> set (row_put key r rows)"
  by (induction rows) auto

lemma row_put_fresh: "key r \<notin> key ` set rows \<Longrightarrow> row_put key r rows = rows"
  by (induction rows) auto

lemma row_put_id:
  "distinct (map key rows) \<Longrightarrow> r \<in> set rows \<Longrightarrow> row_put key r rows = rows"
  by (induction rows) (auto simp: row_put_fresh image_iff)

lemma row_put_put [simp, row_simps]:
  "key r = key r' \<Longrightarrow> row_put key r (row_put key r' rows) = row_put key r rows"
  by (induction rows) auto

lemma filter_row_put_other:
  assumes "\<not> P r" and "\<And>x. x \<in> set rows \<Longrightarrow> key x = key r \<Longrightarrow> \<not> P x"
  shows "filter P (row_put key r rows) = filter P rows"
  using assms(2) by (induction rows) (auto simp: assms(1))

lemma list_ex_row_put:
  assumes "distinct (map key rows)" and "r0 \<in> set rows" and "key r0 = key r" and "P r = P r0"
  shows "list_ex P (row_put key r rows) = list_ex P rows"
    and "length (filter P (row_put key r rows)) = length (filter P rows)"
proof -
  have "x = r0" if "x \<in> set rows" "key x = key r" for x
    using that assms(1-3) unfolding distinct_map by (metis inj_onD)
  then have "map P (row_put key r rows) = map P rows"
    using assms(4) by (auto simp: row_put_def)
  then have *: "list_ex id (map P (row_put key r rows)) = list_ex id (map P rows)"
    and **: "length (filter id (map P (row_put key r rows))) = length (filter id (map P rows))" by simp_all
  show "list_ex P (row_put key r rows) = list_ex P rows" using * by (simp add: list_ex_iff)
  show "length (filter P (row_put key r rows)) = length (filter P rows)"
    using ** by (simp add: filter_map comp_def)
qed

text \<open>
  A table inside a larger state: reading and replacing its rows obey the lens laws. Everything
  proved here about fetching and storing one row holds for every table of the database.
\<close>

definition fetch :: "('d \<Rightarrow> 'r list) \<Rightarrow> ('r \<Rightarrow> 'k) \<Rightarrow> 'k \<Rightarrow> 'd \<Rightarrow> 'r option" where
  "fetch rows_of key k d = row_get key k (rows_of d)"

definition store ::
    "('d \<Rightarrow> 'r list) \<Rightarrow> ('r list \<Rightarrow> 'd \<Rightarrow> 'd) \<Rightarrow> ('r \<Rightarrow> 'k) \<Rightarrow> 'r \<Rightarrow> 'd \<Rightarrow> 'd" where
  "store rows_of set_rows key r d = set_rows (row_put key r (rows_of d)) d"

locale keyed_table =
  fixes rows_of :: "'d \<Rightarrow> 'r list"
    and set_rows :: "'r list \<Rightarrow> 'd \<Rightarrow> 'd"
    and key :: "'r \<Rightarrow> 'k"
  assumes rows_of_set_rows: "rows_of (set_rows rs d) = rs"
    and set_rows_rows_of: "set_rows (rows_of d) d = d"
    and set_rows_set_rows: "set_rows rs (set_rows rs' d) = set_rows rs d"
begin

lemma rows_of_store: "rows_of (store rows_of set_rows key r d) = row_put key r (rows_of d)"
  by (simp add: store_def rows_of_set_rows)

lemma fetch_store_same:
  "fetch rows_of key (key r) d \<noteq> None \<Longrightarrow>
     fetch rows_of key (key r) (store rows_of set_rows key r d) = Some r"
  unfolding fetch_def rows_of_store by (rule row_get_put_same)

lemma fetch_store_other:
  "k \<noteq> key r \<Longrightarrow>
     fetch rows_of key k (store rows_of set_rows key r d) = fetch rows_of key k d"
  unfolding fetch_def rows_of_store by (rule row_get_put_other)

lemma store_store:
  "key r = key r' \<Longrightarrow>
     store rows_of set_rows key r (store rows_of set_rows key r' d) =
     store rows_of set_rows key r d"
  by (simp add: store_def rows_of_set_rows set_rows_set_rows)

lemma store_fetched:
  assumes "distinct (map key (rows_of d))" and "fetch rows_of key k d = Some r"
  shows "store rows_of set_rows key r d = d"
  using assms
  by (simp add: store_def fetch_def set_rows_rows_of row_put_id[OF assms(1) row_get_mem])

lemma keys_store: "map key (rows_of (store rows_of set_rows key r d)) = map key (rows_of d)"
  by (simp add: rows_of_store)

lemma fetch_keyD: "fetch rows_of key k d = Some r \<Longrightarrow> key r = k"
  by (auto simp: fetch_def dest: row_get_key)

lemma fetch_mem: "fetch rows_of key k d = Some r \<Longrightarrow> r \<in> set (rows_of d)"
  by (auto simp: fetch_def dest: row_get_mem)

lemma fetch_distinct:
  "distinct (map key (rows_of d)) \<Longrightarrow> r \<in> set (rows_of d) \<Longrightarrow> fetch rows_of key (key r) d = Some r"
  by (auto simp: fetch_def intro: row_get_distinct)

end

subsection \<open>UUIDs\<close>

text \<open>
  A UUID is 128 bits; PostgreSQL compares the \<open>uuid\<close> type bytewise, which is the unsigned order of
  the 128-bit number.
\<close>

datatype uuid = UUID "128 word"

instantiation uuid :: linorder
begin

fun less_eq_uuid :: "uuid \<Rightarrow> uuid \<Rightarrow> bool" where
  "less_eq_uuid (UUID a) (UUID b) = (a \<le> b)"

fun less_uuid :: "uuid \<Rightarrow> uuid \<Rightarrow> bool" where
  "less_uuid (UUID a) (UUID b) = (a < b)"

instance
proof
  fix x y z :: uuid
  show "(x < y) = (x \<le> y \<and> \<not> y \<le> x)" by (cases x; cases y) auto
  show "x \<le> x" by (cases x) auto
  show "x \<le> y \<Longrightarrow> y \<le> z \<Longrightarrow> x \<le> z" by (cases x; cases y; cases z) auto
  show "x \<le> y \<Longrightarrow> y \<le> x \<Longrightarrow> x = y" by (cases x; cases y) auto
  show "x \<le> y \<or> y \<le> x" by (cases x; cases y) auto
qed

end

subsection \<open>Python strings\<close>

text \<open>\<open>str.strip()\<close>: the whitespace of \<open>str.isspace\<close> among the code points below 256.\<close>

definition py_space :: "char \<Rightarrow> bool" where
  "py_space c = (let n = (of_char c :: nat) in
     9 \<le> n \<and> n \<le> 13 \<or> 28 \<le> n \<and> n \<le> 32 \<or> n = 133 \<or> n = 160)"

definition lstrip :: "string \<Rightarrow> string" where
  "lstrip s = dropWhile py_space s"

definition strip :: "string \<Rightarrow> string" where
  "strip s = rev (dropWhile py_space (rev (lstrip s)))"

definition starts_with :: "string \<Rightarrow> string \<Rightarrow> bool" where
  "starts_with s p = (take (length p) s = p)"

definition ends_with :: "string \<Rightarrow> string \<Rightarrow> bool" where
  "ends_with s p = (length p \<le> length s \<and> drop (length s - length p) s = p)"

text \<open>\<open>s.replace(p, r)\<close> for a non-empty \<open>p\<close>.\<close>

fun py_replace :: "string \<Rightarrow> string \<Rightarrow> string \<Rightarrow> string" where
  "py_replace p r [] = []"
| "py_replace p r (c # cs) =
     (if p \<noteq> [] \<and> starts_with (c # cs) p then r @ py_replace p r (drop (length p - 1) cs)
      else c # py_replace p r cs)"

lemma py_replace_absent: "c \<in> set p \<Longrightarrow> c \<notin> set s \<Longrightarrow> py_replace p r s = s"
proof (induction s)
  case (Cons x xs)
  have "\<not> starts_with (x # xs) p"
    using Cons.prems unfolding starts_with_def by (metis in_set_takeD)
  then show ?case using Cons by simp
qed simp

text \<open>\<open>s.split(c, 1)\<close> where the source unpacks two parts: \<open>None\<close> is the failing unpack.\<close>

fun split_once :: "char \<Rightarrow> string \<Rightarrow> (string \<times> string) option" where
  "split_once c [] = None"
| "split_once c (x # xs) =
     (if x = c then Some ([], xs)
      else map_option (\<lambda>(a, b). (x # a, b)) (split_once c xs))"

lemma split_once_append: "c \<notin> set a \<Longrightarrow> split_once c (a @ c # b) = Some (a, b)"
  by (induction a) auto

lemma split_once_SomeD: "split_once c s = Some (a, b) \<Longrightarrow> s = a @ c # b \<and> c \<notin> set a"
  by (induction s arbitrary: a) (auto split: if_splits)

text \<open>
  \<open>str.lower()\<close> on the code points below 256, and \<open>str.upper()\<close> on ASCII: the other characters, some of
  which have no uppercase below 256, are left as they are.
\<close>

definition lower_char :: "char \<Rightarrow> char" where
  "lower_char c = (let n = (of_char c :: nat) in
     if 65 \<le> n \<and> n \<le> 90 \<or> 192 \<le> n \<and> n \<le> 222 \<and> n \<noteq> 215 then char_of (n + 32) else c)"

definition upper_char :: "char \<Rightarrow> char" where
  "upper_char c = (let n = (of_char c :: nat) in if 97 \<le> n \<and> n \<le> 122 then char_of (n - 32) else c)"

definition lower :: "string \<Rightarrow> string" where
  "lower s = map lower_char s"

definition upper :: "string \<Rightarrow> string" where
  "upper s = map upper_char s"

lemma lstrip_Nil [simp]: "lstrip [] = []"
  by (simp add: lstrip_def)

lemma strip_Nil [simp]: "strip [] = []"
  by (simp add: strip_def)

lemma dropWhile_rev_hd: "dropWhile P xs = y # ys \<Longrightarrow> \<not> P y"
  using hd_dropWhile[of P xs] by auto

lemma set_strip_subset: "set (strip s) \<subseteq> set s"
  by (auto simp: strip_def lstrip_def dest!: set_dropWhileD)

lemma length_strip_le: "length (strip s) \<le> length s"
proof -
  have "length (strip s) \<le> length (lstrip s)"
    using length_dropWhile_le[of py_space "rev (lstrip s)"] by (simp add: strip_def)
  also have "\<dots> \<le> length s"
    by (simp add: lstrip_def length_dropWhile_le)
  finally show ?thesis .
qed

end
