(* ===== verification/Json.thy ===== *)
theory Json
  imports Prelude
begin

text \<open>
  JSON values as Python's \<open>json\<close> module produces them, dictionaries in insertion order with the
  operations the gateway uses, and the module's printer (\<open>json.dumps\<close> with its default ASCII
  output) and parser (\<open>json.loads\<close>, strict strings). Floats keep their exact decimal literal:
  rounding to binary64 is outside the model, as are code points of 256 and above, nesting deeper
  than the interpreter's recursion limit and lone byte-order marks. \<open>loads\<close> is \<open>None\<close> where Python
  raises \<open>JSONDecodeError\<close> (a \<open>ValueError\<close>).
\<close>

datatype pyfloat = Decimal int int | NaN | PosInf | NegInf

datatype json =
    JNull
  | JBool bool
  | JInt int
  | JFloat pyfloat
  | JStr string
  | JArr "json list"
  | JObj "(string \<times> json) list"

type_synonym dict = "(string \<times> json) list"

subsection \<open>Dictionaries\<close>

fun dict_set :: "'k \<Rightarrow> 'v \<Rightarrow> ('k \<times> 'v) list \<Rightarrow> ('k \<times> 'v) list" where
  "dict_set k v [] = [(k, v)]"
| "dict_set k v ((a, b) # d) = (if a = k then (k, v) # d else (a, b) # dict_set k v d)"

definition dict_update :: "('k \<times> 'v) list \<Rightarrow> ('k \<times> 'v) list \<Rightarrow> ('k \<times> 'v) list" where
  "dict_update d e = fold (\<lambda>(k, v) acc. dict_set k v acc) e d"

definition dict_pop :: "'k \<Rightarrow> ('k \<times> 'v) list \<Rightarrow> ('k \<times> 'v) list" where
  "dict_pop k d = filter (\<lambda>(a, _). a \<noteq> k) d"

abbreviation keys_distinct :: "('k \<times> 'v) list \<Rightarrow> bool" where
  "keys_distinct d \<equiv> distinct (map fst d)"

lemma map_of_dict_set [simp, row_simps]: "map_of (dict_set k v d) = (map_of d)(k \<mapsto> v)"
  by (induction k v d rule: dict_set.induct) (auto simp: fun_eq_iff)

lemma keys_dict_set: "fst ` set (dict_set k v d) = insert k (fst ` set d)"
  by (induction k v d rule: dict_set.induct) auto

lemma set_dict_set_subset: "set (dict_set k v d) \<subseteq> insert (k, v) (set d)"
  by (induction k v d rule: dict_set.induct) auto

lemma keys_distinct_dict_set [simp]: "keys_distinct d \<Longrightarrow> keys_distinct (dict_set k v d)"
  by (induction k v d rule: dict_set.induct) (auto simp: keys_dict_set)

lemma dict_set_fresh: "k \<notin> fst ` set d \<Longrightarrow> dict_set k v d = d @ [(k, v)]"
  by (induction k v d rule: dict_set.induct) auto

lemma dict_update_Nil [simp]: "dict_update d [] = d"
  by (simp add: dict_update_def)

lemma dict_update_Cons [simp]: "dict_update d ((k, v) # e) = dict_update (dict_set k v d) e"
  by (simp add: dict_update_def)

lemma keys_distinct_dict_update [simp]: "keys_distinct d \<Longrightarrow> keys_distinct (dict_update d e)"
  by (induction e arbitrary: d) auto

lemma keys_dict_update: "fst ` set (dict_update d e) = fst ` set d \<union> fst ` set e"
proof (induction e arbitrary: d)
  case (Cons p e)
  obtain k v where "p = (k, v)" by (cases p)
  then show ?case by (simp add: Cons.IH keys_dict_set)
qed simp

lemma set_dict_update_subset: "set (dict_update d e) \<subseteq> set d \<union> set e"
proof (induction e arbitrary: d)
  case (Cons p e)
  obtain k v where p: "p = (k, v)" by (cases p)
  show ?case using Cons.IH[of "dict_set k v d"] set_dict_set_subset[of k v d] by (auto simp: p)
qed simp

lemma map_of_dict_update:
  "keys_distinct e \<Longrightarrow> map_of (dict_update d e) = map_of d ++ map_of e"
proof (induction e arbitrary: d)
  case (Cons p e)
  obtain k v where p: "p = (k, v)" by (cases p)
  from Cons.prems have "map_of e k = None" by (simp add: p map_of_eq_None_iff)
  with Cons show ?case by (auto simp: p fun_eq_iff map_add_def split: option.splits)
qed simp

lemma dict_update_fresh:
  "keys_distinct (d @ e) \<Longrightarrow> dict_update d e = d @ e"
  by (induction e arbitrary: d) (auto simp: dict_set_fresh)

lemma dict_update_empty: "keys_distinct e \<Longrightarrow> dict_update [] e = e"
  using dict_update_fresh[of "[]" e] by simp

lemma map_of_dict_pop [simp, row_simps]:
  "map_of (dict_pop k d) = (\<lambda>x. if x = k then None else map_of d x)"
  by (induction d) (auto simp: dict_pop_def)

lemma keys_distinct_dict_pop [simp]: "keys_distinct d \<Longrightarrow> keys_distinct (dict_pop k d)"
  by (induction d) (auto simp: dict_pop_def)

lemma dict_pop_subset: "set (dict_pop k d) \<subseteq> set d"
  by (auto simp: dict_pop_def)

lemma dict_set_same: "map_of d k = Some v \<Longrightarrow> dict_set k v d = d"
  by (induction k v d rule: dict_set.induct) (auto split: if_splits)

lemma dict_pop_fresh: "map_of d k = None \<Longrightarrow> dict_pop k d = d"
  by (induction d) (auto simp: dict_pop_def split: if_splits)

subsection \<open>Numbers\<close>

definition is_digit :: "char \<Rightarrow> bool" where
  "is_digit c = (let n = (of_char c :: nat) in 48 \<le> n \<and> n \<le> 57)"

definition digit_char :: "nat \<Rightarrow> char" where
  "digit_char n = char_of (48 + n)"

definition digit_val :: "char \<Rightarrow> nat" where
  "digit_val c = of_char c - 48"

fun show_nat :: "nat \<Rightarrow> string" where
  "show_nat n = (if n < 10 then [digit_char n] else show_nat (n div 10) @ [digit_char (n mod 10)])"

declare show_nat.simps [simp del]

definition show_int :: "int \<Rightarrow> string" where
  "show_int i = (if i < 0 then CHR ''-'' # show_nat (nat (- i)) else show_nat (nat i))"

definition nat_of_digits :: "string \<Rightarrow> nat" where
  "nat_of_digits ds = foldl (\<lambda>a c. 10 * a + digit_val c) 0 ds"

text \<open>CPython refuses to convert decimal strings of more than 4300 digits.\<close>

definition max_int_digits :: nat where
  "max_int_digits = 4300"

lemma of_char_digit_char: "n < 10 \<Longrightarrow> (of_char (digit_char n) :: nat) = 48 + n"
  by (simp add: digit_char_def of_char_of)

lemma is_digit_digit_char [simp]: "n < 10 \<Longrightarrow> is_digit (digit_char n)"
  by (simp add: is_digit_def of_char_digit_char)

lemma digit_val_digit_char [simp]: "n < 10 \<Longrightarrow> digit_val (digit_char n) = n"
  by (simp add: digit_val_def of_char_digit_char)

lemma nat_of_digits_snoc [simp]: "nat_of_digits (ds @ [c]) = 10 * nat_of_digits ds + digit_val c"
  by (simp add: nat_of_digits_def)

lemma nat_of_digits_show_nat [simp]: "nat_of_digits (show_nat n) = n"
proof (induction n rule: show_nat.induct)
  case (1 n)
  show ?case
  proof (cases "n < 10")
    case True
    then show ?thesis by (simp add: show_nat.simps[of n] nat_of_digits_def)
  next
    case False
    then show ?thesis by (subst show_nat.simps) (simp add: 1[OF False])
  qed
qed

lemma show_nat_digits: "\<forall>c \<in> set (show_nat n). is_digit c"
proof (induction n rule: show_nat.induct)
  case (1 n)
  then show ?case by (cases "n < 10") (auto simp: show_nat.simps[of n])
qed

lemma show_nat_not_Nil [simp]: "show_nat n \<noteq> []"
  by (simp add: show_nat.simps[of n])

lemma digit_char_zeroD: "digit_char n = CHR ''0'' \<Longrightarrow> n < 10 \<Longrightarrow> n = 0"
proof -
  assume "digit_char n = CHR ''0''" and n: "n < 10"
  then have "digit_val (digit_char n) = digit_val (CHR ''0'')" by simp
  then show "n = 0" using n by (simp add: digit_val_def of_char_digit_char)
qed

lemma show_nat_head_zero: "show_nat n = CHR ''0'' # ds \<Longrightarrow> n = 0"
proof (induction n arbitrary: ds rule: show_nat.induct)
  case (1 n)
  show ?case
  proof (cases "n < 10")
    case True
    with "1.prems" show ?thesis by (auto simp: show_nat.simps[of n] dest: digit_char_zeroD)
  next
    case False
    with "1.prems" obtain ds' where "show_nat (n div 10) = CHR ''0'' # ds'"
      by (cases "show_nat (n div 10)") (auto simp: show_nat.simps[of n])
    with "1.IH"[OF False] have "n div 10 = 0" by blast
    with False show ?thesis by simp
  qed
qed

lemma show_nat_zero [simp]: "show_nat 0 = ''0''"
  by (simp add: show_nat.simps digit_char_def char_of_eq_iff)

subsection \<open>Strings\<close>

text \<open>
  The encoder's escapes: the two quotes-and-backslash characters, the five short escapes, and
  \<open>\u00xx\<close> for everything outside the printable ASCII range.
\<close>

definition hex_char :: "nat \<Rightarrow> char" where
  "hex_char n = (if n < 10 then char_of (48 + n) else char_of (87 + n))"

definition hex_val :: "char \<Rightarrow> nat option" where
  "hex_val c = (let n = (of_char c :: nat) in
     if 48 \<le> n \<and> n \<le> 57 then Some (n - 48)
     else if 97 \<le> n \<and> n \<le> 102 then Some (n - 87)
     else if 65 \<le> n \<and> n \<le> 70 then Some (n - 55)
     else None)"

definition esc_char :: "char \<Rightarrow> string" where
  "esc_char c = (let n = (of_char c :: nat) in
     if n = 34 then [CHR 0x5C, CHR 0x22]
     else if n = 92 then [CHR 0x5C, CHR 0x5C]
     else if n = 10 then [CHR 0x5C, CHR ''n'']
     else if n = 13 then [CHR 0x5C, CHR ''r'']
     else if n = 9 then [CHR 0x5C, CHR ''t'']
     else if n = 12 then [CHR 0x5C, CHR ''f'']
     else if n = 8 then [CHR 0x5C, CHR ''b'']
     else if 32 \<le> n \<and> n \<le> 126 then [c]
     else [CHR 0x5C, CHR ''u'', CHR ''0'', CHR ''0'', hex_char (n div 16), hex_char (n mod 16)])"

definition dumps_string :: "string \<Rightarrow> string" where
  "dumps_string s = CHR 0x22 # concat (map esc_char s) @ [CHR 0x22]"

definition unescape :: "char \<Rightarrow> char option" where
  "unescape e =
     (if e = CHR 0x22 \<or> e = CHR 0x5C \<or> e = CHR ''/'' then Some e
      else if e = CHR ''n'' then Some (char_of (10 :: nat))
      else if e = CHR ''r'' then Some (char_of (13 :: nat))
      else if e = CHR ''t'' then Some (char_of (9 :: nat))
      else if e = CHR ''f'' then Some (char_of (12 :: nat))
      else if e = CHR ''b'' then Some (char_of (8 :: nat))
      else None)"

definition hex4 :: "char \<Rightarrow> char \<Rightarrow> char \<Rightarrow> char \<Rightarrow> nat option" where
  "hex4 a b c d = Option.bind (hex_val a) (\<lambda>w. Option.bind (hex_val b) (\<lambda>x.
     Option.bind (hex_val c) (\<lambda>y. Option.bind (hex_val d) (\<lambda>z.
       Some (((w * 16 + x) * 16 + y) * 16 + z)))))"

text \<open>The text after an opening quote: the string's characters and what follows the closing one.\<close>

fun scan_string :: "string \<Rightarrow> (string \<times> string) option" where
  "scan_string [] = None"
| "scan_string (c # cs) =
     (if c = CHR 0x22 then Some ([], cs)
      else if c = CHR 0x5C then
        (case cs of
           [] \<Rightarrow> None
         | e # ds \<Rightarrow>
             if e = CHR ''u'' then
               (case ds of
                  h1 # h2 # h3 # h4 # rest \<Rightarrow>
                    (case hex4 h1 h2 h3 h4 of
                       None \<Rightarrow> None
                     | Some n \<Rightarrow>
                         if n < 256
                         then map_option (\<lambda>(t, r). (char_of n # t, r)) (scan_string rest)
                         else None)
                | _ \<Rightarrow> None)
             else
               (case unescape e of
                  None \<Rightarrow> None
                | Some ch \<Rightarrow> map_option (\<lambda>(t, r). (ch # t, r)) (scan_string ds)))
      else if (of_char c :: nat) < 32 then None
      else map_option (\<lambda>(t, r). (c # t, r)) (scan_string cs))"

lemma of_char_less_256 [simp]: "(of_char c :: nat) < 256"
  using of_char_mod_256[of c] by (metis mod_less_divisor zero_less_numeral)

lemma hex_val_hex_char: "n < 16 \<Longrightarrow> hex_val (hex_char n) = Some n"
  by (auto simp: hex_val_def hex_char_def of_char_of Let_def)

lemma hex_val_zero [simp]: "hex_val (CHR ''0'') = Some 0"
  by (simp add: hex_val_def)

lemma hex4_char:
  "n < 256 \<Longrightarrow> hex4 (CHR ''0'') (CHR ''0'') (hex_char (n div 16)) (hex_char (n mod 16)) = Some n"
  by (simp add: hex4_def hex_val_hex_char)

lemma of_char_eq_charD: "(of_char c :: nat) = n \<Longrightarrow> c = char_of n"
  by auto

lemma char_of_quote: "char_of (34 :: nat) = CHR 0x22" and char_of_backslash: "char_of (92 :: nat) = CHR 0x5C"
  by (simp_all add: char_of_eq_iff)

lemma scan_string_esc:
  "scan_string (esc_char c @ s) = map_option (\<lambda>(t, r). (c # t, r)) (scan_string s)"
proof -
  define n where "n = (of_char c :: nat)"
  have c: "c = char_of n" and n: "n < 256" by (simp_all add: n_def)
  have ne: "c \<noteq> CHR 0x22 \<and> c \<noteq> CHR 0x5C" if "n \<noteq> 34" "n \<noteq> 92"
    using that by (auto simp: n_def)
  show ?thesis
  proof (cases "n = 34 \<or> n = 92 \<or> n = 10 \<or> n = 13 \<or> n = 9 \<or> n = 12 \<or> n = 8")
    case True
    then show ?thesis
      by (elim disjE) (simp_all add: esc_char_def n_def[symmetric] unescape_def,
          simp_all add: c char_of_quote char_of_backslash)
  next
    case False
    note plain = False
    show ?thesis
    proof (cases "32 \<le> n \<and> n \<le> 126")
      case True
      with plain ne show ?thesis by (simp add: esc_char_def n_def[symmetric])
    next
      case False
      with plain have "esc_char c @ s =
          CHR 0x5C # CHR ''u'' # CHR ''0'' # CHR ''0'' # hex_char (n div 16) # hex_char (n mod 16) # s"
        by (auto simp: esc_char_def n_def[symmetric])
      then show ?thesis using n by (simp add: hex4_char c)
    qed
  qed
qed

lemma scan_string_dumps: "scan_string (concat (map esc_char s) @ CHR 0x22 # rest) = Some (s, rest)"
  by (induction s) (simp_all add: scan_string_esc)

lemma scan_string_shorter: "scan_string s = Some (t, r) \<Longrightarrow> length r < length s"
proof (induction s arbitrary: t r rule: scan_string.induct)
  case (2 c cs)
  then show ?case
    by (fastforce split: if_splits list.splits option.splits)
qed simp

subsection \<open>Numbers in JSON text\<close>

text \<open>
  \<open>-?(0|[1-9][0-9]*)(\.[0-9]+)?([eE][-+]?[0-9]+)?\<close>: an integer when neither optional part is
  there, otherwise a float. A dot or an exponent mark with no digit after it is left unread.
\<close>

definition scan_frac :: "string \<Rightarrow> string \<times> string" where
  "scan_frac s = (case s of
     [] \<Rightarrow> ([], s)
   | c # cs \<Rightarrow>
       if c = CHR ''.'' \<and> takeWhile is_digit cs \<noteq> []
       then (takeWhile is_digit cs, dropWhile is_digit cs) else ([], s))"

definition scan_exp :: "string \<Rightarrow> int option \<times> string" where
  "scan_exp s = (case s of
     [] \<Rightarrow> (None, s)
   | c # cs \<Rightarrow>
       if c = CHR ''e'' \<or> c = CHR ''E'' then
         (let (neg, ds) =
            (case cs of
               [] \<Rightarrow> (False, cs)
             | d # rest \<Rightarrow>
                 if d = CHR ''-'' then (True, rest)
                 else if d = CHR ''+'' then (False, rest) else (False, cs))
          in if takeWhile is_digit ds = [] then (None, s)
             else (Some ((if neg then -1 else 1) * int (nat_of_digits (takeWhile is_digit ds))),
                   dropWhile is_digit ds))
       else (None, s))"

definition scan_minus :: "string \<Rightarrow> bool \<times> string" where
  "scan_minus s = (case s of
     [] \<Rightarrow> (False, s)
   | c # cs \<Rightarrow> if c = CHR ''-'' then (True, cs) else (False, s))"

definition int_part :: "string \<Rightarrow> string" where
  "int_part s = (case s of
     [] \<Rightarrow> []
   | c # _ \<Rightarrow> if c = CHR ''0'' then [c] else takeWhile is_digit s)"

definition signed :: "bool \<Rightarrow> nat \<Rightarrow> int" where
  "signed neg n = (if neg then - int n else int n)"

definition scan_number :: "string \<Rightarrow> (json \<times> string) option" where
  "scan_number s =
     (case scan_minus s of (neg, s1) \<Rightarrow>
      let ds = int_part s1 in
      case scan_frac (drop (length ds) s1) of (fs, s2) \<Rightarrow>
      case scan_exp s2 of (ex, s3) \<Rightarrow>
        if ds = [] then None
        else if fs = [] \<and> ex = None then
          (if length ds > max_int_digits then None
           else Some (JInt (signed neg (nat_of_digits ds)), s3))
        else Some (JFloat (Decimal (signed neg (nat_of_digits (ds @ fs)))
                    ((case ex of None \<Rightarrow> 0 | Some e \<Rightarrow> e) - int (length fs))), s3))"

subsection \<open>Values\<close>

definition json_ws :: "char \<Rightarrow> bool" where
  "json_ws c = (let n = (of_char c :: nat) in n = 32 \<or> n = 9 \<or> n = 10 \<or> n = 13)"

definition skip_ws :: "string \<Rightarrow> string" where
  "skip_ws s = dropWhile json_ws s"

definition scan_atom :: "string \<Rightarrow> (json \<times> string) option" where
  "scan_atom s =
     (if starts_with s ''null'' then Some (JNull, drop 4 s)
      else if starts_with s ''true'' then Some (JBool True, drop 4 s)
      else if starts_with s ''false'' then Some (JBool False, drop 5 s)
      else if starts_with s ''NaN'' then Some (JFloat NaN, drop 3 s)
      else if starts_with s ''Infinity'' then Some (JFloat PosInf, drop 8 s)
      else if starts_with s ''-Infinity'' then Some (JFloat NegInf, drop 9 s)
      else scan_number s)"

fun loads_value :: "nat \<Rightarrow> string \<Rightarrow> (json \<times> string) option"
and loads_items :: "nat \<Rightarrow> string \<Rightarrow> (json list \<times> string) option"
and loads_members :: "nat \<Rightarrow> string \<Rightarrow> (dict \<times> string) option"
where
  "loads_value 0 s = None"
| "loads_value (Suc n) s =
     (case s of
        [] \<Rightarrow> None
      | c # cs \<Rightarrow>
          if c = CHR 0x22 then map_option (\<lambda>(t, r). (JStr t, r)) (scan_string cs)
          else if c = CHR ''{'' then
            (case skip_ws cs of
               [] \<Rightarrow> None
             | d # ds \<Rightarrow>
                 if d = CHR ''}'' then Some (JObj [], ds)
                 else map_option (\<lambda>(kvs, r). (JObj (dict_update [] kvs), r))
                        (loads_members n (d # ds)))
          else if c = CHR ''['' then
            (case skip_ws cs of
               [] \<Rightarrow> None
             | d # ds \<Rightarrow>
                 if d = CHR '']'' then Some (JArr [], ds)
                 else map_option (\<lambda>(vs, r). (JArr vs, r)) (loads_items n (d # ds)))
          else scan_atom s)"
| "loads_items 0 s = None"
| "loads_items (Suc n) s =
     (case loads_value n s of
        None \<Rightarrow> None
      | Some (v, r) \<Rightarrow>
          (case skip_ws r of
             [] \<Rightarrow> None
           | c # cs \<Rightarrow>
               if c = CHR '']'' then Some ([v], cs)
               else if c = CHR '','' then
                 map_option (\<lambda>(vs, r). (v # vs, r)) (loads_items n (skip_ws cs))
               else None))"
| "loads_members 0 s = None"
| "loads_members (Suc n) s =
     (case s of
        [] \<Rightarrow> None
      | q # qs \<Rightarrow>
          if q \<noteq> CHR 0x22 then None
          else (case scan_string qs of
              None \<Rightarrow> None
            | Some (k, r) \<Rightarrow>
                (case skip_ws r of
                   [] \<Rightarrow> None
                 | c # cs \<Rightarrow>
                     if c \<noteq> CHR '':'' then None
                     else (case loads_value n (skip_ws cs) of
                         None \<Rightarrow> None
                       | Some (v, r2) \<Rightarrow>
                           (case skip_ws r2 of
                              [] \<Rightarrow> None
                            | d # ds \<Rightarrow>
                                if d = CHR ''}'' then Some ([(k, v)], ds)
                                else if d = CHR '','' then
                                  map_option (\<lambda>(kvs, r). ((k, v) # kvs, r))
                                    (loads_members n (skip_ws ds))
                                else None)))))"

text \<open>Each call spends one unit of fuel; \<open>loads_fuel_enough\<close> shows that twice the text's length is enough.\<close>

definition loads :: "string \<Rightarrow> json option" where
  "loads s = (case loads_value (2 * length s + 2) (skip_ws s) of
      None \<Rightarrow> None
    | Some (v, r) \<Rightarrow> if skip_ws r = [] then Some v else None)"

fun dumps :: "json \<Rightarrow> string"
and dumps_items :: "json list \<Rightarrow> string"
and dumps_members :: "dict \<Rightarrow> string"
where
  "dumps JNull = ''null''"
| "dumps (JBool b) = (if b then ''true'' else ''false'')"
| "dumps (JInt i) = show_int i"
| "dumps (JFloat (Decimal m e)) = show_int m @ ''e'' @ show_int e"
| "dumps (JFloat NaN) = ''NaN''"
| "dumps (JFloat PosInf) = ''Infinity''"
| "dumps (JFloat NegInf) = ''-Infinity''"
| "dumps (JStr s) = dumps_string s"
| "dumps (JArr vs) = CHR ''['' # dumps_items vs @ '']''"
| "dumps (JObj kvs) = CHR ''{'' # dumps_members kvs @ ''}''"
| "dumps_items [] = []"
| "dumps_items (v # vs) = dumps v @ (if vs = [] then [] else '', '' @ dumps_items vs)"
| "dumps_members [] = []"
| "dumps_members ((k, v) # kvs) =
     dumps_string k @ '': '' @ dumps v @ (if kvs = [] then [] else '', '' @ dumps_members kvs)"

text \<open>
  The values whose text reads back: dictionaries with distinct keys (every Python dictionary),
  integers the interpreter agrees to print, no finite floats (their text is \<open>float.__repr__\<close>'s).
\<close>

fun json_ok :: "json \<Rightarrow> bool"
and items_ok :: "json list \<Rightarrow> bool"
and members_ok :: "dict \<Rightarrow> bool"
where
  "json_ok (JInt i) = (length (show_nat (nat \<bar>i\<bar>)) \<le> max_int_digits)"
| "json_ok (JFloat (Decimal m e)) = False"
| "json_ok (JArr vs) = items_ok vs"
| "json_ok (JObj kvs) = (keys_distinct kvs \<and> members_ok kvs)"
| "json_ok _ = True"
| "items_ok [] = True"
| "items_ok (v # vs) = (json_ok v \<and> items_ok vs)"
| "members_ok [] = True"
| "members_ok ((k, v) # kvs) = (json_ok v \<and> members_ok kvs)"

subsection \<open>The parser always has enough fuel\<close>

lemma length_skip_ws_le: "length (skip_ws s) \<le> length s"
  by (simp add: skip_ws_def length_dropWhile_le)

lemma skip_ws_Cons_shorter: "skip_ws s = c # cs \<Longrightarrow> length cs < length s"
  using length_skip_ws_le[of s] by simp

lemma less_skip_wsD: "n < length (skip_ws s) \<Longrightarrow> n < length s"
  using length_skip_ws_le[of s] by simp

lemma length_dropWhile_less: "takeWhile P s \<noteq> [] \<Longrightarrow> length (dropWhile P s) < length s"
  by (cases s) (auto simp: le_imp_less_Suc length_dropWhile_le split: if_splits)

lemma length_scan_frac_le: "scan_frac s = (fs, r) \<Longrightarrow> length r \<le> length s"
  by (auto simp: scan_frac_def le_SucI length_dropWhile_le split: list.splits if_splits)

lemma length_scan_exp_le: "scan_exp s = (ex, r) \<Longrightarrow> length r \<le> length s"
  by (auto simp: scan_exp_def Let_def le_SucI length_dropWhile_le split: list.splits if_splits)

lemma length_scan_minus_le: "scan_minus s = (neg, s1) \<Longrightarrow> length s1 \<le> length s"
  by (auto simp: scan_minus_def split: list.splits if_splits)

lemma length_drop_int_part: "int_part s \<noteq> [] \<Longrightarrow> length (drop (length (int_part s)) s) < length s"
  by (cases s) (auto simp: int_part_def)

lemma scan_number_shorter:
  assumes "scan_number s = Some (v, r)"
  shows "length r < length s"
proof -
  obtain neg s1 where m: "scan_minus s = (neg, s1)" by fastforce
  obtain fs s2 where f: "scan_frac (drop (length (int_part s1)) s1) = (fs, s2)" by fastforce
  obtain ex s3 where e: "scan_exp s2 = (ex, s3)" by fastforce
  have "int_part s1 \<noteq> []" and "r = s3"
    using assms by (auto simp: scan_number_def Let_def m f e split: if_splits)
  then show ?thesis
    using length_scan_minus_le[OF m] length_drop_int_part length_scan_frac_le[OF f]
      length_scan_exp_le[OF e] by fastforce
qed

lemma scan_atom_shorter: "scan_atom s = Some (v, r) \<Longrightarrow> length r < length s"
  by (cases s) (auto simp: scan_atom_def starts_with_def dest: scan_number_shorter split: if_splits)

lemma loads_shorter:
  "loads_value n s = Some (v, r) \<Longrightarrow> length r < length s"
  "loads_items n s = Some (vs, r) \<Longrightarrow> length r < length s"
  "loads_members n s = Some (kvs, r) \<Longrightarrow> length r < length s"
proof (induction n arbitrary: s v vs kvs r)
  case (Suc n)
  {
    case 1
    then show ?case
      by (auto split: list.splits if_splits dest!: scan_string_shorter scan_atom_shorter
          skip_ws_Cons_shorter Suc.IH(2,3))
  next
    case 2
    then show ?case
      by (auto split: option.splits list.splits if_splits
          dest!: Suc.IH(1,2) less_skip_wsD skip_ws_Cons_shorter)
  next
    case 3
    then show ?case
      by (auto split: option.splits list.splits if_splits
          dest!: Suc.IH(1,3) less_skip_wsD skip_ws_Cons_shorter scan_string_shorter)
  }
qed simp_all

lemma loads_fuel_step:
  assumes IH: "\<And>t n m. length t < length s \<Longrightarrow> 2 * length t + 1 \<le> n \<Longrightarrow> 2 * length t + 1 \<le> m \<Longrightarrow>
      loads_value n t = loads_value m t"
    "\<And>t n m. length t < length s \<Longrightarrow> 2 * length t + 2 \<le> n \<Longrightarrow> 2 * length t + 2 \<le> m \<Longrightarrow>
      loads_items n t = loads_items m t"
    "\<And>t n m. length t < length s \<Longrightarrow> 2 * length t + 2 \<le> n \<Longrightarrow> 2 * length t + 2 \<le> m \<Longrightarrow>
      loads_members n t = loads_members m t"
  shows value_fuel_step:
      "2 * length s + 1 \<le> Suc n \<Longrightarrow> 2 * length s + 1 \<le> Suc m \<Longrightarrow>
        loads_value (Suc n) s = loads_value (Suc m) s"
    and items_fuel_step:
      "loads_value n s = loads_value m s \<Longrightarrow> 2 * length s + 2 \<le> Suc n \<Longrightarrow> 2 * length s + 2 \<le> Suc m \<Longrightarrow>
        loads_items (Suc n) s = loads_items (Suc m) s"
    and members_fuel_step:
      "2 * length s + 2 \<le> Suc n \<Longrightarrow> 2 * length s + 2 \<le> Suc m \<Longrightarrow>
        loads_members (Suc n) s = loads_members (Suc m) s"
proof -
  assume n: "2 * length s + 1 \<le> Suc n" "2 * length s + 1 \<le> Suc m"
  have "loads_items n (d # ds) = loads_items m (d # ds) \<and> loads_members n (d # ds) = loads_members m (d # ds)"
    if "s = c # cs" "skip_ws cs = d # ds" for c cs d ds
    using IH(2,3)[of "d # ds" n m] n that length_skip_ws_le[of cs] by auto
  then show "loads_value (Suc n) s = loads_value (Suc m) s"
    by (auto split: list.splits)
next
  assume v: "loads_value n s = loads_value m s"
    and n: "2 * length s + 2 \<le> Suc n" "2 * length s + 2 \<le> Suc m"
  have "loads_items n (skip_ws cs) = loads_items m (skip_ws cs)"
    if "loads_value m s = Some (x, r)" "skip_ws r = c # cs" for x r c cs
    using IH(2)[of "skip_ws cs" n m] n loads_shorter(1)[OF that(1)] skip_ws_Cons_shorter[OF that(2)]
      length_skip_ws_le[of cs] by auto
  then show "loads_items (Suc n) s = loads_items (Suc m) s"
    by (auto simp: v split: option.splits list.splits)
next
  assume n: "2 * length s + 2 \<le> Suc n" "2 * length s + 2 \<le> Suc m"
  have v: "loads_value n (skip_ws cs) = loads_value m (skip_ws cs)"
    if "s = q # qs" "scan_string qs = Some (k, r)" "skip_ws r = c # cs" for q qs k r c cs
    using IH(1)[of "skip_ws cs" n m] n that(1) scan_string_shorter[OF that(2)]
      skip_ws_Cons_shorter[OF that(3)] length_skip_ws_le[of cs] by auto
  have ms: "loads_members n (skip_ws ds) = loads_members m (skip_ws ds)"
    if "s = q # qs" "scan_string qs = Some (k, r)" "skip_ws r = c # cs"
      "loads_value m (skip_ws cs) = Some (x, r2)" "skip_ws r2 = d # ds" for q qs k r c cs x r2 d ds
    using IH(3)[of "skip_ws ds" n m] n that(1) scan_string_shorter[OF that(2)]
      skip_ws_Cons_shorter[OF that(3)] length_skip_ws_le[of cs] loads_shorter(1)[OF that(4)]
      skip_ws_Cons_shorter[OF that(5)] length_skip_ws_le[of ds] by auto
  show "loads_members (Suc n) s = loads_members (Suc m) s"
    by (auto simp: v ms split: option.splits list.splits)
qed

lemma loads_fuel_aux:
  "(\<forall>n m. 2 * length s + 1 \<le> n \<longrightarrow> 2 * length s + 1 \<le> m \<longrightarrow> loads_value n s = loads_value m s) \<and>
   (\<forall>n m. 2 * length s + 2 \<le> n \<longrightarrow> 2 * length s + 2 \<le> m \<longrightarrow> loads_items n s = loads_items m s) \<and>
   (\<forall>n m. 2 * length s + 2 \<le> n \<longrightarrow> 2 * length s + 2 \<le> m \<longrightarrow> loads_members n s = loads_members m s)"
proof (induction "length s" arbitrary: s rule: less_induct)
  case less
  note IH = less[THEN conjunct1, rule_format] less[THEN conjunct2, THEN conjunct1, rule_format]
    less[THEN conjunct2, THEN conjunct2, rule_format]
  have v: "loads_value n s = loads_value m s"
    if n: "2 * length s + 1 \<le> n" "2 * length s + 1 \<le> m" for n m
  proof -
    from n obtain n' m' where nm: "n = Suc n'" "m = Suc m'" by (cases n; cases m) simp_all
    show ?thesis unfolding nm by (rule value_fuel_step[OF IH]) (use n nm in simp_all)
  qed
  moreover have "loads_items n s = loads_items m s"
    if n: "2 * length s + 2 \<le> n" "2 * length s + 2 \<le> m" for n m
  proof -
    from n obtain n' m' where nm: "n = Suc n'" "m = Suc m'" by (cases n; cases m) simp_all
    then have ve: "loads_value n' s = loads_value m' s" using n by (intro v) simp_all
    show ?thesis unfolding nm by (rule items_fuel_step[OF IH]) (use ve n nm in simp_all)
  qed
  moreover have "loads_members n s = loads_members m s"
    if n: "2 * length s + 2 \<le> n" "2 * length s + 2 \<le> m" for n m
  proof -
    from n obtain n' m' where nm: "n = Suc n'" "m = Suc m'" by (cases n; cases m) simp_all
    show ?thesis unfolding nm by (rule members_fuel_step[OF IH]) (use n nm in simp_all)
  qed
  ultimately show ?case by blast
qed

lemma loads_fuel_enough:
  "2 * length s + 1 \<le> n \<Longrightarrow> loads_value n s = loads_value (2 * length s + 1) s"
  using loads_fuel_aux[of s] by blast

subsection \<open>Reading back what was printed\<close>

text \<open>What may follow a number: nothing that would be read as a part of it.\<close>

definition num_stop :: "string \<Rightarrow> bool" where
  "num_stop s = (case s of [] \<Rightarrow> True
     | c # _ \<Rightarrow> \<not> is_digit c \<and> c \<noteq> CHR ''.'' \<and> c \<noteq> CHR ''e'' \<and> c \<noteq> CHR ''E'')"

lemma num_stop_simps [simp]:
  "num_stop []"
  "num_stop (CHR '','' # s)" "num_stop (CHR '']'' # s)" "num_stop (CHR ''}'' # s)"
  by (simp_all add: num_stop_def is_digit_def)

lemma scan_frac_stop: "num_stop s \<Longrightarrow> scan_frac s = ([], s)"
  by (auto simp: num_stop_def scan_frac_def split: list.splits)

lemma scan_exp_stop: "num_stop s \<Longrightarrow> scan_exp s = (None, s)"
  by (auto simp: num_stop_def scan_exp_def split: list.splits)

lemma takeWhile_digits:
  "\<forall>c \<in> set ds. is_digit c \<Longrightarrow> num_stop s \<Longrightarrow> takeWhile is_digit (ds @ s) = ds"
  by (induction ds) (auto simp: num_stop_def split: list.splits)

lemma int_part_show_nat: "num_stop s \<Longrightarrow> int_part (show_nat n @ s) = show_nat n"
proof (cases "show_nat n")
  case (Cons c cs)
  assume stop: "num_stop s"
  show ?thesis
  proof (cases "c = CHR ''0''")
    case True
    with Cons have "n = 0" using show_nat_head_zero by blast
    then show ?thesis by (simp add: int_part_def)
  next
    case False
    with Cons show ?thesis
      using takeWhile_digits[OF show_nat_digits stop, of n] by (simp add: int_part_def)
  qed
qed simp

lemma show_nat_head: "show_nat n @ s = c # cs \<Longrightarrow> is_digit c"
  using show_nat_digits[of n] by (cases "show_nat n") auto

lemma is_digit_neqs:
  "is_digit c \<Longrightarrow> c \<noteq> CHR ''-'' \<and> c \<noteq> CHR ''n'' \<and> c \<noteq> CHR ''t'' \<and> c \<noteq> CHR ''f'' \<and> c \<noteq> CHR ''N'' \<and>
     c \<noteq> CHR ''I'' \<and> c \<noteq> CHR 0x22 \<and> c \<noteq> CHR ''{'' \<and> c \<noteq> CHR ''['' \<and> \<not> json_ws c \<and> c \<noteq> CHR '']'' \<and>
     c \<noteq> CHR ''}''"
  by (auto simp: is_digit_def json_ws_def Let_def)

lemma scan_number_show_int:
  assumes "num_stop s" and "length (show_nat (nat \<bar>i\<bar>)) \<le> max_int_digits"
  shows "scan_number (show_int i @ s) = Some (JInt i, s)"
proof -
  have min: "scan_minus (show_int i @ s) = (i < 0, show_nat (nat \<bar>i\<bar>) @ s)"
    using show_nat_head[of "nat i" s] is_digit_neqs
    by (auto simp: show_int_def scan_minus_def split: list.splits)
  show ?thesis
    using assms
    by (auto simp: scan_number_def min int_part_show_nat scan_frac_stop scan_exp_stop Let_def signed_def)
qed

lemma scan_atom_number:
  assumes "c \<noteq> CHR ''n''" "c \<noteq> CHR ''t''" "c \<noteq> CHR ''f''" "c \<noteq> CHR ''N''" "c \<noteq> CHR ''I''"
    and "c = CHR ''-'' \<Longrightarrow> \<exists>d ds. cs = d # ds \<and> is_digit d"
  shows "scan_atom (c # cs) = scan_number (c # cs)"
  using assms is_digit_neqs by (fastforce simp: scan_atom_def starts_with_def)

lemma scan_atom_show_int:
  assumes "num_stop s" and "length (show_nat (nat \<bar>i\<bar>)) \<le> max_int_digits"
  shows "scan_atom (show_int i @ s) = Some (JInt i, s)"
proof -
  obtain d ds where d: "show_nat (nat \<bar>i\<bar>) @ s = d # ds" and "is_digit d"
    by (metis append_is_Nil_conv list.exhaust show_nat_head show_nat_not_Nil)
  have "scan_atom (show_int i @ s) = scan_number (show_int i @ s)"
  proof (cases "i < 0")
    case True
    then have "show_int i @ s = CHR ''-'' # d # ds" using d by (simp add: show_int_def)
    then show ?thesis using \<open>is_digit d\<close> by (simp add: scan_atom_number)
  next
    case False
    then have e: "show_int i @ s = d # ds" using d by (simp add: show_int_def)
    show ?thesis unfolding e by (rule scan_atom_number) (use is_digit_neqs[OF \<open>is_digit d\<close>] in auto)
  qed
  then show ?thesis using scan_number_show_int[OF assms] by simp
qed

lemma show_int_head:
  "show_int i @ s = c # cs \<Longrightarrow> c \<noteq> CHR 0x22 \<and> c \<noteq> CHR ''{'' \<and> c \<noteq> CHR ''['' \<and> \<not> json_ws c \<and>
     c \<noteq> CHR '']''"
  using show_nat_head[of "nat i" s c cs] is_digit_neqs[of c]
  by (auto simp: show_int_def json_ws_def split: if_splits)

text \<open>A printed value starts with neither white space nor a closing bracket.\<close>

lemma dumps_head:
  "dumps j @ s = c # cs \<Longrightarrow> \<not> json_ws c \<and> c \<noteq> CHR '']''"
proof (cases j)
  case (JFloat f)
  assume "dumps j @ s = c # cs"
  with JFloat show ?thesis
    by (cases f) (auto simp: json_ws_def dest: show_int_head)
qed (auto simp: json_ws_def dumps_string_def dest: show_int_head split: if_splits)

lemma dumps_not_Nil: "dumps j \<noteq> []"
proof (cases j)
  case (JFloat f)
  then show ?thesis by (cases f) auto
qed (auto simp: show_int_def dumps_string_def)

lemma skip_ws_dumps [simp]: "skip_ws (dumps j @ s) = dumps j @ s"
  using dumps_not_Nil[of j] dumps_head[of j s] by (cases "dumps j @ s") (auto simp: skip_ws_def)

fun cost :: "json \<Rightarrow> nat" and items_cost :: "json list \<Rightarrow> nat" and members_cost :: "dict \<Rightarrow> nat"
where
  "cost (JArr vs) = Suc (items_cost vs)"
| "cost (JObj kvs) = Suc (members_cost kvs)"
| "cost _ = 1"
| "items_cost [] = 0"
| "items_cost (v # vs) = Suc (cost v + items_cost vs)"
| "members_cost [] = 0"
| "members_cost ((k, v) # kvs) = Suc (cost v + members_cost kvs)"

lemma skip_ws_space [simp]:
  "skip_ws (CHR '' '' # s) = skip_ws s" "skip_ws [] = []"
  "skip_ws (CHR 0x22 # s) = CHR 0x22 # s" "skip_ws (CHR '','' # s) = CHR '','' # s"
  "skip_ws (CHR '']'' # s) = CHR '']'' # s" "skip_ws (CHR ''}'' # s) = CHR ''}'' # s"
  "skip_ws (CHR '':'' # s) = CHR '':'' # s"
  by (simp_all add: skip_ws_def json_ws_def)

lemma loads_value_dumps_atom:
  assumes "\<And>c cs. dumps j @ s = c # cs \<Longrightarrow> c \<noteq> CHR 0x22 \<and> c \<noteq> CHR ''{'' \<and> c \<noteq> CHR ''[''"
  shows "loads_value (Suc n) (dumps j @ s) = scan_atom (dumps j @ s)"
  using assms dumps_not_Nil[of j] by (cases "dumps j @ s") auto

lemma loads_dumps_aux:
  "json_ok j \<Longrightarrow> num_stop s \<Longrightarrow> cost j \<le> n \<Longrightarrow> loads_value n (dumps j @ s) = Some (j, s)"
  "items_ok vs \<Longrightarrow> vs \<noteq> [] \<Longrightarrow> items_cost vs \<le> n \<Longrightarrow>
     loads_items n (dumps_items vs @ CHR '']'' # s) = Some (vs, s)"
  "members_ok kvs \<Longrightarrow> kvs \<noteq> [] \<Longrightarrow> members_cost kvs \<le> n \<Longrightarrow>
     loads_members n (dumps_members kvs @ CHR ''}'' # s) = Some (kvs, s)"
proof (induction j and vs and kvs arbitrary: n s and n s and n s rule: dumps_dumps_items_dumps_members.induct)
  case (3 i)
  then obtain n' where n: "n = Suc n'" by (cases n) auto
  have "loads_value n (dumps (JInt i) @ s) = scan_atom (dumps (JInt i) @ s)"
    unfolding n using show_int_head[of i s] by (intro loads_value_dumps_atom) auto
  then show ?case using 3 by (simp add: scan_atom_show_int)
next
  case (9 vs)
  then obtain n' where n: "n = Suc n'" by (cases n) auto
  show ?case
  proof (cases vs)
    case Nil
    then show ?thesis by (simp add: n)
  next
    case (Cons w ws)
    then obtain c cs where c: "dumps_items vs @ CHR '']'' # s = c # cs"
      and "\<not> json_ws c \<and> c \<noteq> CHR '']''"
      using dumps_not_Nil[of w] dumps_head[of w] by (cases "dumps_items vs @ CHR '']'' # s") auto
    moreover have "loads_items n' (c # cs) = Some (vs, s)"
      using 9 Cons n unfolding c[symmetric] by simp
    ultimately show ?thesis using c by (simp add: n skip_ws_def)
  qed
next
  case (10 kvs)
  then obtain n' where n: "n = Suc n'" by (cases n) auto
  show ?case
  proof (cases kvs)
    case Nil
    then show ?thesis by (simp add: n)
  next
    case (Cons p ps)
    then obtain cs where c: "dumps_members kvs @ CHR ''}'' # s = CHR 0x22 # cs"
      by (cases p) (auto simp: dumps_string_def)
    moreover have "loads_members n' (CHR 0x22 # cs) = Some (kvs, s)"
      using 10 Cons n unfolding c[symmetric] by simp
    ultimately show ?thesis using 10 by (simp add: n dict_update_empty)
  qed
next
  case (12 v vs)
  then obtain n' where n: "n = Suc n'" by (cases n) auto
  show ?case using 12 by (cases vs) (auto simp: n)
next
  case (14 k v kvs)
  then obtain n' where n: "n = Suc n'" by (cases n) auto
  show ?case using 14 by (cases kvs) (auto simp: n dumps_string_def scan_string_dumps)
qed (auto simp: starts_with_def scan_atom_def dumps_string_def scan_string_dumps
      gr0_conv_Suc Suc_le_eq split: if_splits)

theorem loads_dumps: "json_ok j \<Longrightarrow> loads (dumps j) = Some j"
proof -
  assume ok: "json_ok j"
  define n where "n = max (cost j) (2 * length (dumps j) + 2)"
  have "loads_value n (dumps j) = Some (j, [])"
    using loads_dumps_aux(1)[OF ok, of "[]" n] by (simp add: n_def)
  moreover have "loads_value n (dumps j) = loads_value (2 * length (dumps j) + 2) (dumps j)"
    using loads_fuel_enough[of "dumps j" n] loads_fuel_enough[of "dumps j" "2 * length (dumps j) + 2"]
    by (simp add: n_def)
  moreover have "skip_ws (dumps j) = dumps j"
    using skip_ws_dumps[of j "[]"] by simp
  ultimately show ?thesis by (simp add: loads_def)
qed

subsection \<open>The text is printable ASCII\<close>

definition printable :: "char \<Rightarrow> bool" where
  "printable c = (let n = (of_char c :: nat) in 32 \<le> n \<and> n \<le> 126)"

lemma printable_digit: "is_digit c \<Longrightarrow> printable c"
  by (auto simp: is_digit_def printable_def Let_def)

lemma printable_hex: "n < 16 \<Longrightarrow> printable (hex_char n)"
  by (auto simp: printable_def hex_char_def of_char_of Let_def)

lemma printable_esc: "\<forall>c' \<in> set (esc_char c). printable c'"
proof -
  have "(of_char c :: nat) < 256" by simp
  then have "(of_char c :: nat) div 16 < 16" "(of_char c :: nat) mod 16 < 16"
    by (auto intro: less_mult_imp_div_less)
  then show ?thesis using printable_hex
    by (auto simp: esc_char_def Let_def printable_def)
qed

lemma printable_show_int: "\<forall>c \<in> set (show_int i). printable c"
  using show_nat_digits[of "nat i"] show_nat_digits[of "nat (- i)"] printable_digit
  by (auto simp: show_int_def printable_def)

lemma printable_dumps_string: "\<forall>c \<in> set (dumps_string s). printable c"
  using printable_esc by (auto simp: dumps_string_def printable_def)

lemma printable_dumps:
  "\<forall>c \<in> set (dumps j). printable c"
  "\<forall>c \<in> set (dumps_items vs). printable c"
  "\<forall>c \<in> set (dumps_members kvs). printable c"
proof (induction j and vs and kvs rule: dumps_dumps_items_dumps_members.induct)
  case (4 m e)
  then show ?case using printable_show_int[of m] printable_show_int[of e] by (auto simp: printable_def)
next
  case (14 k v kvs)
  then show ?case using printable_dumps_string[of k] by (auto simp: printable_def)
next
  case (3 i)
  then show ?case using printable_show_int[of i] by simp
next
  case (8 s)
  then show ?case using printable_dumps_string[of s] by simp
qed (auto simp: printable_def)

lemma dumps_no_nul: "CHR 0x00 \<notin> set (dumps j)"
  using printable_dumps(1)[of j] by (auto simp: printable_def)

end
