(* ===== verification/Errors.thy ===== *)
theory Errors
  imports Json
begin

text \<open>
  The vocabulary the components share: instants and datetimes, the provider adapter's result and
  error classes, every exception the modelled code raises or lets through, the settings, and the
  environment (third-party functions and process configuration) the operations take as argument.
\<close>

subsection \<open>Datetimes\<close>

text \<open>
  A datetime is an instant, in microseconds since 1970-01-01T00:00Z, and its UTC offset, \<open>None\<close> for
  a naive value. Python keeps the local fields, whose range is 0001-01-01 to 9999-12-31.
\<close>

record datetime =
  dt_instant :: int
  dt_offset :: "int option"

definition is_naive :: "datetime \<Rightarrow> bool" where
  "is_naive d \<longleftrightarrow> dt_offset d = None"

definition dt_local :: "datetime \<Rightarrow> int" where
  "dt_local d = dt_instant d + (case dt_offset d of None \<Rightarrow> 0 | Some off \<Rightarrow> off)"

definition min_local :: int where "min_local = -62135596800000000"
definition max_local :: int where "max_local = 253402300799999999"

definition day_us :: int where "day_us = 86400000000"
definition minute_us :: int where "minute_us = 60000000"
definition second_us :: int where "second_us = 1000000"

text \<open>\<open>d + timedelta\<close>: \<open>None\<close> is \<open>OverflowError\<close>. \<open>d.date()\<close> is the day number of the local fields.\<close>

definition dt_shift :: "datetime \<Rightarrow> int \<Rightarrow> datetime option" where
  "dt_shift d us =
     (if min_local \<le> dt_local d + us \<and> dt_local d + us \<le> max_local
      then Some (d\<lparr>dt_instant := dt_instant d + us\<rparr>) else None)"

definition dt_date :: "datetime \<Rightarrow> int" where
  "dt_date d = dt_local d div day_us"

definition utc :: "int \<Rightarrow> datetime" where
  "utc t = \<lparr>dt_instant = t, dt_offset = Some 0\<rparr>"

text \<open>\<open>x != y\<close> for a stored (aware) datetime and a request's: a naive value never equals an aware one.\<close>

definition dt_matches :: "int \<Rightarrow> datetime option \<Rightarrow> bool" where
  "dt_matches t v = (case v of None \<Rightarrow> False | Some d \<Rightarrow> \<not> is_naive d \<and> dt_instant d = t)"

lemma dt_shift_Some:
  "dt_shift d us = Some d' \<Longrightarrow> dt_instant d' = dt_instant d + us \<and> dt_offset d' = dt_offset d"
  by (auto simp: dt_shift_def split: if_splits)

subsection \<open>The provider adapter's results and error\<close>

record provider_auth_result =
  access_token :: string
  refresh_token :: "json option"
  expires_at :: "datetime option"

record provider_meeting_result =
  calendar_id :: string
  meeting_panel_address :: "string option"
  start_meeting_url :: "string option"
  unique_id :: "string option"

record provider_error =
  pe_code :: string
  pe_ambiguous :: bool
  pe_status_code :: "int option"
  pe_known_created :: bool
  pe_result :: "provider_meeting_result option"

text \<open>\<open>ProviderError(code)\<close> with its keyword defaults.\<close>

definition ProviderError :: "string \<Rightarrow> provider_error" where
  "ProviderError code = \<lparr>pe_code = code, pe_ambiguous = False, pe_status_code = None,
     pe_known_created = False, pe_result = None\<rparr>"

lemma ProviderError_sel [simp]:
  "pe_code (ProviderError c) = c" "\<not> pe_ambiguous (ProviderError c)"
  "pe_status_code (ProviderError c) = None" "\<not> pe_known_created (ProviderError c)"
  "pe_result (ProviderError c) = None"
  by (simp_all add: ProviderError_def)

subsection \<open>Exceptions\<close>

text \<open>
  \<open>GatewayError\<close> carries its code, message and HTTP status; \<open>ProviderExn\<close> is \<open>ProviderError\<close>;
  \<open>IntegrityError\<close> carries PostgreSQL's SQLSTATE. The rest are the built-in and library exceptions
  the modelled code can meet.
\<close>

datatype exn =
    GatewayError (ge_code: string) (ge_message: string) (ge_status: nat)
  | ProviderExn provider_error
  | MachineAuthenticationError string
  | Throttled nat
  | ParseError
  | UnsupportedMediaType
  | ValidationError string
  | Http404
  | IntegrityError string
  | DataError
  | DatabaseError
  | DoesNotExist
  | InvalidToken
  | ValueError
  | KeyError
  | TypeError
  | AttributeError
  | RedisError
  | ImproperlyConfigured

subsection \<open>Settings and environment\<close>

record settings =
  CREDENTIAL_ENCRYPTION_KEY :: string
  CREDENTIAL_ENCRYPTION_KEY_VERSION :: string
  CONVAY_TRUSTED_HOST_SUFFIXES :: "string list"
  CONVAY_AUTH_PATH :: string
  CONVAY_START_PATH :: string
  DEFAULT_PROVIDER_MEETING_TYPE :: string
  ROOM_BUFFER_BEFORE_MINUTES :: int
  ROOM_BUFFER_AFTER_MINUTES :: int
  GATEWAY_ACCESS_TOKEN_TTL_SECONDS :: int
  CONVAY_TOKEN_EXPIRY_SKEW_SECONDS :: int

text \<open>The checks of the settings module that stop the process from starting.\<close>

definition settings_ok :: "settings \<Rightarrow> bool" where
  "settings_ok S \<longleftrightarrow>
     \<not> (ROOM_BUFFER_BEFORE_MINUTES S < 0 \<or> ROOM_BUFFER_AFTER_MINUTES S < 0) \<and>
     CONVAY_TRUSTED_HOST_SUFFIXES S \<noteq> [] \<and>
     \<not> GATEWAY_ACCESS_TOKEN_TTL_SECONDS S \<le> 0 \<and>
     \<not> CONVAY_TOKEN_EXPIRY_SKEW_SECONDS S < 0"

text \<open>
  What the code takes from outside: the Fernet cipher of the \<open>cryptography\<close> package (key check,
  encryption, decryption with \<open>None\<close> for \<open>InvalidToken\<close>), the previous keys of the environment
  variable, the sort key of the database's text collation, the ISO-8601 text of an aware datetime
  and its reader, and the request context (request id, peer address).
\<close>

record env =
  e_settings :: settings
  e_fernet_key_ok :: "string \<Rightarrow> bool"
  e_fernet_encrypt :: "string \<Rightarrow> string \<Rightarrow> string"
  e_fernet_decrypt :: "string \<Rightarrow> string \<Rightarrow> string option"
  e_previous_keys :: "(string \<times> string) list"
  e_collate :: "string \<Rightarrow> string"
  e_isoformat :: "datetime \<Rightarrow> string"
  e_fromisoformat :: "string \<Rightarrow> datetime option"
  e_request_id :: string
  e_ip :: "string option"

text \<open>
  Documented behaviour of the third-party cipher: what was encrypted under a valid key decrypts
  under the same key. Documented behaviour of \<open>datetime.isoformat\<close>: \<open>fromisoformat\<close> reads it back.
\<close>

definition fernet_ok :: "env \<Rightarrow> bool" where
  "fernet_ok E \<longleftrightarrow> (\<forall>k v. e_fernet_key_ok E k \<longrightarrow> e_fernet_decrypt E k (e_fernet_encrypt E k v) = Some v)"

definition isoformat_ok :: "env \<Rightarrow> bool" where
  "isoformat_ok E \<longleftrightarrow>
     (\<forall>d. \<not> is_naive d \<longrightarrow> e_isoformat E d \<noteq> [] \<and> e_fromisoformat E (e_isoformat E d) = Some d)"

end
