(* ===== verification/Encryption.thy ===== *)
theory Encryption
  imports Errors
begin

text \<open>
  \<open>common/encryption.py\<close>: a Fernet token under a version prefix, with the environment's previous
  keys for old versions. Every stored credential, start URL, payload and cached token goes through
  these two functions.
\<close>

definition encrypt :: "env \<Rightarrow> string \<Rightarrow> exn + string" where
  "encrypt E value =
     (let S = e_settings E in
      if \<not> e_fernet_key_ok E (CREDENTIAL_ENCRYPTION_KEY S) then Inl ValueError
      else Inr (CREDENTIAL_ENCRYPTION_KEY_VERSION S @ '':'' @
                e_fernet_encrypt E (CREDENTIAL_ENCRYPTION_KEY S) value))"

text \<open>The current version overrides a previous key of the same version.\<close>

definition key_for :: "env \<Rightarrow> string \<Rightarrow> string option" where
  "key_for E version =
     map_of (dict_set (CREDENTIAL_ENCRYPTION_KEY_VERSION (e_settings E))
       (CREDENTIAL_ENCRYPTION_KEY (e_settings E)) (e_previous_keys E)) version"

definition decrypt :: "env \<Rightarrow> string \<Rightarrow> exn + string" where
  "decrypt E value =
     (case split_once (CHR '':'') value of
        None \<Rightarrow> Inl ValueError
      | Some (version, ciphertext) \<Rightarrow>
          (case key_for E version of
             None \<Rightarrow> Inl KeyError
           | Some key \<Rightarrow>
               if \<not> e_fernet_key_ok E key then Inl ValueError
               else (case e_fernet_decrypt E key ciphertext of
                   None \<Rightarrow> Inl InvalidToken
                 | Some plain \<Rightarrow> Inr plain)))"

text \<open>The exceptions \<open>decrypt\<close> can raise: exactly those the room eligibility check catches.\<close>

lemma decrypt_errors: "decrypt E v = Inl x \<Longrightarrow> x \<in> {ValueError, KeyError, InvalidToken}"
  by (auto simp: decrypt_def split: option.splits prod.splits if_splits)

lemma key_for_simps [simp]:
  "key_for E (CREDENTIAL_ENCRYPTION_KEY_VERSION (e_settings E)) = Some (CREDENTIAL_ENCRYPTION_KEY (e_settings E))"
  "v \<noteq> CREDENTIAL_ENCRYPTION_KEY_VERSION (e_settings E) \<Longrightarrow> key_for E v = map_of (e_previous_keys E) v"
  by (simp_all add: key_for_def)

lemma decrypt_versioned:
  "CHR '':'' \<notin> set version \<Longrightarrow>
     decrypt E (version @ CHR '':'' # c) =
       (case key_for E version of
          None \<Rightarrow> Inl KeyError
        | Some key \<Rightarrow>
            if \<not> e_fernet_key_ok E key then Inl ValueError
            else (case e_fernet_decrypt E key c of None \<Rightarrow> Inl InvalidToken | Some plain \<Rightarrow> Inr plain))"
  by (simp add: decrypt_def split_once_append)

text \<open>A configuration that can encrypt at all: a usable key and a version with no colon in it.\<close>

definition can_encrypt :: "env \<Rightarrow> bool" where
  "can_encrypt E \<longleftrightarrow> e_fernet_key_ok E (CREDENTIAL_ENCRYPTION_KEY (e_settings E)) \<and>
     CHR '':'' \<notin> set (CREDENTIAL_ENCRYPTION_KEY_VERSION (e_settings E))"

lemma encrypt_Inr: "can_encrypt E \<Longrightarrow> \<exists>c. encrypt E v = Inr c"
  by (simp add: can_encrypt_def encrypt_def Let_def)

lemma encrypt_errors: "encrypt E v = Inl x \<Longrightarrow> x = ValueError"
  by (auto simp: encrypt_def Let_def split: if_splits)

lemma decrypt_encrypt_under:
  assumes "fernet_ok E" and "e_fernet_key_ok E (CREDENTIAL_ENCRYPTION_KEY (e_settings E))"
    and "CHR '':'' \<notin> set (CREDENTIAL_ENCRYPTION_KEY_VERSION (e_settings E))"
    and "e_fernet_key_ok E' = e_fernet_key_ok E" and "e_fernet_decrypt E' = e_fernet_decrypt E"
    and "key_for E' (CREDENTIAL_ENCRYPTION_KEY_VERSION (e_settings E)) =
      Some (CREDENTIAL_ENCRYPTION_KEY (e_settings E))"
    and "encrypt E v = Inr c"
  shows "decrypt E' c = Inr v"
  using assms by (auto simp: encrypt_def decrypt_versioned fernet_ok_def Let_def split: if_splits)

lemma decrypt_encrypt:
  assumes "fernet_ok E" and "can_encrypt E" and "encrypt E v = Inr c"
  shows "decrypt E c = Inr v"
  using assms by (intro decrypt_encrypt_under) (auto simp: can_encrypt_def)

text \<open>
  A concrete environment for the witnesses: the sample cipher prefixes the key, the sample ISO text
  is the instant and the offset in decimal.
\<close>

definition sample_fernet_encrypt :: "string \<Rightarrow> string \<Rightarrow> string" where
  "sample_fernet_encrypt k v = k @ v"

definition sample_fernet_decrypt :: "string \<Rightarrow> string \<Rightarrow> string option" where
  "sample_fernet_decrypt k c = (if starts_with c k then Some (drop (length k) c) else None)"

definition read_int :: "string \<Rightarrow> int" where
  "read_int s = (case s of [] \<Rightarrow> 0
     | c # cs \<Rightarrow> if c = CHR ''-'' then - int (nat_of_digits cs) else int (nat_of_digits s))"

definition sample_isoformat :: "datetime \<Rightarrow> string" where
  "sample_isoformat d = show_int (dt_instant d) @ '','' @
     (case dt_offset d of None \<Rightarrow> [] | Some off \<Rightarrow> show_int off)"

definition sample_fromisoformat :: "string \<Rightarrow> datetime option" where
  "sample_fromisoformat s = (case split_once (CHR '','') s of
     None \<Rightarrow> None
   | Some (a, b) \<Rightarrow> Some \<lparr>dt_instant = read_int a, dt_offset = (if b = [] then None else Some (read_int b))\<rparr>)"

definition sample_settings :: settings where
  "sample_settings = \<lparr>
     CREDENTIAL_ENCRYPTION_KEY = ''k'', CREDENTIAL_ENCRYPTION_KEY_VERSION = ''1'',
     CONVAY_TRUSTED_HOST_SUFFIXES = [''convay.com''],
     CONVAY_AUTH_PATH = ''/services/vcmeetingsettings/user/authenticate'',
     CONVAY_START_PATH = ''/services/vcmeetingsettings/api-user/start-meeting'',
     DEFAULT_PROVIDER_MEETING_TYPE = ''instant'',
     ROOM_BUFFER_BEFORE_MINUTES = 0, ROOM_BUFFER_AFTER_MINUTES = 0,
     GATEWAY_ACCESS_TOKEN_TTL_SECONDS = 3600, CONVAY_TOKEN_EXPIRY_SKEW_SECONDS = 300\<rparr>"

definition sample_env :: env where
  "sample_env = \<lparr>
     e_settings = sample_settings,
     e_fernet_key_ok = (\<lambda>k. k \<noteq> []),
     e_fernet_encrypt = sample_fernet_encrypt, e_fernet_decrypt = sample_fernet_decrypt,
     e_previous_keys = [], e_collate = (\<lambda>s. s),
     e_isoformat = sample_isoformat, e_fromisoformat = sample_fromisoformat,
     e_request_id = ''req'', e_ip = None\<rparr>"

lemma sample_fernet_roundtrip: "sample_fernet_decrypt k (sample_fernet_encrypt k v) = Some v"
  by (simp add: sample_fernet_decrypt_def sample_fernet_encrypt_def starts_with_def)

lemma show_int_no_comma: "CHR '','' \<notin> set (show_int i)"
  using show_nat_digits[of "nat i"] show_nat_digits[of "nat (- i)"]
  by (auto simp: show_int_def is_digit_def)

lemma read_int_show_int [simp]: "read_int (show_int i) = i"
proof -
  obtain c cs where c: "show_nat (nat i) = c # cs" by (cases "show_nat (nat i)") auto
  have "c \<noteq> CHR ''-''" using show_nat_head[of "nat i" "[]" c cs] c is_digit_neqs by simp
  moreover have "nat_of_digits (c # cs) = nat i" using nat_of_digits_show_nat[of "nat i"] c by simp
  ultimately show ?thesis using c by (simp add: read_int_def show_int_def)
qed

lemma show_int_not_Nil [simp]: "show_int i \<noteq> []"
  by (simp add: show_int_def)

lemma sample_env_ok:
  "fernet_ok sample_env" "isoformat_ok sample_env" "can_encrypt sample_env"
  "settings_ok (e_settings sample_env)"
proof -
  show "fernet_ok sample_env"
    by (simp add: fernet_ok_def sample_env_def sample_fernet_roundtrip)
  have "split_once (CHR '','') (sample_isoformat d) =
      Some (show_int (dt_instant d), case dt_offset d of None \<Rightarrow> [] | Some off \<Rightarrow> show_int off)" for d
    using split_once_append[OF show_int_no_comma] by (simp add: sample_isoformat_def)
  then have "sample_fromisoformat (sample_isoformat d) = Some d" if "\<not> is_naive d" for d
    using that by (cases d) (auto simp: sample_fromisoformat_def is_naive_def)
  then show "isoformat_ok sample_env"
    by (simp add: isoformat_ok_def sample_env_def sample_isoformat_def)
qed (simp_all add: can_encrypt_def settings_ok_def sample_env_def sample_settings_def)

text \<open>
  C36, a stored secret survives a key rotation: text encrypted under the configuration \<open>E\<close> still
  decrypts to itself under a later configuration \<open>E'\<close> of the same cipher with another key and key
  version, as long as the old version and key are listed among the previous keys; and what the new
  configuration itself encrypts decrypts as well.
\<close>

theorem rotated_secret_readable:
  assumes "fernet_ok E" and "can_encrypt E" and "can_encrypt E'"
    and "e_fernet_key_ok E' = e_fernet_key_ok E" and "e_fernet_decrypt E' = e_fernet_decrypt E"
    and "e_fernet_encrypt E' = e_fernet_encrypt E"
    and "CREDENTIAL_ENCRYPTION_KEY_VERSION (e_settings E') \<noteq> CREDENTIAL_ENCRYPTION_KEY_VERSION (e_settings E)"
    and "map_of (e_previous_keys E') (CREDENTIAL_ENCRYPTION_KEY_VERSION (e_settings E)) =
      Some (CREDENTIAL_ENCRYPTION_KEY (e_settings E))"
  shows "\<exists>c c'. encrypt E v = Inr c \<and> decrypt E' c = Inr v \<and>
    encrypt E' v = Inr c' \<and> decrypt E' c' = Inr v"
proof -
  obtain c c' where c: "encrypt E v = Inr c" "encrypt E' v = Inr c'"
    using encrypt_Inr assms(2,3) by blast
  have "decrypt E' c = Inr v"
    using assms c(1) by (intro decrypt_encrypt_under[of E]) (auto simp: can_encrypt_def)
  moreover have "fernet_ok E'"
    using assms by (simp add: fernet_ok_def)
  ultimately show ?thesis
    using c decrypt_encrypt[of E' v c'] assms(3) by blast
qed

definition rotated_env :: env where
  "rotated_env = sample_env\<lparr>
     e_settings := sample_settings\<lparr>CREDENTIAL_ENCRYPTION_KEY := ''n'', CREDENTIAL_ENCRYPTION_KEY_VERSION := ''2''\<rparr>,
     e_previous_keys := [(''1'', ''k'')]\<rparr>"

theorem rotated_secret_readable_witness:
  "\<exists>c c'. encrypt sample_env ''pw'' = Inr c \<and> decrypt rotated_env c = Inr ''pw'' \<and>
    encrypt rotated_env ''pw'' = Inr c' \<and> decrypt rotated_env c' = Inr ''pw''"
  by (rule rotated_secret_readable)
    (simp_all add: sample_env_ok, simp_all add: rotated_env_def sample_env_def sample_settings_def can_encrypt_def)

end
