(* ===== verification/Models.thy ===== *)
theory Models
  imports Encryption
begin

text \<open>
  The relational state (\<open>apps/*/models.py\<close> and the constraints the migrations install) and the audit
  writer. A row is a record with the model's columns, a table the list of its rows; \<open>save_meeting\<close>
  and \<open>insert_meeting\<close> are the statements PostgreSQL executes for \<open>Model.save()\<close>, with every CHECK,
  unique and exclusion constraint of the meeting table, so a violated constraint is an
  \<open>IntegrityError\<close> value and not an assumption.
\<close>

subsection \<open>Meetings\<close>

text \<open>
  \<open>Meeting.Status\<close>; the column is text, so a legacy row may hold a value outside the choices.
\<close>

datatype status =
    DRAFT
  | RESERVED
  | PROVISIONING
  | READY
  | LIVE
  | ENDED
  | CANCELLED
  | FAILED
  | RETRYABLE_FAILED
  | NON_RETRYABLE_FAILED
  | PROVIDER_RESPONSE_INVALID
  | PROVIDER_STATE_UNKNOWN
  | OTHER_STATUS string

fun status_text :: "status \<Rightarrow> string" where
  "status_text DRAFT = ''DRAFT''"
| "status_text RESERVED = ''RESERVED''"
| "status_text PROVISIONING = ''PROVISIONING''"
| "status_text READY = ''READY''"
| "status_text LIVE = ''LIVE''"
| "status_text ENDED = ''ENDED''"
| "status_text CANCELLED = ''CANCELLED''"
| "status_text FAILED = ''FAILED''"
| "status_text RETRYABLE_FAILED = ''RETRYABLE_FAILED''"
| "status_text NON_RETRYABLE_FAILED = ''NON_RETRYABLE_FAILED''"
| "status_text PROVIDER_RESPONSE_INVALID = ''PROVIDER_RESPONSE_INVALID''"
| "status_text PROVIDER_STATE_UNKNOWN = ''PROVIDER_STATE_UNKNOWN''"
| "status_text (OTHER_STATUS s) = s"

type_synonym time_range = "int \<times> int"

record meeting =
  m_id :: uuid
  m_integration_client :: uuid
  m_external_class_id :: string
  m_teacher_id :: string
  m_teacher_name :: string
  m_subject_id :: string
  m_subject_name :: string
  m_batch_id :: string
  m_batch_name :: string
  m_meeting_title :: string
  m_class_date :: int
  m_schedule_type :: string
  m_start_at :: "int option"
  m_end_at :: "int option"
  m_room :: "uuid option"
  m_reservation :: "time_range option"
  m_reservation_active :: bool
  m_provider :: string
  m_provider_meeting_type :: string
  m_provision_strategy :: string
  m_provider_calendar_id :: "string option"
  m_provider_unique_id :: "string option"
  m_provider_panel_address :: "string option"
  m_encrypted_provider_start_url :: "string option"
  m_encrypted_provider_payload :: "string option"
  m_status :: status
  m_provider_created_at :: "int option"
  m_last_provider_error :: "string option"
  m_created_at :: int
  m_updated_at :: int
  m_cancelled_at :: "int option"

subsection \<open>Rooms, presets, clients, audit records\<close>

record room =
  r_id :: uuid
  r_public_id :: string
  r_name :: string
  r_username :: string
  r_encrypted_password :: string
  r_credential_version :: nat
  r_is_active :: bool
  r_priority :: int
  r_max_concurrent_bookings :: int
  r_provider_active_meeting_limit :: "int option"
  r_default_meeting_config :: json
  r_last_auth_at :: "int option"
  r_last_auth_success :: "bool option"
  r_last_error :: string
  r_created_at :: int
  r_updated_at :: int

record preset =
  p_id :: int
  p_name :: string
  p_payload :: json
  p_is_system_default :: bool

record client =
  c_id :: uuid
  c_name :: string
  c_client_id :: uuid
  c_secret_hash :: string
  c_token_version :: uuid
  c_is_active :: bool
  c_scopes :: "string list"
  c_ip_allowlist :: "json list"
  c_default_preset :: "int option"
  c_last_used_at :: "int option"
  c_created_at :: int
  c_updated_at :: int

record audit_log =
  al_actor_type :: string
  al_admin_user :: "int option"
  al_integration_client :: "uuid option"
  al_action :: string
  al_object_type :: string
  al_object_id :: string
  al_request_id :: string
  al_ip :: "string option"
  al_timestamp :: int
  al_metadata :: json

record db =
  db_rooms :: "room list"
  db_presets :: "preset list"
  db_clients :: "client list"
  db_meetings :: "meeting list"
  db_audit :: "audit_log list"

abbreviation set_meetings :: "meeting list \<Rightarrow> db \<Rightarrow> db" where
  "set_meetings ms d \<equiv> d\<lparr>db_meetings := ms\<rparr>"

abbreviation set_rooms :: "room list \<Rightarrow> db \<Rightarrow> db" where
  "set_rooms rs d \<equiv> d\<lparr>db_rooms := rs\<rparr>"

abbreviation set_clients :: "client list \<Rightarrow> db \<Rightarrow> db" where
  "set_clients cs d \<equiv> d\<lparr>db_clients := cs\<rparr>"

abbreviation get_meeting :: "uuid \<Rightarrow> db \<Rightarrow> meeting option" where
  "get_meeting \<equiv> fetch db_meetings m_id"

abbreviation get_room :: "uuid \<Rightarrow> db \<Rightarrow> room option" where
  "get_room \<equiv> fetch db_rooms r_id"

abbreviation get_client :: "uuid \<Rightarrow> db \<Rightarrow> client option" where
  "get_client \<equiv> fetch db_clients c_id"

interpretation meeting_tbl: keyed_table db_meetings set_meetings m_id
  by unfold_locales simp_all

interpretation room_tbl: keyed_table db_rooms set_rooms r_id
  by unfold_locales simp_all

interpretation client_tbl: keyed_table db_clients set_clients c_id
  by unfold_locales simp_all

subsection \<open>The audit writer\<close>

text \<open>
  \<open>apps/audit/services.py\<close>: one appended record per call; the metadata carries only the error
  code, the upstream status and the ambiguity flag of a provider error. The record's random id is
  left out.
\<close>

definition audit_metadata :: "provider_error option \<Rightarrow> json" where
  "audit_metadata perr = (case perr of
     None \<Rightarrow> JObj []
   | Some e \<Rightarrow> JObj
       [(''provider_error_code'', JStr (pe_code e)),
        (''upstream_status_code'', case pe_status_code e of None \<Rightarrow> JNull | Some n \<Rightarrow> JInt n),
        (''outcome_unknown'', JBool (pe_ambiguous e))])"

text \<open>\<open>str(uuid)\<close>\<close>

fun hex_digits :: "nat \<Rightarrow> nat \<Rightarrow> string" where
  "hex_digits 0 n = []"
| "hex_digits (Suc k) n = hex_digits k (n div 16) @ [hex_char (n mod 16)]"

definition show_uuid :: "uuid \<Rightarrow> string" where
  "show_uuid u = (case u of UUID w \<Rightarrow>
     let h = hex_digits 32 (unat w) in
       take 8 h @ ''-'' @ take 4 (drop 8 h) @ ''-'' @ take 4 (drop 12 h) @ ''-'' @
       take 4 (drop 16 h) @ ''-'' @ drop 20 h)"

definition audit_record ::
    "env \<Rightarrow> int \<Rightarrow> string \<Rightarrow> string \<Rightarrow> string \<Rightarrow> uuid option \<Rightarrow> int option \<Rightarrow> provider_error option \<Rightarrow> db \<Rightarrow> db" where
  "audit_record E now action label obj_id client admin perr d =
     d\<lparr>db_audit := db_audit d @
       [\<lparr>al_actor_type = (if admin \<noteq> None then ''ADMIN'' else if client \<noteq> None then ''CLIENT'' else ''SYSTEM''),
         al_admin_user = admin, al_integration_client = client, al_action = action,
         al_object_type = label, al_object_id = obj_id, al_request_id = e_request_id E, al_ip = e_ip E,
         al_timestamp = now, al_metadata = audit_metadata perr\<rparr>]\<rparr>"

text \<open>All objects but presets have a UUID as key.\<close>

definition audit ::
    "env \<Rightarrow> int \<Rightarrow> string \<Rightarrow> string \<Rightarrow> uuid \<Rightarrow> uuid option \<Rightarrow> int option \<Rightarrow> provider_error option \<Rightarrow> db \<Rightarrow> db" where
  "audit E now action label obj = audit_record E now action label (show_uuid obj)"

definition audit_meeting :: "env \<Rightarrow> int \<Rightarrow> string \<Rightarrow> meeting \<Rightarrow> db \<Rightarrow> db" where
  "audit_meeting E now action m d =
     audit E now action ''meetings.Meeting'' (m_id m) (Some (m_integration_client m)) None None d"

lemma audit_frame [simp]:
  "db_meetings (audit E now a l ob c ad p d) = db_meetings d"
  "db_rooms (audit E now a l ob c ad p d) = db_rooms d"
  "db_clients (audit E now a l ob c ad p d) = db_clients d"
  "db_presets (audit E now a l ob c ad p d) = db_presets d"
  by (simp_all add: audit_def audit_record_def)

lemma audit_meeting_frame [simp]:
  "db_meetings (audit_meeting E now a m d) = db_meetings d"
  "db_rooms (audit_meeting E now a m d) = db_rooms d"
  "db_clients (audit_meeting E now a m d) = db_clients d"
  "db_presets (audit_meeting E now a m d) = db_presets d"
  by (simp_all add: audit_meeting_def)

subsection \<open>Constraints of the meeting table\<close>

text \<open>\<open>varchar(n)\<close> and \<open>text\<close> columns: no NUL character, no more than \<open>n\<close> characters.\<close>

definition text_fits :: "nat option \<Rightarrow> string \<Rightarrow> bool" where
  "text_fits limit s \<longleftrightarrow>
     CHR 0x00 \<notin> set s \<and> (case limit of None \<Rightarrow> True | Some n \<Rightarrow> length s \<le> n)"

definition opt_fits :: "nat option \<Rightarrow> string option \<Rightarrow> bool" where
  "opt_fits limit v \<longleftrightarrow> (case v of None \<Rightarrow> True | Some s \<Rightarrow> text_fits limit s)"

definition meeting_text_ok :: "meeting \<Rightarrow> bool" where
  "meeting_text_ok m \<longleftrightarrow>
     text_fits (Some 160) (m_external_class_id m) \<and> text_fits (Some 160) (m_teacher_id m) \<and>
     text_fits (Some 200) (m_teacher_name m) \<and> text_fits (Some 160) (m_subject_id m) \<and>
     text_fits (Some 200) (m_subject_name m) \<and> text_fits (Some 160) (m_batch_id m) \<and>
     text_fits (Some 200) (m_batch_name m) \<and> text_fits (Some 250) (m_meeting_title m) \<and>
     text_fits (Some 16) (m_schedule_type m) \<and> text_fits (Some 16) (m_provider m) \<and>
     text_fits (Some 16) (m_provider_meeting_type m) \<and> text_fits (Some 16) (m_provision_strategy m) \<and>
     opt_fits (Some 200) (m_provider_calendar_id m) \<and> opt_fits (Some 200) (m_provider_unique_id m) \<and>
     opt_fits (Some 2000) (m_provider_panel_address m) \<and>
     opt_fits None (m_encrypted_provider_start_url m) \<and> opt_fits None (m_encrypted_provider_payload m) \<and>
     text_fits (Some 32) (status_text (m_status m)) \<and> opt_fits (Some 100) (m_last_provider_error m)"

text \<open>
  The CHECK constraints, with SQL's rule that a condition that evaluates to NULL passes:
  \<open>active_reservation_complete\<close>, \<open>positive_meeting_interval\<close> and the raw-SQL
  \<open>reservation_range_valid\<close> of migration 0002.
\<close>

definition active_reservation_complete :: "meeting \<Rightarrow> bool" where
  "active_reservation_complete m \<longleftrightarrow>
     \<not> m_reservation_active m \<or>
     m_room m \<noteq> None \<and> m_reservation m \<noteq> None \<and> m_start_at m \<noteq> None \<and> m_end_at m \<noteq> None"

definition positive_meeting_interval :: "meeting \<Rightarrow> bool" where
  "positive_meeting_interval m \<longleftrightarrow>
     (case (m_start_at m, m_end_at m) of (Some s, Some e) \<Rightarrow> e > s | _ \<Rightarrow> True)"

definition reservation_range_valid :: "meeting \<Rightarrow> bool" where
  "reservation_range_valid m \<longleftrightarrow>
     \<not> m_reservation_active m \<or>
     (case (m_reservation m, m_start_at m, m_end_at m) of
        (Some (lo, hi), Some s, Some e) \<Rightarrow> lo < hi \<and> lo \<le> s \<and> hi \<ge> e
      | _ \<Rightarrow> True)"

definition meeting_checks :: "meeting \<Rightarrow> bool" where
  "meeting_checks m \<longleftrightarrow>
     active_reservation_complete m \<and> positive_meeting_interval m \<and> reservation_range_valid m"

text \<open>\<open>tstzrange\<close> overlap \<open>&&\<close> of two half-open ranges (an empty one overlaps nothing).\<close>

definition range_overlap :: "time_range \<Rightarrow> time_range \<Rightarrow> bool" where
  "range_overlap a b \<longleftrightarrow> fst a < snd a \<and> fst b < snd b \<and> fst a < snd b \<and> fst b < snd a"

definition opt_overlap :: "time_range option \<Rightarrow> time_range option \<Rightarrow> bool" where
  "opt_overlap a b \<longleftrightarrow> (case (a, b) of (Some x, Some y) \<Rightarrow> range_overlap x y | _ \<Rightarrow> False)"

text \<open>\<open>unique_client_external_class\<close> and \<open>exclude_overlapping_room_reservations\<close>, as relations between two rows.\<close>

definition same_class :: "meeting \<Rightarrow> meeting \<Rightarrow> bool" where
  "same_class a b \<longleftrightarrow>
     m_integration_client a = m_integration_client b \<and> m_external_class_id a = m_external_class_id b"

definition room_conflict :: "meeting \<Rightarrow> meeting \<Rightarrow> bool" where
  "room_conflict a b \<longleftrightarrow>
     m_reservation_active a \<and> m_reservation_active b \<and>
     m_room a \<noteq> None \<and> m_room a = m_room b \<and> opt_overlap (m_reservation a) (m_reservation b)"

definition others :: "meeting \<Rightarrow> db \<Rightarrow> meeting list" where
  "others m d = filter (\<lambda>x. m_id x \<noteq> m_id m) (db_meetings d)"

definition meeting_violation :: "meeting \<Rightarrow> db \<Rightarrow> exn option" where
  "meeting_violation m d =
     (if \<not> meeting_text_ok m then Some DataError
      else if \<not> meeting_checks m then Some (IntegrityError ''23514'')
      else if list_ex (same_class m) (others m d) then Some (IntegrityError ''23505'')
      else if list_ex (room_conflict m) (others m d) then Some (IntegrityError ''23P01'')
      else None)"

text \<open>
  \<open>meeting.save()\<close> of an existing row: \<open>updated_at\<close> is set, the constraints are checked, the row
  is replaced; the instance as written comes back with the new state.
\<close>

definition save_meeting :: "int \<Rightarrow> meeting \<Rightarrow> db \<Rightarrow> exn + (meeting \<times> db)" where
  "save_meeting now m d =
     (let m' = m\<lparr>m_updated_at := now\<rparr> in
      case meeting_violation m' d of
        Some x \<Rightarrow> Inl x
      | None \<Rightarrow> Inr (m', store db_meetings set_meetings m_id m' d))"

definition insert_meeting :: "int \<Rightarrow> meeting \<Rightarrow> db \<Rightarrow> exn + (meeting \<times> db)" where
  "insert_meeting now m d =
     (let m' = m\<lparr>m_created_at := now, m_updated_at := now\<rparr> in
      if get_meeting (m_id m) d \<noteq> None then Inl (IntegrityError ''23505'')
      else case meeting_violation m' d of
        Some x \<Rightarrow> Inl x
      | None \<Rightarrow> Inr (m', d\<lparr>db_meetings := db_meetings d @ [m']\<rparr>))"

subsection \<open>Well-formed databases\<close>

text \<open>
  What the constraints make true of the meeting table at every moment, and the rest of the schema:
  primary keys, unique public room ids, \<open>single_booking_per_room\<close>, \<open>positive_provider_limit\<close> and
  the foreign keys of the meeting table.
\<close>

definition meetings_wf :: "db \<Rightarrow> bool" where
  "meetings_wf d \<longleftrightarrow>
     distinct (map m_id (db_meetings d)) \<and>
     (\<forall>m \<in> set (db_meetings d). meeting_text_ok m \<and> meeting_checks m) \<and>
     (\<forall>a \<in> set (db_meetings d). \<forall>b \<in> set (db_meetings d).
        m_id a \<noteq> m_id b \<longrightarrow> \<not> same_class a b \<and> \<not> room_conflict a b)"

definition room_row_ok :: "room \<Rightarrow> bool" where
  "room_row_ok r \<longleftrightarrow> r_max_concurrent_bookings r = 1 \<and>
     (case r_provider_active_meeting_limit r of None \<Rightarrow> True | Some n \<Rightarrow> n > 0)"

definition rooms_wf :: "db \<Rightarrow> bool" where
  "rooms_wf d \<longleftrightarrow> distinct (map r_id (db_rooms d)) \<and> distinct (map r_public_id (db_rooms d)) \<and>
     (\<forall>r \<in> set (db_rooms d). room_row_ok r)"

definition refs_wf :: "db \<Rightarrow> bool" where
  "refs_wf d \<longleftrightarrow> (\<forall>m \<in> set (db_meetings d).
     get_client (m_integration_client m) d \<noteq> None \<and>
     (\<forall>r. m_room m = Some r \<longrightarrow> get_room r d \<noteq> None))"

definition clients_wf :: "db \<Rightarrow> bool" where
  "clients_wf d \<longleftrightarrow> distinct (map c_id (db_clients d)) \<and>
     length (filter p_is_system_default (db_presets d)) \<le> 1 \<and>
     (\<forall>c \<in> set (db_clients d). \<forall>k. c_default_preset c = Some k \<longrightarrow> row_get p_id k (db_presets d) \<noteq> None)"

definition db_wf :: "db \<Rightarrow> bool" where
  "db_wf d \<longleftrightarrow> meetings_wf d \<and> rooms_wf d \<and> refs_wf d \<and> clients_wf d"

text \<open>The schema's guarantee in one relation: no two rows hold overlapping active reservations of one room.\<close>

definition no_double_booking :: "db \<Rightarrow> bool" where
  "no_double_booking d \<longleftrightarrow>
     (\<forall>a \<in> set (db_meetings d). \<forall>b \<in> set (db_meetings d). m_id a \<noteq> m_id b \<longrightarrow> \<not> room_conflict a b)"

lemma meetings_wf_no_double_booking: "meetings_wf d \<Longrightarrow> no_double_booking d"
  by (auto simp: meetings_wf_def no_double_booking_def)

lemma range_overlap_sym: "range_overlap a b \<longleftrightarrow> range_overlap b a"
  by (auto simp: range_overlap_def)

lemma opt_overlap_sym: "opt_overlap a b \<longleftrightarrow> opt_overlap b a"
  by (cases a; cases b) (auto simp: opt_overlap_def range_overlap_sym)

lemma same_class_sym: "same_class a b \<longleftrightarrow> same_class b a"
  by (auto simp: same_class_def)

lemma room_conflict_sym: "room_conflict a b \<longleftrightarrow> room_conflict b a"
  by (auto simp: room_conflict_def opt_overlap_sym)

lemma meeting_violation_None_iff:
  "meeting_violation m d = None \<longleftrightarrow>
     meeting_text_ok m \<and> meeting_checks m \<and>
     (\<forall>x \<in> set (db_meetings d). m_id x \<noteq> m_id m \<longrightarrow> \<not> same_class m x \<and> \<not> room_conflict m x)"
  by (auto simp: meeting_violation_def list_ex_iff others_def)

lemma meeting_violation_cong:
  "db_meetings d = db_meetings d' \<Longrightarrow> meeting_violation m d = meeting_violation m d'"
  by (simp add: meeting_violation_def others_def)

lemma save_meetingD:
  assumes "save_meeting now m d = Inr (m', d')"
  shows "m' = m\<lparr>m_updated_at := now\<rparr>" and "d' = store db_meetings set_meetings m_id m' d"
    and "meeting_violation m' d = None"
  using assms by (auto simp: save_meeting_def Let_def split: option.splits)

lemma store_meeting_frame [simp]:
  "db_rooms (store db_meetings set_meetings m_id m d) = db_rooms d"
  "db_clients (store db_meetings set_meetings m_id m d) = db_clients d"
  "db_presets (store db_meetings set_meetings m_id m d) = db_presets d"
  "db_audit (store db_meetings set_meetings m_id m d) = db_audit d"
  by (simp_all add: store_def)

lemma save_meeting_frame:
  assumes "save_meeting now m d = Inr (m', d')"
  shows "db_rooms d' = db_rooms d" "db_clients d' = db_clients d" "db_presets d' = db_presets d"
    "db_audit d' = db_audit d" "db_meetings d' = row_put m_id m' (db_meetings d)"
    "map m_id (db_meetings d') = map m_id (db_meetings d)"
  unfolding save_meetingD(2)[OF assms] by (simp_all add: meeting_tbl.rows_of_store)

lemma save_meeting_get:
  assumes "save_meeting now m d = Inr (m', d')" and "get_meeting (m_id m) d \<noteq> None"
  shows "get_meeting (m_id m) d' = Some m'"
  using save_meetingD[OF assms(1)] meeting_tbl.fetch_store_same[of m' d] assms(2) by simp

lemma save_meeting_get_other:
  assumes "save_meeting now m d = Inr (m', d')" and "k \<noteq> m_id m"
  shows "get_meeting k d' = get_meeting k d"
  using save_meetingD[OF assms(1)] meeting_tbl.fetch_store_other[of k m' d] assms(2) by simp

lemma save_meeting_wf:
  assumes wf: "meetings_wf d" and s: "save_meeting now m d = Inr (m', d')"
  shows "meetings_wf d'"
proof -
  note f = save_meetingD[OF s]
  have rows: "x = m' \<or> x \<in> set (db_meetings d) \<and> m_id x \<noteq> m_id m'"
    if "x \<in> set (db_meetings d')" for x
    using that by (auto simp: f(2) meeting_tbl.rows_of_store dest: set_row_put_subset')
  have new: "meeting_text_ok m'" "meeting_checks m'"
    "\<And>x. x \<in> set (db_meetings d) \<Longrightarrow> m_id x \<noteq> m_id m' \<Longrightarrow> \<not> same_class m' x \<and> \<not> room_conflict m' x"
    using f(3) by (auto simp: meeting_violation_None_iff)
  have "distinct (map m_id (db_meetings d'))"
    using wf save_meeting_frame(6)[OF s] by (simp add: meetings_wf_def)
  moreover have "meeting_text_ok x \<and> meeting_checks x" if "x \<in> set (db_meetings d')" for x
    using rows[OF that] new wf by (auto simp: meetings_wf_def)
  moreover have "\<not> same_class a b \<and> \<not> room_conflict a b"
    if "a \<in> set (db_meetings d')" "b \<in> set (db_meetings d')" "m_id a \<noteq> m_id b" for a b
    using rows[OF that(1)] rows[OF that(2)] that(3) new(3) wf same_class_sym room_conflict_sym
    unfolding meetings_wf_def by metis
  ultimately show ?thesis by (simp add: meetings_wf_def)
qed

lemma insert_meetingD:
  assumes "insert_meeting now m d = Inr (m', d')"
  shows "m' = m\<lparr>m_created_at := now, m_updated_at := now\<rparr>"
    and "d' = d\<lparr>db_meetings := db_meetings d @ [m']\<rparr>"
    and "meeting_violation m' d = None" and "get_meeting (m_id m) d = None"
  using assms by (auto simp: insert_meeting_def Let_def split: option.splits if_splits)

lemma insert_meeting_wf:
  assumes wf: "meetings_wf d" and i: "insert_meeting now m d = Inr (m', d')"
  shows "meetings_wf d'"
proof -
  note f = insert_meetingD[OF i]
  have id: "m_id m' = m_id m" by (simp add: f(1))
  have fresh: "m_id m' \<notin> m_id ` set (db_meetings d)"
    using f(4) by (auto simp: id fetch_def row_get_None_iff)
  have new: "meeting_text_ok m'" "meeting_checks m'"
    "\<And>x. x \<in> set (db_meetings d) \<Longrightarrow> m_id x \<noteq> m_id m' \<Longrightarrow> \<not> same_class m' x \<and> \<not> room_conflict m' x"
    using f(3) by (auto simp: meeting_violation_None_iff)
  have "\<not> same_class a b \<and> \<not> room_conflict a b"
    if "a \<in> set (db_meetings d')" "b \<in> set (db_meetings d')" "m_id a \<noteq> m_id b" for a b
    using that new(3) wf same_class_sym room_conflict_sym
    unfolding f(2) meetings_wf_def by auto
  then show ?thesis
    using wf fresh new(1,2) by (auto simp: meetings_wf_def f(2))
qed

text \<open>
  A save that leaves the row's identity alone and claims no new reservation cannot violate a
  constraint between rows.
\<close>

lemma save_meeting_succeeds:
  assumes wf: "meetings_wf d" and old: "get_meeting (m_id m) d = Some m0"
    and tx: "meeting_text_ok m" and chk: "meeting_checks m" and cls: "same_class m m0"
    and res: "m_reservation_active m \<Longrightarrow>
      m_reservation_active m0 \<and> m_room m = m_room m0 \<and> m_reservation m = m_reservation m0"
  shows "save_meeting now m d =
    Inr (m\<lparr>m_updated_at := now\<rparr>, store db_meetings set_meetings m_id (m\<lparr>m_updated_at := now\<rparr>) d)"
proof -
  have m0: "m0 \<in> set (db_meetings d)" "m_id m0 = m_id m"
    using old by (auto dest: meeting_tbl.fetch_mem meeting_tbl.fetch_keyD)
  have "\<not> same_class m x \<and> \<not> room_conflict m x" if x: "x \<in> set (db_meetings d)" "m_id x \<noteq> m_id m" for x
  proof -
    from wf m0 x have "\<not> same_class m0 x" "\<not> room_conflict m0 x"
      by (auto simp: meetings_wf_def)
    then show ?thesis using cls res by (auto simp: same_class_def room_conflict_def)
  qed
  moreover have "meeting_text_ok (m\<lparr>m_updated_at := now\<rparr>)" "meeting_checks (m\<lparr>m_updated_at := now\<rparr>)"
    using tx chk
    by (simp_all add: meeting_text_ok_def meeting_checks_def active_reservation_complete_def
        positive_meeting_interval_def reservation_range_valid_def)
  ultimately have "meeting_violation (m\<lparr>m_updated_at := now\<rparr>) d = None"
    by (simp add: meeting_violation_None_iff same_class_def room_conflict_def)
  then show ?thesis by (simp add: save_meeting_def Let_def)
qed

lemma fetch_cong: "rows_of d = rows_of d' \<Longrightarrow> fetch rows_of key k d = fetch rows_of key k d'"
  by (simp add: fetch_def)

lemma wf_cong:
  assumes "db_meetings d' = db_meetings d" "db_rooms d' = db_rooms d" "db_clients d' = db_clients d"
    "db_presets d' = db_presets d"
  shows "meetings_wf d' = meetings_wf d" "rooms_wf d' = rooms_wf d" "refs_wf d' = refs_wf d"
    "db_wf d' = db_wf d"
  using assms
  by (simp_all add: meetings_wf_def rooms_wf_def refs_wf_def clients_wf_def db_wf_def fetch_def)

lemma audit_wf [simp]:
  "db_wf (audit E now a l ob c ad p d) = db_wf d"
  "db_wf (audit_meeting E now a m d) = db_wf d"
  by (rule wf_cong(4); simp)+

lemma save_meeting_db_wf:
  assumes wf: "db_wf d" and s: "save_meeting now m d = Inr (m', d')"
    and refs: "get_client (m_integration_client m) d \<noteq> None"
      "\<And>r. m_room m = Some r \<Longrightarrow> get_room r d \<noteq> None"
  shows "db_wf d'"
proof -
  note f = save_meeting_frame[OF s] and m' = save_meetingD(1)[OF s]
  have "get_client (m_integration_client x) d \<noteq> None \<and>
      (\<forall>r. m_room x = Some r \<longrightarrow> get_room r d \<noteq> None)"
    if "x \<in> set (db_meetings d')" for x
  proof (cases "x = m'")
    case True
    then show ?thesis using refs by (auto simp: m')
  next
    case False
    with that have "x \<in> set (db_meetings d)" by (auto simp: f(5) dest: set_row_put_subset')
    then show ?thesis using wf by (simp add: db_wf_def refs_wf_def)
  qed
  then have "refs_wf d'" by (simp add: refs_wf_def fetch_def f)
  moreover have "rooms_wf d'" "clients_wf d'" using wf by (simp_all add: db_wf_def rooms_wf_def clients_wf_def f)
  ultimately show ?thesis using wf save_meeting_wf[OF _ s] by (simp add: db_wf_def)
qed

end
