(* ===== verification/Samples.thy ===== *)
theory Samples
  imports Models
begin

text \<open>
  Concrete data for the witnesses: two rooms, a system preset, one client, a draft, a ready meeting
  with an active reservation and a meeting whose creation failed retryably. Times are microseconds
  after 1970; one class lasts an hour.
\<close>

definition hour_us :: int where "hour_us = 3600000000"

definition sample_room_a :: room where
  "sample_room_a = \<lparr>r_id = UUID 11, r_public_id = ''room-a'', r_name = ''A'', r_username = ''a@x.org'',
     r_encrypted_password = ''1:kpw'', r_credential_version = 1, r_is_active = True, r_priority = 20,
     r_max_concurrent_bookings = 1, r_provider_active_meeting_limit = None,
     r_default_meeting_config = JObj [(''config'', JObj [(''CAMERA_OFF'', JBool True)])],
     r_last_auth_at = None, r_last_auth_success = None, r_last_error = [],
     r_created_at = 0, r_updated_at = 0\<rparr>"

definition sample_room_b :: room where
  "sample_room_b = sample_room_a\<lparr>r_id := UUID 12, r_public_id := ''room-b'', r_username := ''b@x.org'',
     r_priority := 10, r_provider_active_meeting_limit := Some 2\<rparr>"

definition sample_preset :: preset where
  "sample_preset = \<lparr>p_id = 1, p_name = ''system'',
     p_payload = JObj [(''bigMeeting'', JBool False), (''config'', JObj [(''MIC_OFF'', JBool True)])],
     p_is_system_default = True\<rparr>"

definition sample_client :: client where
  "sample_client = \<lparr>c_id = UUID 21, c_name = ''lms'', c_client_id = UUID 22, c_secret_hash = ''h'',
     c_token_version = UUID 23, c_is_active = True,
     c_scopes = [''meeting:read'', ''meeting:write''], c_ip_allowlist = [],
     c_default_preset = None, c_last_used_at = None, c_created_at = 0, c_updated_at = 0\<rparr>"

definition sample_draft :: meeting where
  "sample_draft = \<lparr>m_id = UUID 31, m_integration_client = UUID 21, m_external_class_id = ''c1'',
     m_teacher_id = ''t'', m_teacher_name = ''T'', m_subject_id = [], m_subject_name = [],
     m_batch_id = ''b'', m_batch_name = ''B'', m_meeting_title = ''Maths'', m_class_date = 0,
     m_schedule_type = ''SCHEDULED'', m_start_at = None, m_end_at = None, m_room = None,
     m_reservation = None, m_reservation_active = False, m_provider = ''CONVAY'',
     m_provider_meeting_type = ''INSTANT'', m_provision_strategy = ''IMMEDIATE'',
     m_provider_calendar_id = None, m_provider_unique_id = None, m_provider_panel_address = None,
     m_encrypted_provider_start_url = None, m_encrypted_provider_payload = None, m_status = DRAFT,
     m_provider_created_at = None, m_last_provider_error = None, m_created_at = 0, m_updated_at = 0,
     m_cancelled_at = None\<rparr>"

definition sample_ready :: meeting where
  "sample_ready = sample_draft\<lparr>m_id := UUID 32, m_external_class_id := ''c2'',
     m_start_at := Some hour_us, m_end_at := Some (2 * hour_us), m_room := Some (UUID 12),
     m_reservation := Some (hour_us, 2 * hour_us), m_reservation_active := True, m_status := READY,
     m_provider_calendar_id := Some ''cal-9'', m_provider_panel_address := Some ''p''\<rparr>"

definition sample_failed :: meeting where
  "sample_failed = sample_draft\<lparr>m_id := UUID 33, m_external_class_id := ''c3'',
     m_start_at := Some (5 * hour_us), m_end_at := Some (6 * hour_us), m_room := Some (UUID 11),
     m_reservation := Some (5 * hour_us, 6 * hour_us), m_reservation_active := True,
     m_status := RETRYABLE_FAILED, m_last_provider_error := Some ''PROVIDER_UNAVAILABLE''\<rparr>"

definition sample_db :: db where
  "sample_db = \<lparr>db_rooms = [sample_room_a, sample_room_b], db_presets = [sample_preset],
     db_clients = [sample_client], db_meetings = [sample_draft, sample_ready, sample_failed],
     db_audit = []\<rparr>"

lemmas sample_rows = sample_room_a_def sample_room_b_def sample_preset_def sample_client_def
  sample_draft_def sample_ready_def sample_failed_def sample_db_def

lemma sample_db_meetings_wf: "meetings_wf sample_db"
  by (simp add: meetings_wf_def sample_rows meeting_text_ok_def text_fits_def opt_fits_def
      meeting_checks_def active_reservation_complete_def positive_meeting_interval_def
      reservation_range_valid_def same_class_def room_conflict_def opt_overlap_def
      range_overlap_def hour_us_def)

lemma sample_db_wf [simp]: "db_wf sample_db"
proof -
  have "rooms_wf sample_db" "refs_wf sample_db" "clients_wf sample_db"
    by (simp_all add: rooms_wf_def room_row_ok_def refs_wf_def clients_wf_def sample_rows fetch_def)
  then show ?thesis using sample_db_meetings_wf by (simp add: db_wf_def)
qed

lemma sample_settings_ok [simp]: "settings_ok (e_settings sample_env)"
  by (rule sample_env_ok(4))

end
