(* ===== verification/Configuration.thy ===== *)
theory Configuration
  imports Samples
begin

text \<open>
  \<open>apps/rooms/configuration.py\<close>: the validator of provider payload presets and the merge of the
  system, client and room layers into one provider configuration. The lemmas show that a resolved
  configuration is always valid, which layer wins for every key, and when resolution fails.
\<close>

definition BOOLEAN_CONFIG_FIELDS :: "string list" where
  "BOOLEAN_CONFIG_FIELDS =
    [''MIC_OFF'', ''CAMERA_OFF'', ''PASSWORD'', ''AUTH_USER'', ''ALLOW_COUNTRY'', ''HOST_SCR_SHR'',
     ''HOST_RECORD_STARTUP'', ''PRTCPNTS_CHAT_CTRL'', ''HIDE_REQ_TO_TALK'', ''PRTCPNTS_RCTN_ENABLED'',
     ''PRTCPNTS_POLL_ENABLED'', ''WAITING_ROOM'', ''PRTCPNTS_SETTINGS_ENABLED'', ''PRTCPNTS_AUD_ENABLED'',
     ''PRTCPNTS_VDO_ENABLED'', ''DIS_CHAT_WBNR'', ''DIS_WANT_TO_TALK_WBNR'']"

definition ENUM_CONFIG_FIELDS :: "(string \<times> string list) list" where
  "ENUM_CONFIG_FIELDS =
    [(''PRTCPNTS_LIST'', [''host'', ''all'']),
     (''REJOIN_POPUP'', [''host'', ''all'', ''none'']),
     (''SHR_OVERLAY'', [''host'', ''all'', ''none''])]"

definition BOOLEAN_TOP_LEVEL_FIELDS :: "string list" where
  "BOOLEAN_TOP_LEVEL_FIELDS = [''preDefineHostEnabled'', ''uniqueParticipantJoin'', ''bigMeeting'']"

fun join :: "string \<Rightarrow> string list \<Rightarrow> string" where
  "join sep [] = []"
| "join sep [x] = x"
| "join sep (x # y # xs) = x @ sep @ join sep (y # xs)"

definition validate_boolean :: "string \<Rightarrow> json \<Rightarrow> exn + unit" where
  "validate_boolean field v = (case v of
     JBool _ \<Rightarrow> Inr ()
   | _ \<Rightarrow> Inl (ValidationError (''Invalid value for '' @ field @ ''. Expected a Boolean.'')))"

definition validate_enum :: "string \<Rightarrow> json \<Rightarrow> string list \<Rightarrow> exn + unit" where
  "validate_enum field v allowed =
     (let bad = Inl (ValidationError
          (''Invalid value for '' @ field @ ''. Allowed values: '' @ join '', '' allowed @ ''.''))
      in case v of JStr s \<Rightarrow> if s \<in> set allowed then Inr () else bad | _ \<Rightarrow> bad)"

definition validate_setting :: "string \<times> json \<Rightarrow> exn + unit" where
  "validate_setting kv = (case kv of (field, v) \<Rightarrow>
     if field \<in> set BOOLEAN_CONFIG_FIELDS then validate_boolean field v
     else (case map_of ENUM_CONFIG_FIELDS field of
         Some allowed \<Rightarrow> validate_enum field v allowed
       | None \<Rightarrow> Inl (ValidationError (''Unsupported configuration setting: '' @ field @ ''.''))))"

definition validate_entry :: "string \<times> json \<Rightarrow> exn + unit" where
  "validate_entry kv = (case kv of (key, v) \<Rightarrow>
     if key = ''meetingType'' then validate_enum key v [''instant'', ''scheduled'']
     else if key \<in> set BOOLEAN_TOP_LEVEL_FIELDS then validate_boolean key v
     else if key = ''config'' then
       (case v of
          JObj settings \<Rightarrow> check_all validate_setting settings
        | _ \<Rightarrow> Inl (ValidationError ''config must be an object.''))
     else Inl (ValidationError (''Unsupported preset field: '' @ key @ ''.'')))"

definition validate_config :: "json \<Rightarrow> exn + unit" where
  "validate_config v = (case v of
     JObj entries \<Rightarrow> check_all validate_entry entries
   | _ \<Rightarrow> Inl (ValidationError ''Configuration must be an object.''))"

text \<open>\<open>x or {}\<close>: every falsy JSON value becomes the empty dictionary.\<close>

definition json_falsy :: "json \<Rightarrow> bool" where
  "json_falsy v \<longleftrightarrow> (case v of
     JNull \<Rightarrow> True | JBool b \<Rightarrow> \<not> b | JInt i \<Rightarrow> i = 0 | JFloat f \<Rightarrow> (case f of Decimal m _ \<Rightarrow> m = 0 | _ \<Rightarrow> False)
   | JStr s \<Rightarrow> s = [] | JArr xs \<Rightarrow> xs = [] | JObj kvs \<Rightarrow> kvs = [])"

definition or_empty :: "json \<Rightarrow> json" where
  "or_empty v = (if json_falsy v then JObj [] else v)"

text \<open>\<open>d.get("config", {})\<close> used as a mapping in \<open>{**...}\<close>: a value that is no mapping raises \<open>TypeError\<close>.\<close>

definition config_section :: "dict \<Rightarrow> exn + dict" where
  "config_section d = (case map_of d ''config'' of
     None \<Rightarrow> Inr []
   | Some (JObj c) \<Rightarrow> Inr c
   | Some _ \<Rightarrow> Inl TypeError)"

text \<open>One turn of the loop over the layers: validate, merge the nested flags, update, put the flags back.\<close>

definition apply_layer :: "dict \<Rightarrow> json \<Rightarrow> exn + dict" where
  "apply_layer result layer =
     bind_r (validate_config layer) (\<lambda>_.
       case layer of
         JObj entries \<Rightarrow>
           bind_r (config_section result) (\<lambda>base.
             bind_r (config_section entries) (\<lambda>over.
               let flags = dict_update base over;
                   result' = dict_update result entries
               in Inr (if flags \<noteq> [] then dict_set ''config'' (JObj flags) result' else result')))
       | _ \<Rightarrow> Inl AttributeError)"

fun apply_layers :: "dict \<Rightarrow> json list \<Rightarrow> exn + dict" where
  "apply_layers result [] = Inr result"
| "apply_layers result (l # ls) = bind_r (apply_layer result l) (\<lambda>r. apply_layers r ls)"

definition default_preset :: "db \<Rightarrow> preset option" where
  "default_preset d = List.find p_is_system_default (db_presets d)"

text \<open>\<open>client.default_preset.payload if client.default_preset_id else {}\<close>; the foreign key is PROTECTed.\<close>

definition client_preset :: "db \<Rightarrow> client \<Rightarrow> exn + json" where
  "client_preset d c = (case c_default_preset c of
     None \<Rightarrow> Inr (JObj [])
   | Some k \<Rightarrow> (case row_get p_id k (db_presets d) of
       None \<Rightarrow> Inl DoesNotExist
     | Some p \<Rightarrow> Inr (p_payload p)))"

definition config_layers :: "db \<Rightarrow> client \<Rightarrow> room \<Rightarrow> exn + json list" where
  "config_layers d c r =
     bind_r (client_preset d c) (\<lambda>cp. Inr
       [case default_preset d of None \<Rightarrow> JObj [] | Some p \<Rightarrow> p_payload p,
        cp,
        or_empty (r_default_meeting_config r)])"

definition resolve_config :: "env \<Rightarrow> db \<Rightarrow> client \<Rightarrow> room \<Rightarrow> exn + dict" where
  "resolve_config E d c r =
     bind_r (config_layers d c r) (\<lambda>layers.
       bind_r (apply_layers [(''meetingType'', JStr (DEFAULT_PROVIDER_MEETING_TYPE (e_settings E)))] layers)
         (\<lambda>result. bind_r (validate_config (JObj result)) (\<lambda>_. Inr result)))"

text \<open>A JSON column holds dictionaries, whose keys are distinct; \<open>json_wf\<close> says so for two levels.\<close>

definition layer_wf :: "json \<Rightarrow> bool" where
  "layer_wf v \<longleftrightarrow> (case v of
     JObj kvs \<Rightarrow> keys_distinct kvs \<and> (\<forall>c. map_of kvs ''config'' = Some (JObj c) \<longrightarrow> keys_distinct c)
   | _ \<Rightarrow> True)"

subsection \<open>Validation\<close>

lemma validate_boolean_ok: "validate_boolean f v = Inr () \<longleftrightarrow> (\<exists>b. v = JBool b)"
  by (auto simp: validate_boolean_def split: json.splits)

lemma validate_enum_ok: "validate_enum f v allowed = Inr () \<longleftrightarrow> (\<exists>s. v = JStr s \<and> s \<in> set allowed)"
  by (auto simp: validate_enum_def Let_def split: json.splits)

lemma validate_setting_error: "validate_setting kv = Inl x \<Longrightarrow> \<exists>m. x = ValidationError m"
  by (auto simp: validate_setting_def validate_boolean_def validate_enum_def Let_def
      split: prod.splits if_splits option.splits json.splits)

lemma validate_entry_error: "validate_entry kv = Inl x \<Longrightarrow> \<exists>m. x = ValidationError m"
  by (auto simp: validate_entry_def validate_boolean_def validate_enum_def Let_def
      dest!: check_all_error validate_setting_error
      split: prod.splits if_splits option.splits json.splits)

lemma validate_config_error: "validate_config v = Inl x \<Longrightarrow> \<exists>m. x = ValidationError m"
  by (auto simp: validate_config_def dest!: check_all_error validate_entry_error split: json.splits)

lemma validate_config_ok_iff:
  "validate_config v = Inr () \<longleftrightarrow> (\<exists>kvs. v = JObj kvs \<and> (\<forall>kv \<in> set kvs. validate_entry kv = Inr ()))"
  by (auto simp: validate_config_def check_all_ok_iff split: json.splits)

lemma validate_config_unit: "validate_config v = Inr u \<Longrightarrow> validate_config v = Inr ()"
  by simp

text \<open>The shape of an accepted entry, key by key.\<close>

lemma validate_entry_ok_iff:
  "validate_entry (key, v) = Inr () \<longleftrightarrow>
     key = ''meetingType'' \<and> (v = JStr ''instant'' \<or> v = JStr ''scheduled'') \<or>
     key \<in> set BOOLEAN_TOP_LEVEL_FIELDS \<and> (\<exists>b. v = JBool b) \<or>
     key = ''config'' \<and> (\<exists>c. v = JObj c \<and> (\<forall>kv \<in> set c. validate_setting kv = Inr ()))"
  by (auto simp: validate_entry_def validate_boolean_ok validate_enum_ok check_all_ok_iff
      BOOLEAN_TOP_LEVEL_FIELDS_def split: json.splits)

lemma config_section_valid:
  assumes "\<forall>kv \<in> set kvs. validate_entry kv = Inr ()"
  shows "\<exists>c. config_section kvs = Inr c \<and> (\<forall>kv \<in> set c. validate_setting kv = Inr ()) \<and>
    (map_of kvs ''config'' = None \<and> c = [] \<or> map_of kvs ''config'' = Some (JObj c))"
proof (cases "map_of kvs ''config''")
  case None
  then show ?thesis by (simp add: config_section_def)
next
  case (Some v)
  then have "(''config'', v) \<in> set kvs" by (rule map_of_SomeD)
  with assms have "validate_entry (''config'', v) = Inr ()" by blast
  then obtain c where "v = JObj c" "\<forall>kv \<in> set c. validate_setting kv = Inr ()"
    by (auto simp: validate_entry_ok_iff BOOLEAN_TOP_LEVEL_FIELDS_def)
  with Some show ?thesis by (simp add: config_section_def)
qed

subsection \<open>Merging the layers\<close>

text \<open>The nested flags a dictionary carries, as a map; \<open>partial_ok\<close> is a merge in progress.\<close>

definition flags_of :: "dict \<Rightarrow> string \<rightharpoonup> json" where
  "flags_of d = (case map_of d ''config'' of Some (JObj c) \<Rightarrow> map_of c | _ \<Rightarrow> Map.empty)"

definition layer_ok :: "dict \<Rightarrow> bool" where
  "layer_ok l \<longleftrightarrow> validate_config (JObj l) = Inr () \<and> layer_wf (JObj l)"

definition partial_ok :: "dict \<Rightarrow> bool" where
  "partial_ok r \<longleftrightarrow> layer_wf (JObj r) \<and> (\<forall>kv \<in> set r. fst kv \<noteq> ''meetingType'' \<longrightarrow> validate_entry kv = Inr ())"

lemma layer_wf_section: "layer_wf (JObj l) \<Longrightarrow> map_of l ''config'' = Some (JObj c) \<Longrightarrow> keys_distinct c"
  by (simp add: layer_wf_def)

lemma partial_okI:
  assumes "keys_distinct r" and "\<forall>c. map_of r ''config'' = Some (JObj c) \<longrightarrow> keys_distinct c"
    and "\<forall>kv \<in> set r. fst kv \<noteq> ''meetingType'' \<longrightarrow> validate_entry kv = Inr ()"
  shows "partial_ok r"
  using assms unfolding partial_ok_def layer_wf_def by (simp only: json.case)

lemma partial_config_section:
  assumes "partial_ok r"
  shows "\<exists>c. config_section r = Inr c \<and> map_of c = flags_of r \<and> keys_distinct c \<and>
    (\<forall>kv \<in> set c. validate_setting kv = Inr ()) \<and> (c \<noteq> [] \<longrightarrow> map_of r ''config'' = Some (JObj c))"
proof -
  let ?r = "filter (\<lambda>kv. fst kv \<noteq> ''meetingType'') r"
  have cfg: "map_of ?r ''config'' = map_of r ''config''"
    by (induction r) auto
  have "\<forall>kv \<in> set ?r. validate_entry kv = Inr ()" using assms by (auto simp: partial_ok_def)
  from config_section_valid[OF this] obtain c where c: "config_section ?r = Inr c"
      "\<forall>kv \<in> set c. validate_setting kv = Inr ()"
      "map_of r ''config'' = None \<and> c = [] \<or> map_of r ''config'' = Some (JObj c)"
    unfolding cfg by blast
  have "config_section r = Inr c" using c(1) unfolding config_section_def cfg .
  moreover have "map_of c = flags_of r" using c(3) by (auto simp: flags_of_def)
  moreover have "keys_distinct c"
    using c(3) layer_wf_section[of r c] assms unfolding partial_ok_def by (elim disjE conjE) simp_all
  ultimately show ?thesis using c(2,3) by auto
qed

lemma layer_ok_partial: "layer_ok l \<Longrightarrow> partial_ok l"
  by (auto simp: layer_ok_def partial_ok_def validate_config_ok_iff)

lemma apply_layer_ok:
  assumes r: "partial_ok r" and l: "layer_ok l"
  shows "\<exists>r'. apply_layer r (JObj l) = Inr r' \<and> partial_ok r' \<and>
    (\<forall>k. k \<noteq> ''config'' \<longrightarrow> map_of r' k = (map_of r ++ map_of l) k) \<and> flags_of r' = flags_of r ++ flags_of l"
proof -
  obtain a where a: "config_section r = Inr a" "map_of a = flags_of r" "keys_distinct a"
      "\<forall>kv \<in> set a. validate_setting kv = Inr ()" "a \<noteq> [] \<longrightarrow> map_of r ''config'' = Some (JObj a)"
    using partial_config_section[OF r] by blast
  obtain b where b: "config_section l = Inr b" "map_of b = flags_of l" "keys_distinct b"
      "\<forall>kv \<in> set b. validate_setting kv = Inr ()" "b \<noteq> [] \<longrightarrow> map_of l ''config'' = Some (JObj b)"
    using partial_config_section[OF layer_ok_partial[OF l]] by blast
  define f where "f = dict_update a b"
  define u where "u = dict_update r l"
  define r' where "r' = (if f \<noteq> [] then dict_set ''config'' (JObj f) u else u)"
  have step: "apply_layer r (JObj l) = Inr r'"
    using l by (simp add: apply_layer_def layer_ok_def a b f_def u_def r'_def Let_def)
  have dl: "keys_distinct l" and dr: "keys_distinct r"
    using r l by (simp_all add: layer_ok_def partial_ok_def layer_wf_def)
  have f: "keys_distinct f" "map_of f = flags_of r ++ flags_of l"
      "\<forall>kv \<in> set f. validate_setting kv = Inr ()"
    using a b set_dict_update_subset[of a b] by (auto simp: f_def map_of_dict_update)
  have u: "keys_distinct u" "map_of u = map_of r ++ map_of l"
      "\<forall>kv \<in> set u. fst kv \<noteq> ''meetingType'' \<longrightarrow> validate_entry kv = Inr ()"
    using dl dr r layer_ok_partial[OF l] set_dict_update_subset[of r l]
    by (auto simp: u_def map_of_dict_update partial_ok_def)
  have cfg: "validate_entry (''config'', JObj f) = Inr ()"
    using f(3) by (simp add: validate_entry_ok_iff)
  have "keys_distinct r'" using u(1) by (simp add: r'_def)
  moreover have "\<forall>kv \<in> set r'. fst kv \<noteq> ''meetingType'' \<longrightarrow> validate_entry kv = Inr ()"
    using u(3) cfg set_dict_set_subset[of "''config''" "JObj f" u] by (auto simp: r'_def)
  moreover have flags: "flags_of r' = flags_of r ++ flags_of l"
      and wf': "\<forall>c. map_of r' ''config'' = Some (JObj c) \<longrightarrow> keys_distinct c"
  proof -
    show "flags_of r' = flags_of r ++ flags_of l"
    proof (cases "f = []")
      case True
      then have e: "flags_of r = Map.empty" "flags_of l = Map.empty" "a = []" "b = []"
        using f(2) a b keys_dict_update[of a b] by (auto simp: f_def)
      then have "map_of r ''config'' \<in> {None, Some (JObj [])}" "map_of l ''config'' \<in> {None, Some (JObj [])}"
        using a(1) b(1) by (auto simp: config_section_def split: option.splits json.splits)
      then have "flags_of u = Map.empty"
        by (auto simp: flags_of_def u(2) map_add_def split: option.splits)
      then show ?thesis using True e by (simp add: r'_def)
    next
      case False
      then show ?thesis by (simp add: r'_def flags_of_def[of "dict_set _ _ _"] f(2))
    qed
    show "\<forall>c. map_of r' ''config'' = Some (JObj c) \<longrightarrow> keys_distinct c"
    proof (cases "f = []")
      case True
      then have "r' = u" by (simp add: r'_def)
      moreover have "keys_distinct c" if "map_of u ''config'' = Some (JObj c)" for c
      proof -
        from that consider "map_of l ''config'' = Some (JObj c)" | "map_of r ''config'' = Some (JObj c)"
          unfolding u(2) map_add_Some_iff by blast
        then show ?thesis
          using layer_wf_section r l unfolding layer_ok_def partial_ok_def by cases blast+
      qed
      ultimately show ?thesis by blast
    next
      case False
      then show ?thesis using f(1) by (simp add: r'_def)
    qed
  qed
  ultimately have "partial_ok r'" by (intro partial_okI) blast+
  moreover have "map_of r' k = (map_of r ++ map_of l) k" if "k \<noteq> ''config''" for k
    using that by (simp add: r'_def u(2))
  ultimately show ?thesis using step flags by blast
qed

lemma apply_layers_ok:
  assumes "partial_ok r" and "\<forall>l \<in> set ls. layer_ok l"
  shows "\<exists>r'. apply_layers r (map JObj ls) = Inr r' \<and> partial_ok r' \<and>
    (\<forall>k. k \<noteq> ''config'' \<longrightarrow> map_of r' k = (fold (\<lambda>l m. m ++ map_of l) ls (map_of r)) k) \<and>
    flags_of r' = fold (\<lambda>l m. m ++ flags_of l) ls (flags_of r)"
  using assms
proof (induction ls arbitrary: r)
  case (Cons l ls)
  obtain r1 where r1: "apply_layer r (JObj l) = Inr r1" "partial_ok r1"
      "\<And>k. k \<noteq> ''config'' \<Longrightarrow> map_of r1 k = (map_of r ++ map_of l) k"
      "flags_of r1 = flags_of r ++ flags_of l"
    using apply_layer_ok[of r l] Cons.prems by auto
  have shift: "fold (\<lambda>l m. m ++ map_of l) ls m k = fold (\<lambda>l m. m ++ map_of l) ls m' k"
    if "m k = m' k" for k :: string and m m' :: "string \<rightharpoonup> json"
    using that
  proof (induction ls arbitrary: m m')
    case (Cons x xs)
    have "(m ++ map_of x) k = (m' ++ map_of x) k"
      using Cons.prems by (simp add: map_add_def split: option.split)
    then show ?case unfolding fold_Cons comp_apply by (rule Cons.IH)
  qed simp
  obtain r2 where "apply_layers r1 (map JObj ls) = Inr r2" "partial_ok r2"
      "\<And>k. k \<noteq> ''config'' \<Longrightarrow> map_of r2 k = fold (\<lambda>l m. m ++ map_of l) ls (map_of r1) k"
      "flags_of r2 = fold (\<lambda>l m. m ++ flags_of l) ls (flags_of r1)"
    using Cons.IH[OF r1(2)] Cons.prems by auto
  moreover have "fold (\<lambda>l m. m ++ map_of l) ls (map_of r1) k =
      fold (\<lambda>l m. m ++ map_of l) ls (map_of r ++ map_of l) k" if "k \<noteq> ''config''" for k
    using r1(3)[OF that] by (rule shift)
  ultimately show ?case using r1(1,4) by auto
qed simp

subsection \<open>Resolution\<close>

text \<open>Whatever the columns hold, resolution fails with a validation error only.\<close>

lemma config_section_entries:
  assumes "\<And>v. (''config'', v) \<in> set r \<Longrightarrow> \<exists>c. v = JObj c"
  shows "\<exists>c. config_section r = Inr c"
proof (cases "map_of r ''config''")
  case (Some v)
  then obtain c where "v = JObj c" using assms map_of_SomeD by metis
  with Some show ?thesis by (simp add: config_section_def)
qed (simp add: config_section_def)

lemma valid_config_entry:
  "validate_config (JObj l) = Inr () \<Longrightarrow> (''config'', v) \<in> set l \<Longrightarrow> \<exists>c. v = JObj c"
  using validate_entry_ok_iff[of "''config''" v]
  by (auto simp: validate_config_ok_iff BOOLEAN_TOP_LEVEL_FIELDS_def)

lemma apply_layer_errors:
  assumes r: "\<And>v. (''config'', v) \<in> set r \<Longrightarrow> \<exists>c. v = JObj c"
  shows "apply_layer r l = Inl x \<Longrightarrow> \<exists>m. x = ValidationError m"
    and "apply_layer r l = Inr r' \<Longrightarrow> (''config'', v) \<in> set r' \<Longrightarrow> \<exists>c. v = JObj c"
proof -
  obtain a where a: "config_section r = Inr a" using config_section_entries r by blast
  have b: "\<exists>b. config_section es = Inr b" if "validate_config (JObj es) = Inr ()" for es
    using config_section_entries[of es] valid_config_entry[OF that] by blast
  show "\<exists>m. x = ValidationError m" if "apply_layer r l = Inl x"
  proof (cases "validate_config l")
    case (Inl y)
    then show ?thesis using that validate_config_error[OF Inl] by (simp add: apply_layer_def)
  next
    case (Inr u)
    then have ok: "validate_config l = Inr ()" by simp
    then obtain es where es: "l = JObj es" by (auto simp: validate_config_ok_iff)
    with ok b obtain f where "config_section es = Inr f" by blast
    then show ?thesis using that ok es a by (simp add: apply_layer_def Let_def)
  qed
  show "\<exists>c. v = JObj c" if step: "apply_layer r l = Inr r'" and v: "(''config'', v) \<in> set r'"
  proof -
    from step obtain es f where es: "l = JObj es" "validate_config (JObj es) = Inr ()"
        and r': "r' = dict_update r es \<or> r' = dict_set ''config'' (JObj f) (dict_update r es)"
      by (auto simp: apply_layer_def bind_r_Inr_iff Let_def split: json.splits if_splits)
    then have "v = JObj f \<or> (''config'', v) \<in> set r \<or> (''config'', v) \<in> set es"
      using v set_dict_update_subset[of r es]
        set_dict_set_subset[of "''config''" "JObj f" "dict_update r es"] by blast
    then show ?thesis using r valid_config_entry[OF es(2)] by blast
  qed
qed

lemma apply_layers_errors:
  assumes "\<And>v. (''config'', v) \<in> set r \<Longrightarrow> \<exists>c. v = JObj c" and "apply_layers r ls = Inl x"
  shows "\<exists>m. x = ValidationError m"
  using assms
proof (induction ls arbitrary: r)
  case (Cons l ls)
  show ?case
  proof (cases "apply_layer r l")
    case (Inl y)
    then show ?thesis using Cons.prems apply_layer_errors(1)[OF Cons.prems(1)] by auto
  next
    case (Inr r1)
    then show ?thesis
      using Cons.prems(2) Cons.IH[of r1] apply_layer_errors(2)[OF Cons.prems(1) Inr] by auto
  qed
qed simp

lemma resolve_config_errors:
  assumes "config_layers d c r = Inr ls" and "resolve_config E d c r = Inl x"
  shows "\<exists>m. x = ValidationError m"
  using assms apply_layers_errors[of "[(''meetingType'', JStr (DEFAULT_PROVIDER_MEETING_TYPE (e_settings E)))]" ls x]
  by (auto simp: resolve_config_def bind_r_Inl_iff dest: validate_config_error)

lemma config_layers_wf:
  "db_wf d \<Longrightarrow> c \<in> set (db_clients d) \<Longrightarrow> \<exists>ls. config_layers d c r = Inr ls"
  by (auto simp: config_layers_def client_preset_def db_wf_def clients_wf_def split: option.splits)

lemma resolve_config_valid: "resolve_config E d c r = Inr cfg \<Longrightarrow> validate_config (JObj cfg) = Inr ()"
  by (auto simp: resolve_config_def bind_r_Inr_iff)

text \<open>A resolved configuration is a value whose text reads back.\<close>

lemma members_ok_iff: "members_ok kvs \<longleftrightarrow> (\<forall>kv \<in> set kvs. json_ok (snd kv))"
  by (induction kvs) auto

lemma validate_setting_json_ok: "validate_setting kv = Inr () \<Longrightarrow> json_ok (snd kv)"
  by (cases kv) (auto simp: validate_setting_def validate_boolean_ok validate_enum_ok split: if_splits option.splits)

definition section_distinct :: "dict \<Rightarrow> bool" where
  "section_distinct r \<longleftrightarrow> keys_distinct r \<and> (\<forall>c. map_of r ''config'' = Some (JObj c) \<longrightarrow> keys_distinct c)"

lemma apply_layer_distinct:
  assumes r: "section_distinct r" and l: "apply_layer r l = Inr r'" and wf: "layer_wf l"
  shows "section_distinct r'"
proof -
  obtain es base over where es: "l = JObj es" "validate_config (JObj es) = Inr ()"
    and sec: "config_section r = Inr base" "config_section es = Inr over"
    and r': "r' = (if dict_update base over \<noteq> [] then dict_set ''config'' (JObj (dict_update base over)) (dict_update r es)
      else dict_update r es)"
    using l by (cases l) (auto simp: apply_layer_def bind_r_Inr_iff Let_def)
  have base: "keys_distinct base" "base = [] \<or> map_of r ''config'' = Some (JObj base)"
    using sec(1) r by (auto simp: config_section_def section_distinct_def split: option.splits json.splits)
  have dist: "keys_distinct (dict_update r es)" using r by (simp add: section_distinct_def)
  show ?thesis
  proof (cases "dict_update base over = []")
    case False
    then show ?thesis using dist base(1) by (simp add: r' section_distinct_def)
  next
    case True
    then have "over = []" "base = []" using keys_dict_update[of base over] by auto
    then have es0: "map_of es ''config'' \<in> {None, Some (JObj [])}" and r0: "map_of r ''config'' \<in> {None, Some (JObj [])}"
      using sec by (auto simp: config_section_def split: option.splits json.splits)
    have "keys_distinct es" using wf es(1) by (simp add: layer_wf_def)
    then have m: "map_of (dict_update r es) = map_of r ++ map_of es" by (rule map_of_dict_update)
    have "keys_distinct c" if "map_of (dict_update r es) ''config'' = Some (JObj c)" for c
    proof -
      have "map_of es ''config'' = Some (JObj c) \<or> map_of r ''config'' = Some (JObj c)"
        using that unfolding m map_add_Some_iff by blast
      then have "c = []" using es0 r0 by auto
      then show ?thesis by simp
    qed
    then show ?thesis using True dist by (simp add: r' section_distinct_def)
  qed
qed

lemma apply_layers_distinct:
  assumes "section_distinct r" and "apply_layers r ls = Inr r'" and "\<forall>l \<in> set ls. layer_wf l"
  shows "section_distinct r'"
  using assms by (induction ls arbitrary: r) (auto simp: bind_r_Inr_iff dest: apply_layer_distinct)

definition json_columns_wf :: "db \<Rightarrow> bool" where
  "json_columns_wf d \<longleftrightarrow> (\<forall>p \<in> set (db_presets d). layer_wf (p_payload p)) \<and>
     (\<forall>r \<in> set (db_rooms d). layer_wf (r_default_meeting_config r))"

lemma config_layers_json:
  assumes "json_columns_wf d" and "r \<in> set (db_rooms d)" and "config_layers d c r = Inr ls"
  shows "\<forall>l \<in> set ls. layer_wf l"
proof -
  have e: "layer_wf (JObj [])" by (simp add: layer_wf_def)
  then have o: "layer_wf (or_empty v)" if "layer_wf v" for v using that by (simp add: or_empty_def)
  obtain cp where cp: "client_preset d c = Inr cp"
      "ls = [case default_preset d of None \<Rightarrow> JObj [] | Some p \<Rightarrow> p_payload p, cp, or_empty (r_default_meeting_config r)]"
    using assms(3) by (auto simp: config_layers_def bind_r_Inr_iff)
  have "layer_wf cp"
    using cp(1) e assms(1) by (auto simp: client_preset_def json_columns_wf_def dest: row_get_mem split: option.splits)
  moreover have "layer_wf (case default_preset d of None \<Rightarrow> JObj [] | Some p \<Rightarrow> p_payload p)"
    using e assms(1) by (auto simp: default_preset_def json_columns_wf_def dest: find_SomeD split: option.splits)
  ultimately show ?thesis using o assms(1,2) by (auto simp: cp(2) json_columns_wf_def)
qed

lemma resolve_config_json_ok:
  assumes "json_columns_wf d" and "r \<in> set (db_rooms d)" and res: "resolve_config E d c r = Inr cfg"
  shows "json_ok (JObj cfg)"
proof -
  let ?r0 = "[(''meetingType'', JStr (DEFAULT_PROVIDER_MEETING_TYPE (e_settings E)))]"
  obtain ls where ls: "config_layers d c r = Inr ls" "apply_layers ?r0 ls = Inr cfg" "validate_config (JObj cfg) = Inr ()"
    using res by (auto simp: resolve_config_def bind_r_Inr_iff)
  have "section_distinct ?r0" by (simp add: section_distinct_def)
  then have dist: "section_distinct cfg"
    using apply_layers_distinct ls(2) config_layers_json[OF assms(1,2) ls(1)] by blast
  have "json_ok v" if kv: "(k, v) \<in> set cfg" for k v
  proof -
    have val: "map_of cfg k = Some v" using dist kv by (simp add: section_distinct_def)
    have "validate_entry (k, v) = Inr ()" using ls(3) kv unfolding validate_config_ok_iff by blast
    then consider "\<exists>s. v = JStr s" | "\<exists>b. v = JBool b"
      | c where "k = ''config''" "v = JObj c" "\<forall>kv \<in> set c. validate_setting kv = Inr ()"
      unfolding validate_entry_ok_iff by blast
    then show ?thesis
    proof cases
      case 3
      have "keys_distinct c" using dist val 3(1,2) unfolding section_distinct_def by blast
      then show ?thesis using 3(2,3) validate_setting_json_ok by (simp add: members_ok_iff)
    qed auto
  qed
  then have "members_ok cfg" unfolding members_ok_iff by auto
  then show ?thesis using dist by (simp add: section_distinct_def)
qed

lemma valid_meeting_type:
  assumes "validate_config (JObj cfg) = Inr ()" and "map_of cfg ''meetingType'' = Some v"
  shows "v = JStr ''instant'' \<or> v = JStr ''scheduled''"
proof -
  from assms have "validate_entry (''meetingType'', v) = Inr ()"
    by (auto simp: validate_config_ok_iff dest: map_of_SomeD)
  then show ?thesis by (simp add: validate_entry_ok_iff BOOLEAN_TOP_LEVEL_FIELDS_def)
qed

lemma resolve_layers:
  assumes layers: "config_layers d c r = Inr [JObj sys, JObj cli, JObj rm]"
    and ok: "layer_ok sys" "layer_ok cli" "layer_ok rm"
    and dflt: "DEFAULT_PROVIDER_MEETING_TYPE (e_settings E) \<in> {''instant'', ''scheduled''}"
  shows "\<exists>cfg. resolve_config E d c r = Inr cfg \<and> validate_config (JObj cfg) = Inr () \<and>
    (\<forall>k. k \<noteq> ''config'' \<longrightarrow> map_of cfg k =
       ([''meetingType'' \<mapsto> JStr (DEFAULT_PROVIDER_MEETING_TYPE (e_settings E))] ++
         map_of sys ++ map_of cli ++ map_of rm) k) \<and>
    flags_of cfg = flags_of sys ++ flags_of cli ++ flags_of rm"
proof -
  let ?t = "DEFAULT_PROVIDER_MEETING_TYPE (e_settings E)"
  let ?r0 = "[(''meetingType'', JStr ?t)]"
  have r0: "partial_ok ?r0" by (intro partial_okI) simp_all
  obtain cfg where cfg: "apply_layers ?r0 (map JObj [sys, cli, rm]) = Inr cfg" "partial_ok cfg"
      "\<And>k. k \<noteq> ''config'' \<Longrightarrow>
        map_of cfg k = fold (\<lambda>l m. m ++ map_of l) [sys, cli, rm] (map_of ?r0) k"
      "flags_of cfg = fold (\<lambda>l m. m ++ flags_of l) [sys, cli, rm] (flags_of ?r0)"
    using apply_layers_ok[OF r0, of "[sys, cli, rm]"] ok by auto
  have top: "map_of cfg k = ([''meetingType'' \<mapsto> JStr ?t] ++ map_of sys ++ map_of cli ++ map_of rm) k"
    if "k \<noteq> ''config''" for k
    using cfg(3)[OF that] by simp
  have flags: "flags_of cfg = flags_of sys ++ flags_of cli ++ flags_of rm"
    using cfg(4) by (simp add: flags_of_def[of ?r0])
  have type: "v = JStr ''instant'' \<or> v = JStr ''scheduled''" if "(''meetingType'', v) \<in> set cfg" for v
  proof -
    have "keys_distinct cfg" using cfg(2) by (simp add: partial_ok_def layer_wf_def)
    then have "map_of cfg ''meetingType'' = Some v" using that by simp
    then have "([''meetingType'' \<mapsto> JStr ?t] ++ map_of sys ++ map_of cli ++ map_of rm) ''meetingType'' = Some v"
      using top[of "''meetingType''"] by simp
    then show ?thesis
      using dflt ok valid_meeting_type unfolding layer_ok_def map_add_Some_iff by auto
  qed
  have "validate_entry (k, v) = Inr ()" if "(k, v) \<in> set cfg" for k v
    using that type[of v] cfg(2) unfolding partial_ok_def
    by (cases "k = ''meetingType''") (auto simp: validate_entry_ok_iff)
  then have "validate_config (JObj cfg) = Inr ()" by (auto simp: validate_config_ok_iff)
  then have "resolve_config E d c r = Inr cfg"
    using layers cfg(1) by (simp add: resolve_config_def)
  then show ?thesis using top flags \<open>validate_config (JObj cfg) = Inr ()\<close> by blast
qed

text \<open>
  C34, layered configuration: when the system preset, the client preset and the room override are
  valid and the default meeting type is one of the two choices, resolution succeeds, its result is
  itself valid, every top-level field comes from the most specific layer that sets it (room over
  client over system over the default), and so does every nested flag of \<open>config\<close>, each flag on its
  own.
\<close>

theorem resolve_config_layering:
  assumes layers: "config_layers d c r = Inr [JObj sys, JObj cli, JObj rm]"
    and ok: "layer_ok sys" "layer_ok cli" "layer_ok rm"
    and dflt: "DEFAULT_PROVIDER_MEETING_TYPE (e_settings E) \<in> {''instant'', ''scheduled''}"
  shows "\<exists>cfg. resolve_config E d c r = Inr cfg \<and> validate_config (JObj cfg) = Inr () \<and>
    (\<forall>k. k \<noteq> ''config'' \<longrightarrow> map_of cfg k =
       ([''meetingType'' \<mapsto> JStr (DEFAULT_PROVIDER_MEETING_TYPE (e_settings E))] ++
         map_of sys ++ map_of cli ++ map_of rm) k) \<and>
    flags_of cfg = flags_of sys ++ flags_of cli ++ flags_of rm"
  by (rule resolve_layers[OF assms])

theorem resolve_config_layering_witness:
  "\<exists>cfg. resolve_config sample_env sample_db sample_client sample_room_b = Inr cfg \<and>
    validate_config (JObj cfg) = Inr () \<and>
    (\<forall>k. k \<noteq> ''config'' \<longrightarrow> map_of cfg k =
       ([''meetingType'' \<mapsto> JStr ''instant''] ++ map_of [(''bigMeeting'', JBool False),
          (''config'', JObj [(''MIC_OFF'', JBool True)])] ++ map_of [] ++
        map_of [(''config'', JObj [(''CAMERA_OFF'', JBool True)])]) k) \<and>
    flags_of cfg = flags_of [(''bigMeeting'', JBool False), (''config'', JObj [(''MIC_OFF'', JBool True)])] ++
      flags_of [] ++ flags_of [(''config'', JObj [(''CAMERA_OFF'', JBool True)])]"
proof -
  have type: "DEFAULT_PROVIDER_MEETING_TYPE (e_settings sample_env) = ''instant''"
    by (simp add: sample_env_def sample_settings_def)
  have layers: "config_layers sample_db sample_client sample_room_b =
      Inr [JObj [(''bigMeeting'', JBool False), (''config'', JObj [(''MIC_OFF'', JBool True)])], JObj [],
           JObj [(''config'', JObj [(''CAMERA_OFF'', JBool True)])]]"
    by (simp add: config_layers_def client_preset_def default_preset_def sample_rows or_empty_def json_falsy_def)
  have ok: "layer_ok [(''bigMeeting'', JBool False), (''config'', JObj [(''MIC_OFF'', JBool True)])]"
      "layer_ok []" "layer_ok [(''config'', JObj [(''CAMERA_OFF'', JBool True)])]"
    by (simp_all add: layer_ok_def validate_config_def validate_entry_def validate_setting_def layer_wf_def
        validate_boolean_def BOOLEAN_TOP_LEVEL_FIELDS_def BOOLEAN_CONFIG_FIELDS_def)
  show ?thesis
    using resolve_config_layering[OF layers ok, of sample_env] unfolding type by blast
qed

end
