(* ===== verification/Allocation.thy ===== *)
theory Allocation
  imports Configuration
begin

text \<open>
  \<open>apps/rooms/services.py\<close>: the buffered reservation interval, the local eligibility of a room, the
  capacity check, the reservation of one room and of the first eligible room, and the aggregate
  availability answer. A function that runs inside \<open>transaction.atomic()\<close> returns the new database
  only with its result: an exception leaves the caller's database as it was. One clock reading
  \<open>now\<close> stands for the \<open>timezone.now()\<close> calls of a transaction.
\<close>

definition interval :: "env \<Rightarrow> datetime \<Rightarrow> datetime \<Rightarrow> exn + time_range" where
  "interval E s e =
     (let S = e_settings E in
      if is_naive s \<or> is_naive e \<or> dt_instant s \<ge> dt_instant e
      then Inl (GatewayError ''INVALID_INTERVAL''
             ''Provide timezone-aware start and end with end after start.'' 400)
      else
        (case (dt_shift s (- (ROOM_BUFFER_BEFORE_MINUTES S * minute_us)),
               dt_shift e (ROOM_BUFFER_AFTER_MINUTES S * minute_us)) of
           (Some lo, Some hi) \<Rightarrow> Inr (dt_instant lo, dt_instant hi)
         | _ \<Rightarrow> Inl (GatewayError ''INVALID_INTERVAL'' ''Interval exceeds supported date bounds.'' 400)))"

text \<open>The exceptions the eligibility check turns into \<open>False\<close>.\<close>

fun eligibility_error :: "exn \<Rightarrow> bool" where
  "eligibility_error InvalidToken = True"
| "eligibility_error ValueError = True"
| "eligibility_error KeyError = True"
| "eligibility_error (ValidationError _) = True"
| "eligibility_error _ = False"

definition configured :: "env \<Rightarrow> db \<Rightarrow> room \<Rightarrow> client \<Rightarrow> exn + bool" where
  "configured E d r c =
     (if \<not> r_is_active r \<or> r_max_concurrent_bookings r \<noteq> 1 \<or> strip (r_username r) = [] then Inr False
      else if r_encrypted_password r = [] then Inr False
      else
        (case bind_r (decrypt E (r_encrypted_password r)) (\<lambda>pw.
                if pw = [] then Inr False
                else bind_r (resolve_config E d c r) (\<lambda>cfg.
                  case map_of cfg ''meetingType'' of
                    None \<Rightarrow> Inl KeyError
                  | Some v \<Rightarrow> Inr (v = JStr ''instant''))) of
           Inl x \<Rightarrow> if eligibility_error x then Inr False else Inl x
         | Inr b \<Rightarrow> Inr b))"

text \<open>The statuses that count against a room's provider limit.\<close>

definition counted :: "status \<Rightarrow> bool" where
  "counted s \<longleftrightarrow> s \<in> {RESERVED, PROVISIONING, READY, LIVE, PROVIDER_RESPONSE_INVALID, PROVIDER_STATE_UNKNOWN}"

definition active_meetings :: "room \<Rightarrow> db \<Rightarrow> meeting list" where
  "active_meetings r d = filter (\<lambda>m. m_room m = Some (r_id r) \<and> counted (m_status m)) (db_meetings d)"

definition capacity_error :: "room \<Rightarrow> time_range \<Rightarrow> db \<Rightarrow> string option" where
  "capacity_error r slot d =
     (if list_ex (\<lambda>m. m_room m = Some (r_id r) \<and> m_reservation_active m \<and>
            opt_overlap (m_reservation m) (Some slot)) (db_meetings d)
      then Some ''ROOM_SLOT_CONFLICT''
      else if (case r_provider_active_meeting_limit r of
                 None \<Rightarrow> False
               | Some limit \<Rightarrow> int (length (active_meetings r d)) \<ge> limit)
      then Some ''PROVIDER_CAPACITY''
      else None)"

definition reserve_specific_room ::
    "env \<Rightarrow> int \<Rightarrow> uuid \<Rightarrow> string \<Rightarrow> datetime \<Rightarrow> datetime \<Rightarrow> db \<Rightarrow> exn + (meeting \<times> db)" where
  "reserve_specific_room E now pk room_id s e d =
     bind_r (interval E s e) (\<lambda>slot.
       case get_meeting pk d of
         None \<Rightarrow> Inl DoesNotExist
       | Some locked \<Rightarrow>
           if m_status locked \<noteq> DRAFT
           then Inl (GatewayError ''INVALID_STATE'' ''Meeting is already reserved or finalized.'' 409)
           else
             (case List.find (\<lambda>r. r_public_id r = room_id \<and> r_is_active r) (db_rooms d) of
                None \<Rightarrow> Inl (GatewayError ''ROOM_UNAVAILABLE'' ''Room does not exist or is inactive.'' 409)
              | Some r \<Rightarrow>
                  (case get_client (m_integration_client locked) d of
                     None \<Rightarrow> Inl DoesNotExist
                   | Some c \<Rightarrow>
                       bind_r (configured E d r c) (\<lambda>ok.
                         if \<not> ok
                         then Inl (GatewayError ''ROOM_UNAVAILABLE'' ''Room does not exist or is inactive.'' 409)
                         else
                           (case capacity_error r slot d of
                              Some conflict \<Rightarrow>
                                Inl (GatewayError conflict ''Internal capacity is unavailable.'' 409)
                            | None \<Rightarrow>
                                (case save_meeting now
                                   (locked\<lparr>m_room := Some (r_id r),
                                      m_start_at := Some (dt_instant s), m_end_at := Some (dt_instant e),
                                      m_reservation := Some slot, m_reservation_active := True,
                                      m_status := RESERVED\<rparr>) d of
                                   Inl x \<Rightarrow>
                                     if x = IntegrityError ''23P01''
                                     then Inl (GatewayError ''ROOM_SLOT_CONFLICT''
                                            ''The selected room is no longer available for this time.'' 409)
                                     else Inl x
                                 | Inr (m, d') \<Rightarrow>
                                     Inr (m, audit_meeting E now ''slot_reserved'' m d')))))))"

text \<open>\<open>Room.objects.filter(is_active=True).order_by("priority", "public_id")\<close>, under the database's collation.\<close>

definition candidate_rooms :: "env \<Rightarrow> db \<Rightarrow> room list" where
  "candidate_rooms E d =
     sort_key (\<lambda>r. (r_priority r, e_collate E (r_public_id r))) (filter r_is_active (db_rooms d))"

fun try_rooms ::
    "env \<Rightarrow> int \<Rightarrow> uuid \<Rightarrow> string list \<Rightarrow> datetime \<Rightarrow> datetime \<Rightarrow> db \<Rightarrow> exn + (meeting \<times> db)" where
  "try_rooms E now pk [] s e d =
     Inl (GatewayError ''NO_CAPACITY_AVAILABLE''
            ''No meeting capacity is available for the requested time.'' 409)"
| "try_rooms E now pk (public_id # rest) s e d =
     (case reserve_specific_room E now pk public_id s e d of
        Inr res \<Rightarrow> Inr res
      | Inl (GatewayError code msg st) \<Rightarrow>
          if code \<notin> {''ROOM_SLOT_CONFLICT'', ''ROOM_UNAVAILABLE'', ''PROVIDER_CAPACITY''}
          then Inl (GatewayError code msg st)
          else try_rooms E now pk rest s e d
      | Inl x \<Rightarrow> Inl x)"

definition allocate_any_room ::
    "env \<Rightarrow> int \<Rightarrow> uuid \<Rightarrow> datetime \<Rightarrow> datetime \<Rightarrow> db \<Rightarrow> exn + (meeting \<times> db)" where
  "allocate_any_room E now pk s e d = try_rooms E now pk (map r_public_id (candidate_rooms E d)) s e d"

text \<open>\<open>any(...)\<close> over the rooms, which stops at the first \<open>True\<close> and lets an exception through.\<close>

fun any_room_free :: "env \<Rightarrow> db \<Rightarrow> client \<Rightarrow> time_range \<Rightarrow> room list \<Rightarrow> exn + bool" where
  "any_room_free E d c slot [] = Inr False"
| "any_room_free E d c slot (r # rs) =
     bind_r (configured E d r c) (\<lambda>ok.
       if ok \<and> capacity_error r slot d = None then Inr True else any_room_free E d c slot rs)"

record availability_answer =
  av_start_at :: int
  av_end_at :: int
  av_available :: bool

definition availability :: "env \<Rightarrow> db \<Rightarrow> client \<Rightarrow> datetime \<Rightarrow> datetime \<Rightarrow> exn + availability_answer" where
  "availability E d c s e =
     bind_r (interval E s e) (\<lambda>slot.
       bind_r (any_room_free E d c slot (candidate_rooms E d)) (\<lambda>avail.
         Inr \<lparr>av_start_at = dt_instant s, av_end_at = dt_instant e, av_available = avail\<rparr>))"

subsection \<open>The interval\<close>

lemma interval_Inr:
  assumes "interval E s e = Inr (lo, hi)"
  shows "\<not> is_naive s" "\<not> is_naive e" "dt_instant s < dt_instant e"
    "lo = dt_instant s - ROOM_BUFFER_BEFORE_MINUTES (e_settings E) * minute_us"
    "hi = dt_instant e + ROOM_BUFFER_AFTER_MINUTES (e_settings E) * minute_us"
  using assms
  by (auto simp: interval_def Let_def dest!: dt_shift_Some split: if_splits option.splits)

lemma interval_errors: "interval E s e = Inl x \<Longrightarrow> \<exists>m. x = GatewayError ''INVALID_INTERVAL'' m 400"
  by (auto simp: interval_def Let_def split: if_splits option.splits)

lemma interval_bounds:
  assumes "settings_ok (e_settings E)" and "interval E s e = Inr (lo, hi)"
  shows "lo \<le> dt_instant s" "dt_instant e \<le> hi" "lo < hi"
  using assms(1) interval_Inr[OF assms(2)]
  by (auto simp: settings_ok_def minute_us_def)

subsection \<open>Eligibility never raises\<close>

lemma configured_total:
  assumes "db_wf d" and "c \<in> set (db_clients d)"
  shows "\<exists>b. configured E d r c = Inr b"
proof -
  obtain ls where ls: "config_layers d c r = Inr ls" using config_layers_wf[OF assms] by blast
  have "eligibility_error x" if "resolve_config E d c r = Inl x" for x
    using resolve_config_errors[OF ls that] by auto
  moreover have "eligibility_error x" if "decrypt E v = Inl x" for x v
    using decrypt_errors[OF that] by auto
  ultimately show ?thesis
    by (auto simp: configured_def bind_r_def split: sum.splits option.splits)
qed

lemma configured_True:
  assumes "configured E d r c = Inr True"
  shows "r_is_active r" "r_encrypted_password r \<noteq> []"
    "\<exists>cfg. resolve_config E d c r = Inr cfg \<and> map_of cfg ''meetingType'' = Some (JStr ''instant'')"
    "\<exists>pw. decrypt E (r_encrypted_password r) = Inr pw \<and> pw \<noteq> []"
  using assms
  by (auto simp: configured_def bind_r_def split: sum.splits option.splits if_splits)

subsection \<open>Reserving one room\<close>

text \<open>The row a successful reservation writes, before \<open>updated_at\<close> is set.\<close>

definition reserved_row :: "meeting \<Rightarrow> room \<Rightarrow> datetime \<Rightarrow> datetime \<Rightarrow> time_range \<Rightarrow> meeting" where
  "reserved_row m0 r s e slot =
     m0\<lparr>m_room := Some (r_id r), m_start_at := Some (dt_instant s), m_end_at := Some (dt_instant e),
        m_reservation := Some slot, m_reservation_active := True, m_status := RESERVED\<rparr>"

definition eligible :: "env \<Rightarrow> db \<Rightarrow> client \<Rightarrow> time_range \<Rightarrow> room \<Rightarrow> bool" where
  "eligible E d c slot r \<longleftrightarrow> configured E d r c = Inr True \<and> capacity_error r slot d = None"

lemma reserved_row_sel [simp]:
  "m_id (reserved_row m0 r s e slot) = m_id m0"
  "m_integration_client (reserved_row m0 r s e slot) = m_integration_client m0"
  "m_room (reserved_row m0 r s e slot) = Some (r_id r)"
  "m_status (reserved_row m0 r s e slot) = RESERVED"
  "m_reservation (reserved_row m0 r s e slot) = Some slot"
  "m_reservation_active (reserved_row m0 r s e slot)"
  "m_meeting_title (reserved_row m0 r s e slot) = m_meeting_title m0"
  by (simp_all add: reserved_row_def)

text \<open>
  The capacity check anticipates the exclusion constraint: a row that passes it saves without a
  violation.
\<close>

lemma reserved_row_no_violation:
  assumes wf: "meetings_wf d" and set: "settings_ok (e_settings E)"
    and m0: "get_meeting (m_id m0) d = Some m0"
    and slot: "interval E s e = Inr slot" and free: "capacity_error r slot d = None"
  shows "meeting_violation ((reserved_row m0 r s e slot)\<lparr>m_updated_at := now\<rparr>) d = None"
proof -
  obtain lo hi where s: "slot = (lo, hi)" by (cases slot)
  have b: "lo \<le> dt_instant s" "dt_instant e \<le> hi" "lo < hi" "dt_instant s < dt_instant e"
    using interval_bounds[OF set slot[unfolded s]] interval_Inr(3)[OF slot[unfolded s]] by auto
  have mem: "m0 \<in> set (db_meetings d)" using m0 by (rule meeting_tbl.fetch_mem)
  have "meeting_text_ok m0" using wf mem by (auto simp: meetings_wf_def)
  then have "meeting_text_ok ((reserved_row m0 r s e slot)\<lparr>m_updated_at := now\<rparr>)"
    by (simp add: meeting_text_ok_def reserved_row_def text_fits_def)
  moreover have "meeting_checks ((reserved_row m0 r s e slot)\<lparr>m_updated_at := now\<rparr>)"
    using b by (simp add: meeting_checks_def active_reservation_complete_def s reserved_row_def
        positive_meeting_interval_def reservation_range_valid_def)
  moreover have "\<not> same_class ((reserved_row m0 r s e slot)\<lparr>m_updated_at := now\<rparr>) x"
    if "x \<in> set (db_meetings d)" "m_id x \<noteq> m_id m0" for x
  proof -
    have "\<not> same_class m0 x" using wf mem that unfolding meetings_wf_def by (metis (no_types))
    then show ?thesis by (simp add: same_class_def reserved_row_def)
  qed
  moreover have "\<not> room_conflict ((reserved_row m0 r s e slot)\<lparr>m_updated_at := now\<rparr>) x"
    if "x \<in> set (db_meetings d)" for x
    using free that opt_overlap_sym
    by (auto simp: capacity_error_def list_ex_iff room_conflict_def split: if_splits)
  ultimately show ?thesis by (simp add: meeting_violation_None_iff)
qed

lemma reserve_specific_room_eq:
  assumes wf: "db_wf d" and set: "settings_ok (e_settings E)"
    and m0: "get_meeting pk d = Some m0" and draft: "m_status m0 = DRAFT"
    and c: "get_client (m_integration_client m0) d = Some c"
    and slot: "interval E s e = Inr slot"
    and r: "List.find (\<lambda>r. r_public_id r = room_id \<and> r_is_active r) (db_rooms d) = Some r"
  shows "reserve_specific_room E now pk room_id s e d =
    (if configured E d r c \<noteq> Inr True
     then Inl (GatewayError ''ROOM_UNAVAILABLE'' ''Room does not exist or is inactive.'' 409)
     else case capacity_error r slot d of
       Some conflict \<Rightarrow> Inl (GatewayError conflict ''Internal capacity is unavailable.'' 409)
     | None \<Rightarrow>
         let m = (reserved_row m0 r s e slot)\<lparr>m_updated_at := now\<rparr>
         in Inr (m, audit_meeting E now ''slot_reserved'' m (store db_meetings set_meetings m_id m d)))"
proof -
  obtain b where b: "configured E d r c = Inr b"
    using configured_total[OF wf client_tbl.fetch_mem[OF c]] by blast
  have id: "m_id m0 = pk" using m0 by (rule meeting_tbl.fetch_keyD)
  have "meeting_violation ((reserved_row m0 r s e slot)\<lparr>m_updated_at := now\<rparr>) d = None"
    if "capacity_error r slot d = None"
    using that wf set m0 slot by (intro reserved_row_no_violation) (simp_all add: db_wf_def id)
  then have "save_meeting now (reserved_row m0 r s e slot) d =
      (let m = (reserved_row m0 r s e slot)\<lparr>m_updated_at := now\<rparr>
       in Inr (m, store db_meetings set_meetings m_id m d))"
    if "capacity_error r slot d = None"
    using that by (simp add: save_meeting_def Let_def)
  then show ?thesis
    by (simp add: reserve_specific_room_def slot m0 draft c r b reserved_row_def[symmetric] Let_def
        split: option.split)
qed

lemma reserveD:
  assumes res: "reserve_specific_room E now pk room_id s e d = Inr (m, d')"
  shows "\<exists>slot m0 r c. interval E s e = Inr slot \<and> get_meeting pk d = Some m0 \<and> m_status m0 = DRAFT \<and>
    r \<in> set (db_rooms d) \<and> r_public_id r = room_id \<and> r_is_active r \<and>
    get_client (m_integration_client m0) d = Some c \<and> eligible E d c slot r \<and>
    m = (reserved_row m0 r s e slot)\<lparr>m_updated_at := now\<rparr> \<and>
    meeting_violation m d = None \<and>
    d' = audit_meeting E now ''slot_reserved'' m (store db_meetings set_meetings m_id m d)"
proof -
  let ?find = "List.find (\<lambda>r. r_public_id r = room_id \<and> r_is_active r) (db_rooms d)"
  from res obtain slot m0 where 1: "interval E s e = Inr slot" "get_meeting pk d = Some m0"
      "m_status m0 = DRAFT"
    by (cases "interval E s e"; cases "get_meeting pk d")
      (simp_all add: reserve_specific_room_def split: if_splits)
  from res obtain r c where 2: "?find = Some r" "get_client (m_integration_client m0) d = Some c"
    by (cases ?find; cases "get_client (m_integration_client m0) d")
      (simp_all add: reserve_specific_room_def 1)
  from res have 3: "eligible E d c slot r"
    by (cases "configured E d r c"; cases "capacity_error r slot d")
      (simp_all add: reserve_specific_room_def eligible_def 1 2 split: if_splits)
  from res obtain d1 where 4: "save_meeting now (reserved_row m0 r s e slot) d = Inr (m, d1)"
      and d': "d' = audit_meeting E now ''slot_reserved'' m d1"
    using 3 by (simp add: reserve_specific_room_def eligible_def 1 2 reserved_row_def
        split: sum.splits prod.splits if_splits)
  show ?thesis
    using 1 2(2) 3 save_meetingD[OF 4] d' find_SomeD[OF 2(1)] by blast
qed

lemma reserve_wf:
  assumes wf: "db_wf d" and res: "reserve_specific_room E now pk room_id s e d = Inr (m, d')"
  shows "db_wf d'"
proof -
  from reserveD[OF res] obtain slot m0 r c where
    r: "r \<in> set (db_rooms d)" and c: "get_client (m_integration_client m0) d = Some c"
    and m: "m = (reserved_row m0 r s e slot)\<lparr>m_updated_at := now\<rparr>"
    and v: "meeting_violation m d = None"
    and d': "d' = audit_meeting E now ''slot_reserved'' m (store db_meetings set_meetings m_id m d)"
    by blast
  have "save_meeting now (reserved_row m0 r s e slot) d = Inr (m, store db_meetings set_meetings m_id m d)"
    using v by (simp add: save_meeting_def m Let_def)
  moreover have "get_room (r_id r) d \<noteq> None"
    using wf r by (auto simp: db_wf_def rooms_wf_def dest: room_tbl.fetch_distinct)
  ultimately have "db_wf (store db_meetings set_meetings m_id m d)"
    using c by (intro save_meeting_db_wf[OF wf]) auto
  then show ?thesis by (simp only: d' audit_wf)
qed

subsection \<open>Allocation of the first eligible room\<close>

definition reserved_result :: "env \<Rightarrow> int \<Rightarrow> meeting \<Rightarrow> room \<Rightarrow> datetime \<Rightarrow> datetime \<Rightarrow> time_range \<Rightarrow> db \<Rightarrow> meeting \<times> db" where
  "reserved_result E now m0 r s e slot d =
     (let m = (reserved_row m0 r s e slot)\<lparr>m_updated_at := now\<rparr>
      in (m, audit_meeting E now ''slot_reserved'' m (store db_meetings set_meetings m_id m d)))"

lemma find_active_room:
  assumes "rooms_wf d" and "r \<in> set (db_rooms d)" and "r_is_active r"
  shows "List.find (\<lambda>x. r_public_id x = r_public_id r \<and> r_is_active x) (db_rooms d) = Some r"
proof (cases "List.find (\<lambda>x. r_public_id x = r_public_id r \<and> r_is_active x) (db_rooms d)")
  case None
  then show ?thesis using assms(2,3) by (auto dest: find_NoneD)
next
  case (Some x)
  then have "x \<in> set (db_rooms d)" "r_public_id x = r_public_id r" by (auto dest: find_SomeD)
  then have "x = r" using assms(1,2) by (auto simp: rooms_wf_def distinct_map dest: inj_onD)
  with Some show ?thesis by simp
qed

lemma capacity_error_cases:
  "capacity_error r slot d = Some x \<Longrightarrow> x = ''ROOM_SLOT_CONFLICT'' \<or> x = ''PROVIDER_CAPACITY''"
  by (auto simp: capacity_error_def split: if_splits)

lemma try_rooms_eq:
  assumes wf: "db_wf d" and set: "settings_ok (e_settings E)"
    and m0: "get_meeting pk d = Some m0" and draft: "m_status m0 = DRAFT"
    and c: "get_client (m_integration_client m0) d = Some c"
    and slot: "interval E s e = Inr slot"
    and rs: "\<forall>r \<in> set rs. r \<in> set (db_rooms d) \<and> r_is_active r"
  shows "try_rooms E now pk (map r_public_id rs) s e d =
    (case List.find (eligible E d c slot) rs of
       Some r \<Rightarrow> Inr (reserved_result E now m0 r s e slot d)
     | None \<Rightarrow> Inl (GatewayError ''NO_CAPACITY_AVAILABLE''
                 ''No meeting capacity is available for the requested time.'' 409))"
  using rs
proof (induction rs)
  case (Cons r rs)
  have "List.find (\<lambda>x. r_public_id x = r_public_id r \<and> r_is_active x) (db_rooms d) = Some r"
    using Cons.prems wf by (intro find_active_room) (simp_all add: db_wf_def)
  note eq = reserve_specific_room_eq[OF wf set m0 draft c slot this, of now]
  show ?case
  proof (cases "eligible E d c slot r")
    case True
    then show ?thesis by (simp add: eq eligible_def reserved_result_def Let_def)
  next
    case False
    then show ?thesis
      using Cons capacity_error_cases[of r slot d]
      by (cases "capacity_error r slot d") (auto simp: eq eligible_def)
  qed
qed simp

lemma set_candidate_rooms: "set (candidate_rooms E d) = {r \<in> set (db_rooms d). r_is_active r}"
  by (auto simp: candidate_rooms_def)

lemma allocate_eq:
  assumes wf: "db_wf d" and set: "settings_ok (e_settings E)"
    and m0: "get_meeting pk d = Some m0" and draft: "m_status m0 = DRAFT"
    and c: "get_client (m_integration_client m0) d = Some c"
    and slot: "interval E s e = Inr slot"
  shows "allocate_any_room E now pk s e d =
    (case List.find (eligible E d c slot) (candidate_rooms E d) of
       Some r \<Rightarrow> Inr (reserved_result E now m0 r s e slot d)
     | None \<Rightarrow> Inl (GatewayError ''NO_CAPACITY_AVAILABLE''
                 ''No meeting capacity is available for the requested time.'' 409))"
  unfolding allocate_any_room_def
  by (rule try_rooms_eq[OF assms]) (simp add: set_candidate_rooms)

lemma any_room_free_eq:
  assumes "db_wf d" and "c \<in> set (db_clients d)"
  shows "any_room_free E d c slot rs = Inr (\<exists>r \<in> set rs. eligible E d c slot r)"
proof (induction rs)
  case (Cons r rs)
  obtain b where "configured E d r c = Inr b" using configured_total[OF assms] by blast
  then show ?case using Cons by (auto simp: eligible_def)
qed simp

text \<open>The rooms are tried in the order of \<open>(priority, public_id)\<close>.\<close>

lemma find_sorted:
  assumes "sorted (map f xs)" and "List.find P xs = Some x" and "y \<in> set xs" and "P y"
  shows "f x \<le> f y"
  using assms by (induction xs) (auto split: if_splits)

lemma candidate_rooms_sorted:
  "sorted (map (\<lambda>r. (r_priority r, e_collate E (r_public_id r))) (candidate_rooms E d))"
  unfolding candidate_rooms_def by (rule sorted_sort_key)

lemma allocate_wf:
  assumes "db_wf d" and "allocate_any_room E now pk s e d = Inr (m, d')"
  shows "db_wf d'"
proof -
  have "db_wf d'" if "try_rooms E now pk ids s e d = Inr (m, d')" for ids
    using that
  proof (induction ids)
    case (Cons i ids)
    show ?case
    proof (cases "reserve_specific_room E now pk i s e d")
      case (Inl x)
      then show ?thesis using Cons by (cases x) (auto split: if_splits)
    next
      case (Inr a)
      then show ?thesis using Cons.prems reserve_wf[OF assms(1)] by (cases a) auto
    qed
  qed simp
  then show ?thesis using assms(2) by (auto simp: allocate_any_room_def)
qed

subsection \<open>Properties\<close>

definition reservation_of :: "env \<Rightarrow> int \<Rightarrow> meeting \<Rightarrow> room \<Rightarrow> datetime \<Rightarrow> datetime \<Rightarrow> meeting \<Rightarrow> bool" where
  "reservation_of E now m0 r s e m \<longleftrightarrow>
     m_status m0 = DRAFT \<and>
     m = m0\<lparr>m_room := Some (r_id r), m_start_at := Some (dt_instant s), m_end_at := Some (dt_instant e),
            m_reservation := Some
              (dt_instant s - ROOM_BUFFER_BEFORE_MINUTES (e_settings E) * minute_us,
               dt_instant e + ROOM_BUFFER_AFTER_MINUTES (e_settings E) * minute_us),
            m_reservation_active := True, m_status := RESERVED, m_updated_at := now\<rparr>"

definition only_meeting_changed :: "uuid \<Rightarrow> meeting \<Rightarrow> db \<Rightarrow> db \<Rightarrow> bool" where
  "only_meeting_changed pk m d d' \<longleftrightarrow>
     get_meeting pk d' = Some m \<and> (\<forall>k. k \<noteq> pk \<longrightarrow> get_meeting k d' = get_meeting k d) \<and>
     db_rooms d' = db_rooms d \<and> db_clients d' = db_clients d \<and> db_presets d' = db_presets d"

lemma only_meeting_changed_store:
  assumes "get_meeting pk d \<noteq> None" and "m_id m = pk"
    and "db_meetings d' = db_meetings (store db_meetings set_meetings m_id m d)"
    and "db_rooms d' = db_rooms d" "db_clients d' = db_clients d" "db_presets d' = db_presets d"
  shows "only_meeting_changed pk m d d'"
proof -
  have get: "get_meeting k d' = get_meeting k (store db_meetings set_meetings m_id m d)" for k
    by (rule fetch_cong) (rule assms(3))
  show ?thesis
    using assms meeting_tbl.fetch_store_same[of m d] meeting_tbl.fetch_store_other[of _ m d]
    by (simp add: only_meeting_changed_def get)
qed

text \<open>
  C4, one slot, one holder: a successful reservation comes from a draft and an active room with the
  requested public id, writes exactly that meeting's row (status \<open>RESERVED\<close>, the buffered half-open
  interval around the requested one, an active reservation), keeps every constraint of the schema,
  appends one audit record, and the reserved interval overlaps no other active reservation of the
  room.
\<close>

theorem reserve_specific_room_correct:
  assumes wf: "db_wf d"
    and res: "reserve_specific_room E now pk room_id s e d = Inr (m, d')"
  shows "db_wf d' \<and> only_meeting_changed pk m d d' \<and>
    (\<exists>a. db_audit d' = db_audit d @ [a] \<and> al_action a = ''slot_reserved'' \<and> al_object_id a = show_uuid pk) \<and>
    (\<exists>m0 r. get_meeting pk d = Some m0 \<and> r \<in> set (db_rooms d) \<and> r_public_id r = room_id \<and>
       r_is_active r \<and> reservation_of E now m0 r s e m \<and>
       (\<forall>x \<in> set (db_meetings d'). m_id x \<noteq> pk \<longrightarrow> m_reservation_active x \<longrightarrow>
          m_room x = Some (r_id r) \<longrightarrow> \<not> opt_overlap (m_reservation x) (m_reservation m)))"
proof -
  have wf': "db_wf d'" using wf res by (rule reserve_wf)
  from reserveD[OF res] obtain slot m0 r where
    slot: "interval E s e = Inr slot" and m0: "get_meeting pk d = Some m0" "m_status m0 = DRAFT"
    and r: "r \<in> set (db_rooms d)" "r_public_id r = room_id" "r_is_active r"
    and m: "m = (reserved_row m0 r s e slot)\<lparr>m_updated_at := now\<rparr>"
    and d': "d' = audit_meeting E now ''slot_reserved'' m (store db_meetings set_meetings m_id m d)"
    by blast
  have id: "m_id m = pk" using meeting_tbl.fetch_keyD[OF m0(1)] by (simp add: m)
  have one: "only_meeting_changed pk m d d'"
    by (rule only_meeting_changed_store) (simp_all add: m0 id d')
  have aud: "\<exists>a. db_audit d' = db_audit d @ [a] \<and> al_action a = ''slot_reserved'' \<and> al_object_id a = show_uuid pk"
    by (simp add: d' audit_meeting_def audit_def audit_record_def id)
  have row: "reservation_of E now m0 r s e m"
    using interval_Inr(4,5)[of E s e] slot m0(2)
    by (cases slot) (simp add: reservation_of_def m reserved_row_def)
  have "m \<in> set (db_meetings d')"
    using one meeting_tbl.fetch_mem unfolding only_meeting_changed_def by blast
  then have "\<not> room_conflict x m" if "x \<in> set (db_meetings d')" "m_id x \<noteq> pk" for x
    using wf' that id unfolding db_wf_def meetings_wf_def by auto
  then have "\<forall>x \<in> set (db_meetings d'). m_id x \<noteq> pk \<longrightarrow> m_reservation_active x \<longrightarrow>
      m_room x = Some (r_id r) \<longrightarrow> \<not> opt_overlap (m_reservation x) (m_reservation m)"
    by (auto simp: room_conflict_def m reserved_row_def)
  then show ?thesis using wf' one aud row m0(1) r by blast
qed

text \<open>
  C5, allocation is first fit: for a draft with a valid interval, allocation reserves the eligible
  active room that comes first by priority and then by public id in the database's collation, and it
  fails with \<open>NO_CAPACITY_AVAILABLE\<close> exactly when no active room is eligible.
\<close>

theorem allocate_any_room_first_fit:
  assumes wf: "db_wf d" and set: "settings_ok (e_settings E)"
    and m0: "get_meeting pk d = Some m0" and draft: "m_status m0 = DRAFT"
    and c: "get_client (m_integration_client m0) d = Some c"
    and slot: "interval E s e = Inr slot"
  shows "(\<forall>m d'. allocate_any_room E now pk s e d = Inr (m, d') \<longrightarrow>
      (\<exists>r \<in> set (db_rooms d). r_is_active r \<and> eligible E d c slot r \<and> reservation_of E now m0 r s e m \<and>
        (\<forall>r' \<in> set (db_rooms d). r_is_active r' \<longrightarrow> eligible E d c slot r' \<longrightarrow>
           (r_priority r, e_collate E (r_public_id r)) \<le> (r_priority r', e_collate E (r_public_id r'))))) \<and>
    (\<forall>x. allocate_any_room E now pk s e d = Inl x \<longleftrightarrow>
      x = GatewayError ''NO_CAPACITY_AVAILABLE'' ''No meeting capacity is available for the requested time.'' 409 \<and>
      (\<forall>r \<in> set (db_rooms d). r_is_active r \<longrightarrow> \<not> eligible E d c slot r))"
proof -
  note eq = allocate_eq[OF assms]
  show ?thesis
  proof (cases "List.find (eligible E d c slot) (candidate_rooms E d)")
    case None
    then have "\<forall>r \<in> set (db_rooms d). r_is_active r \<longrightarrow> \<not> eligible E d c slot r"
      using find_NoneD set_candidate_rooms[of E d] by fastforce
    with None show ?thesis by (auto simp: eq)
  next
    case (Some r)
    then have r: "r \<in> set (db_rooms d)" "r_is_active r" "eligible E d c slot r"
      using find_SomeD[OF Some] by (simp_all add: set_candidate_rooms)
    have first: "(r_priority r, e_collate E (r_public_id r)) \<le> (r_priority r', e_collate E (r_public_id r'))"
      if "r' \<in> set (db_rooms d)" "r_is_active r'" "eligible E d c slot r'" for r'
      using find_sorted[OF candidate_rooms_sorted Some, of r'] that by (simp add: set_candidate_rooms)
    have row: "reservation_of E now m0 r s e (fst (reserved_result E now m0 r s e slot d))"
      using interval_Inr(4,5)[of E s e] slot draft
      by (cases slot) (simp add: reservation_of_def reserved_result_def reserved_row_def Let_def)
    show ?thesis
    proof (intro conjI allI impI iffI)
      fix m d' assume "allocate_any_room E now pk s e d = Inr (m, d')"
      then have "reserved_result E now m0 r s e slot d = (m, d')" by (simp add: eq Some)
      then show "\<exists>r \<in> set (db_rooms d). r_is_active r \<and> eligible E d c slot r \<and> reservation_of E now m0 r s e m \<and>
        (\<forall>r' \<in> set (db_rooms d). r_is_active r' \<longrightarrow> eligible E d c slot r' \<longrightarrow>
           (r_priority r, e_collate E (r_public_id r)) \<le> (r_priority r', e_collate E (r_public_id r')))"
        using r first row by (intro bexI[of _ r] conjI ballI impI) auto
    qed (use r in \<open>auto simp: eq Some\<close>)
  qed
qed

text \<open>
  C9, the availability snapshot agrees with allocation: asked for a client and an interval on the
  database a draft of that client would be allocated in, it answers \<open>true\<close> exactly when allocation
  succeeds, and it never raises for a valid interval.
\<close>

theorem availability_iff_allocation:
  assumes wf: "db_wf d" and set: "settings_ok (e_settings E)"
    and m0: "get_meeting pk d = Some m0" and draft: "m_status m0 = DRAFT"
    and c: "get_client (m_integration_client m0) d = Some c"
    and slot: "interval E s e = Inr slot"
  shows "\<exists>a. availability E d c s e = Inr a \<and> av_start_at a = dt_instant s \<and> av_end_at a = dt_instant e \<and>
    (av_available a \<longleftrightarrow> (\<exists>m d'. allocate_any_room E now pk s e d = Inr (m, d')))"
proof -
  have free: "any_room_free E d c slot (candidate_rooms E d) =
      Inr (\<exists>r \<in> set (candidate_rooms E d). eligible E d c slot r)"
    using wf client_tbl.fetch_mem[OF c] by (rule any_room_free_eq)
  have "(\<exists>r \<in> set (candidate_rooms E d). eligible E d c slot r) \<longleftrightarrow>
      (\<exists>m d'. allocate_any_room E now pk s e d = Inr (m, d'))"
  proof (cases "List.find (eligible E d c slot) (candidate_rooms E d)")
    case None
    then show ?thesis using find_NoneD by (fastforce simp: allocate_eq[OF assms])
  next
    case (Some r)
    then show ?thesis using find_SomeD[OF Some]
      by (cases "reserved_result E now m0 r s e slot d") (auto simp: allocate_eq[OF assms])
  qed
  then show ?thesis by (simp add: availability_def slot free)
qed

text \<open>
  C10, the provider limit holds across reservations: after a draft is reserved in a room with a
  provider limit, no more meetings of the room are in a counted status than the limit allows.
\<close>

theorem reserve_respects_provider_limit:
  assumes wf: "db_wf d" and res: "reserve_specific_room E now pk room_id s e d = Inr (m, d')"
    and r: "r \<in> set (db_rooms d)" "r_public_id r = room_id" "r_provider_active_meeting_limit r = Some limit"
  shows "int (length (active_meetings r d')) \<le> limit"
proof -
  from reserveD[OF res] obtain slot m0 r' c where m0: "get_meeting pk d = Some m0" "m_status m0 = DRAFT"
    and r': "r' \<in> set (db_rooms d)" "r_public_id r' = room_id" and free: "eligible E d c slot r'"
    and m: "m = (reserved_row m0 r' s e slot)\<lparr>m_updated_at := now\<rparr>"
    and d': "d' = audit_meeting E now ''slot_reserved'' m (store db_meetings set_meetings m_id m d)"
    by blast
  have "r' = r"
    using wf r(1,2) r' unfolding db_wf_def rooms_wf_def distinct_map by (auto dest: inj_onD)
  with free r(3) have below: "int (length (active_meetings r d)) < limit"
    by (auto simp: eligible_def capacity_error_def split: if_splits)
  have "length (filter P (row_put m_id m ms)) \<le> Suc (length (filter P ms))"
    if "distinct (map m_id ms)" for P and ms :: "meeting list"
    using that by (induction ms) (auto simp: row_put_fresh image_iff)
  then have "length (active_meetings r d') \<le> Suc (length (active_meetings r d))"
    using wf by (simp add: active_meetings_def d' meeting_tbl.rows_of_store db_wf_def meetings_wf_def)
  then show ?thesis using below by linarith
qed

text \<open>
  The only errors of allocation are the gateway's own: from a well-formed database and a stored
  meeting, allocation either succeeds or raises a \<open>GatewayError\<close> with one of three codes; a lost
  race never shows as a database error.
\<close>

theorem allocate_errors:
  assumes wf: "db_wf d" and set: "settings_ok (e_settings E)"
    and m0: "get_meeting pk d = Some m0"
    and err: "allocate_any_room E now pk s e d = Inl x"
  shows "\<exists>code msg st. x = GatewayError code msg st \<and>
    code \<in> {''INVALID_INTERVAL'', ''INVALID_STATE'', ''NO_CAPACITY_AVAILABLE''}"
proof (cases "interval E s e")
  case (Inl y)
  obtain msg where y: "y = GatewayError ''INVALID_INTERVAL'' msg 400" using interval_errors[OF Inl] by blast
  have "try_rooms E now pk ids s e d \<in>
      {Inl y, Inl (GatewayError ''NO_CAPACITY_AVAILABLE''
                 ''No meeting capacity is available for the requested time.'' 409)}" for ids
    by (cases ids) (simp_all add: reserve_specific_room_def Inl y)
  from this[of "map r_public_id (candidate_rooms E d)"] err
  have "x = y \<or> x = GatewayError ''NO_CAPACITY_AVAILABLE''
                 ''No meeting capacity is available for the requested time.'' 409"
    by (simp add: allocate_any_room_def)
  then show ?thesis unfolding y by (elim disjE) (intro exI conjI, assumption, simp)+
next
  case (Inr slot)
  show ?thesis
  proof (cases "m_status m0 = DRAFT")
    case True
    obtain c where "get_client (m_integration_client m0) d = Some c"
      using wf meeting_tbl.fetch_mem[OF m0] by (auto simp: db_wf_def refs_wf_def)
    from allocate_eq[OF wf set m0 True this Inr, of now] err show ?thesis
      by (auto split: option.splits)
  next
    case False
    have "try_rooms E now pk ids s e d \<in>
        {Inl (GatewayError ''INVALID_STATE'' ''Meeting is already reserved or finalized.'' 409),
         Inl (GatewayError ''NO_CAPACITY_AVAILABLE''
                 ''No meeting capacity is available for the requested time.'' 409)}" for ids
      by (cases ids) (simp_all add: reserve_specific_room_def Inr m0 False)
    from this[of "map r_public_id (candidate_rooms E d)"] err
    have "x = GatewayError ''INVALID_STATE'' ''Meeting is already reserved or finalized.'' 409 \<or>
        x = GatewayError ''NO_CAPACITY_AVAILABLE''
                 ''No meeting capacity is available for the requested time.'' 409"
      by (simp add: allocate_any_room_def)
    then show ?thesis by (elim disjE) (intro exI conjI, assumption, simp)+
  qed
qed
subsection \<open>Witnesses\<close>

definition sample_start :: datetime where "sample_start = utc (3 * hour_us)"
definition sample_end :: datetime where "sample_end = utc (4 * hour_us)"

lemma sample_interval [simp]: "interval sample_env sample_start sample_end = Inr (3 * hour_us, 4 * hour_us)"
  by (simp add: interval_def sample_start_def sample_end_def utc_def is_naive_def hour_us_def
      sample_env_def sample_settings_def dt_shift_def dt_local_def min_local_def max_local_def)

lemma sample_draft_get [simp]: "get_meeting (UUID 31) sample_db = Some sample_draft"
  by (simp add: fetch_def sample_rows)

lemma sample_client_get [simp]: "get_client (UUID 21) sample_db = Some sample_client"
  by (simp add: fetch_def sample_rows)

lemma sample_decrypt: "decrypt sample_env ''1:kpw'' = Inr ''pw''"
  by (simp add: decrypt_def key_for_def sample_env_def sample_settings_def sample_fernet_decrypt_def
      starts_with_def)

lemma sample_config:
  "resolve_config sample_env sample_db sample_client sample_room_b =
     Inr [(''meetingType'', JStr ''instant''), (''bigMeeting'', JBool False),
          (''config'', JObj [(''MIC_OFF'', JBool True), (''CAMERA_OFF'', JBool True)])]"
  by (simp add: resolve_config_def config_layers_def client_preset_def default_preset_def sample_rows
      or_empty_def json_falsy_def apply_layer_def config_section_def validate_config_def validate_entry_def
      validate_setting_def validate_boolean_def validate_enum_def BOOLEAN_TOP_LEVEL_FIELDS_def
      BOOLEAN_CONFIG_FIELDS_def ENUM_CONFIG_FIELDS_def sample_env_def sample_settings_def
      dict_update_def Let_def)

lemma sample_eligible:
  "eligible sample_env sample_db sample_client (3 * hour_us, 4 * hour_us) sample_room_b"
proof -
  have "configured sample_env sample_db sample_room_b sample_client = Inr True"
    using sample_config sample_decrypt
    by (simp add: configured_def sample_room_b_def sample_room_a_def strip_def lstrip_def py_space_def)
  moreover have "capacity_error sample_room_b (3 * hour_us, 4 * hour_us) sample_db = None"
    by (simp add: capacity_error_def active_meetings_def counted_def sample_rows opt_overlap_def
        range_overlap_def hour_us_def)
  ultimately show ?thesis by (simp add: eligible_def)
qed

lemma sample_reserve:
  "reserve_specific_room sample_env 0 (UUID 31) ''room-b'' sample_start sample_end sample_db =
     Inr (reserved_result sample_env 0 sample_draft sample_room_b sample_start sample_end
            (3 * hour_us, 4 * hour_us) sample_db)"
proof -
  have "List.find (\<lambda>r. r_public_id r = ''room-b'' \<and> r_is_active r) (db_rooms sample_db) = Some sample_room_b"
    by (simp add: sample_rows)
  from reserve_specific_room_eq[OF sample_db_wf sample_settings_ok sample_draft_get _ _ sample_interval this,
      of sample_client 0] sample_eligible
  show ?thesis by (simp add: eligible_def reserved_result_def Let_def sample_draft_def)
qed

theorem reserve_specific_room_correct_witness:
  "\<exists>m d'. reserve_specific_room sample_env 0 (UUID 31) ''room-b'' sample_start sample_end sample_db = Inr (m, d') \<and>
     db_wf d' \<and> only_meeting_changed (UUID 31) m sample_db d'"
proof -
  obtain m d' where r: "reserved_result sample_env 0 sample_draft sample_room_b sample_start sample_end
      (3 * hour_us, 4 * hour_us) sample_db = (m, d')" by fastforce
  show ?thesis
    using reserve_specific_room_correct[OF sample_db_wf sample_reserve[unfolded r]] sample_reserve[unfolded r]
    by blast
qed

theorem allocate_any_room_first_fit_witness:
  "\<exists>m d'. allocate_any_room sample_env 0 (UUID 31) sample_start sample_end sample_db = Inr (m, d') \<and>
     (\<exists>r \<in> set (db_rooms sample_db). r_is_active r \<and>
        reservation_of sample_env 0 sample_draft r sample_start sample_end m)"
proof -
  have c: "get_client (m_integration_client sample_draft) sample_db = Some sample_client"
    by (simp add: sample_draft_def)
  note fit = allocate_any_room_first_fit[OF sample_db_wf sample_settings_ok sample_draft_get _ c sample_interval]
  have draft: "m_status sample_draft = DRAFT" by (simp add: sample_draft_def)
  have b: "sample_room_b \<in> set (db_rooms sample_db)" "r_is_active sample_room_b"
    by (simp_all add: sample_rows)
  show ?thesis
  proof (cases "allocate_any_room sample_env 0 (UUID 31) sample_start sample_end sample_db")
    case (Inl x)
    then show ?thesis using fit[OF draft, of 0] b sample_eligible by blast
  next
    case (Inr p)
    then show ?thesis using fit[OF draft, of 0] by (cases p) blast
  qed
qed

theorem availability_iff_allocation_witness:
  "\<exists>a. availability sample_env sample_db sample_client sample_start sample_end = Inr a \<and>
    (av_available a \<longleftrightarrow>
      (\<exists>m d'. allocate_any_room sample_env 0 (UUID 31) sample_start sample_end sample_db = Inr (m, d')))"
proof -
  have "get_client (m_integration_client sample_draft) sample_db = Some sample_client"
      "m_status sample_draft = DRAFT"
    by (simp_all add: sample_draft_def)
  then show ?thesis
    using availability_iff_allocation[OF sample_db_wf sample_settings_ok sample_draft_get _ _ sample_interval]
    by blast
qed

theorem reserve_respects_provider_limit_witness:
  "\<exists>m d'. reserve_specific_room sample_env 0 (UUID 31) ''room-b'' sample_start sample_end sample_db = Inr (m, d') \<and>
     int (length (active_meetings sample_room_b d')) \<le> 2"
proof -
  obtain m d' where r: "reserved_result sample_env 0 sample_draft sample_room_b sample_start sample_end
      (3 * hour_us, 4 * hour_us) sample_db = (m, d')" by fastforce
  have "int (length (active_meetings sample_room_b d')) \<le> 2"
    by (rule reserve_respects_provider_limit[OF sample_db_wf sample_reserve[unfolded r]])
      (simp_all add: sample_rows)
  then show ?thesis using sample_reserve[unfolded r] by blast
qed

theorem allocate_errors_witness:
  "\<exists>x code msg st. allocate_any_room sample_env 0 (UUID 32) sample_start sample_end sample_db = Inl x \<and>
     x = GatewayError code msg st \<and> code \<in> {''INVALID_INTERVAL'', ''INVALID_STATE'', ''NO_CAPACITY_AVAILABLE''}"
proof -
  have m: "get_meeting (UUID 32) sample_db = Some sample_ready"
    by (simp add: fetch_def sample_rows)
  have "m_status sample_ready \<noteq> DRAFT" by (simp add: sample_ready_def)
  then have "reserve_specific_room sample_env 0 (UUID 32) i sample_start sample_end sample_db =
      Inl (GatewayError ''INVALID_STATE'' ''Meeting is already reserved or finalized.'' 409)" for i
    by (simp add: reserve_specific_room_def m)
  then have "\<exists>x. try_rooms sample_env 0 (UUID 32) ids sample_start sample_end sample_db = Inl x" for ids
    by (cases ids) simp_all
  then obtain x where x: "allocate_any_room sample_env 0 (UUID 32) sample_start sample_end sample_db = Inl x"
    by (auto simp: allocate_any_room_def)
  then show ?thesis using allocate_errors[OF sample_db_wf sample_settings_ok m x] by blast
qed

end
