(* ===== verification/Urls.thy ===== *)
theory Urls
  imports Json
begin

text \<open>
  What the provider adapter uses of \<open>urllib.parse.urlsplit\<close> (Python 3.12) and of the
  \<open>ipaddress\<close> module behind it: the scheme, the network location and its user info and host, with
  the \<open>ValueError\<close> of an unbalanced or invalid bracketed host as \<open>None\<close>. The last part states what
  the accepted text of a URL looks like.
\<close>

subsection \<open>Splitting text\<close>

text \<open>\<open>s.partition(c)\<close> and \<open>s.rpartition(c)\<close>: the text before and after the first (last) \<open>c\<close>, and whether there is one.\<close>

definition partition_at :: "char \<Rightarrow> string \<Rightarrow> string \<times> bool \<times> string" where
  "partition_at c s = (case split_once c s of None \<Rightarrow> (s, False, []) | Some (a, b) \<Rightarrow> (a, True, b))"

definition rpartition_at :: "char \<Rightarrow> string \<Rightarrow> string \<times> bool \<times> string" where
  "rpartition_at c s = (case split_once c (rev s) of
     None \<Rightarrow> ([], False, s) | Some (a, b) \<Rightarrow> (rev b, True, rev a))"

fun split_on :: "char \<Rightarrow> string \<Rightarrow> string list" where
  "split_on c [] = [[]]"
| "split_on c (x # xs) =
     (if x = c then [] # split_on c xs
      else (case split_on c xs of [] \<Rightarrow> [[x]] | w # ws \<Rightarrow> (x # w) # ws))"

subsection \<open>Bracketed hosts\<close>

definition is_hex :: "char \<Rightarrow> bool" where
  "is_hex c \<longleftrightarrow> hex_val c \<noteq> None"

text \<open>\<open>IPv4Address\<close>: four decimal octets with no leading zero.\<close>

definition octet_ok :: "string \<Rightarrow> bool" where
  "octet_ok s \<longleftrightarrow> s \<noteq> [] \<and> list_all is_digit s \<and> length s \<le> 3 \<and>
     \<not> (s \<noteq> ''0'' \<and> hd s = CHR ''0'') \<and> nat_of_digits s \<le> 255"

definition ipv4_ok :: "string \<Rightarrow> bool" where
  "ipv4_ok s \<longleftrightarrow> length (split_on (CHR ''.'') s) = 4 \<and> list_all octet_ok (split_on (CHR ''.'') s)"

definition hextet_ok :: "string \<Rightarrow> bool" where
  "hextet_ok s \<longleftrightarrow> s \<noteq> [] \<and> list_all is_hex s \<and> length s \<le> 4"

text \<open>
  \<open>IPv6Address\<close>: an optional scope id after \<open>%\<close>, at least three parts between colons, an IPv4 tail
  standing for two parts, at most one \<open>::\<close>.
\<close>

definition ipv6_parts_ok :: "string list \<Rightarrow> bool" where
  "ipv6_parts_ok parts =
     (let inner = filter (\<lambda>i. parts ! i = []) [1..<length parts - 1] in
      if length parts > 9 \<or> length inner > 1 then False
      else (case inner of
          skip # _ \<Rightarrow>
            (let hi = skip; lo = length parts - skip - 1;
                 lead = parts ! 0 = []; trail = last parts = [];
                 hi' = (if lead then hi - 1 else hi); lo' = (if trail then lo - 1 else lo)
             in \<not> (lead \<and> hi' \<noteq> 0) \<and> \<not> (trail \<and> lo' \<noteq> 0) \<and> hi' + lo' < 8 \<and>
                list_all hextet_ok (take hi' parts) \<and>
                list_all hextet_ok (drop (length parts - lo') parts))
        | [] \<Rightarrow> length parts = 8 \<and> list_all hextet_ok parts))"

definition ipv6_ok :: "string \<Rightarrow> bool" where
  "ipv6_ok s =
     (case partition_at (CHR ''%'') s of (addr, scoped, scope) \<Rightarrow>
        if CHR ''/'' \<in> set s then False
        else if scoped \<and> (scope = [] \<or> CHR ''%'' \<in> set scope) then False
        else (let parts = split_on (CHR '':'') addr in
          if length parts < 3 then False
          else if CHR ''.'' \<in> set (last parts)
          then ipv4_ok (last parts) \<and> ipv6_parts_ok (butlast parts @ [''0'', ''0''])
          else ipv6_parts_ok parts))"

text \<open>\<open>_check_bracketed_host\<close>: an IPvFuture literal or an IPv6 address.\<close>

definition bracketed_host_ok :: "string \<Rightarrow> bool" where
  "bracketed_host_ok h =
     (if starts_with h ''v''
      then (case partition_at (CHR ''.'') (drop 1 h) of (hex, dot, rest) \<Rightarrow>
              hex \<noteq> [] \<and> list_all is_hex hex \<and> dot \<and> rest \<noteq> [])
      else ipv6_ok h)"

subsection \<open>\<open>urlsplit\<close>\<close>

definition is_ascii_alpha :: "char \<Rightarrow> bool" where
  "is_ascii_alpha c = (let n = (of_char c :: nat) in 65 \<le> n \<and> n \<le> 90 \<or> 97 \<le> n \<and> n \<le> 122)"

definition scheme_char :: "char \<Rightarrow> bool" where
  "scheme_char c \<longleftrightarrow> is_ascii_alpha c \<or> is_digit c \<or> c \<in> set ''+-.''"

definition url_clean :: "string \<Rightarrow> string" where
  "url_clean s = filter (\<lambda>c. c \<notin> {CHR 0x09, CHR 0x0D, CHR 0x0A}) (dropWhile (\<lambda>c. (of_char c :: nat) \<le> 32) s)"

definition split_scheme :: "string \<Rightarrow> string \<times> string" where
  "split_scheme s = (case split_once (CHR '':'') s of
     Some (a, b) \<Rightarrow>
       if a \<noteq> [] \<and> is_ascii_alpha (hd s) \<and> list_all scheme_char a then (lower a, b) else ([], s)
   | None \<Rightarrow> ([], s))"

definition netloc_of :: "string \<Rightarrow> string" where
  "netloc_of s = (if starts_with s ''//'' then takeWhile (\<lambda>c. c \<notin> set ''/?#'') (drop 2 s) else [])"

definition hostinfo :: "string \<Rightarrow> string" where
  "hostinfo netloc = (case rpartition_at (CHR ''@'') netloc of (_, _, h) \<Rightarrow> h)"

text \<open>\<open>_check_bracketed_netloc\<close> and the balance check before it.\<close>

definition netloc_ok :: "string \<Rightarrow> bool" where
  "netloc_ok n =
     (if (CHR ''['' \<in> set n) \<noteq> (CHR '']'' \<in> set n) then False
      else if CHR ''['' \<in> set n then
        (case partition_at (CHR ''['') (hostinfo n) of (front, open_br, inside) \<Rightarrow>
           if open_br then
             front = [] \<and>
             (case partition_at (CHR '']'') inside of (host, _, port) \<Rightarrow>
                (port = [] \<or> starts_with port '':'') \<and> bracketed_host_ok host)
           else bracketed_host_ok (fst (partition_at (CHR '':'') (hostinfo n))))
      else True)"

record split_result =
  sr_scheme :: string
  sr_netloc :: string

definition urlsplit :: "string \<Rightarrow> split_result option" where
  "urlsplit url =
     (case split_scheme (url_clean url) of (scheme, rest) \<Rightarrow>
        if netloc_ok (netloc_of rest)
        then Some \<lparr>sr_scheme = scheme, sr_netloc = netloc_of rest\<rparr> else None)"

definition has_username :: "split_result \<Rightarrow> bool" where
  "has_username r = (case rpartition_at (CHR ''@'') (sr_netloc r) of (_, found, _) \<Rightarrow> found)"

definition has_password :: "split_result \<Rightarrow> bool" where
  "has_password r = (case rpartition_at (CHR ''@'') (sr_netloc r) of (user, found, _) \<Rightarrow>
     found \<and> CHR '':'' \<in> set user)"

definition hostname :: "split_result \<Rightarrow> string option" where
  "hostname r =
     (let info = hostinfo (sr_netloc r);
          host = (case partition_at (CHR ''['') info of (_, open_br, inside) \<Rightarrow>
                    if open_br then fst (partition_at (CHR '']'') inside)
                    else fst (partition_at (CHR '':'') info))
      in if host = [] then None
         else (case partition_at (CHR ''%'') host of (h, pct, zone) \<Rightarrow>
                 Some (lower h @ (if pct then CHR ''%'' # zone else []))))"

subsection \<open>The text of an accepted URL\<close>

lemma lower_char_idem [simp]: "lower_char (lower_char c) = lower_char c"
proof -
  have "(of_char c :: nat) < 256" by simp
  then show ?thesis by (auto simp: lower_char_def Let_def of_char_of)
qed

lemma lower_idem [simp]: "lower (lower s) = lower s"
  by (simp add: lower_def)

lemma lower_append [simp]: "lower (a @ b) = lower a @ lower b"
  by (simp add: lower_def)

lemma lower_Nil [simp]: "lower [] = []" and lower_Nil_iff [simp]: "lower s = [] \<longleftrightarrow> s = []"
  by (simp_all add: lower_def)

lemma partition_at_no: "c \<notin> set s \<Longrightarrow> partition_at c s = (s, False, [])"
  by (induction s) (auto simp: partition_at_def split: option.splits)

lemma partition_at_text:
  "partition_at c s = (a, found, b) \<Longrightarrow> c \<notin> set a \<and> s = a @ (if found then c # b else [])"
proof (cases "split_once c s")
  case None
  then have "c \<notin> set s" by (induction s) (auto split: if_splits)
  with None show "partition_at c s = (a, found, b) \<Longrightarrow> ?thesis" by (auto simp: partition_at_def)
next
  case (Some p)
  then show "partition_at c s = (a, found, b) \<Longrightarrow> ?thesis"
    by (cases p) (auto simp: partition_at_def dest: split_once_SomeD)
qed

lemma split_once_None_iff: "split_once c s = None \<longleftrightarrow> c \<notin> set s"
  by (induction s) auto

lemma rpartition_at_no: "c \<notin> set s \<Longrightarrow> rpartition_at c s = ([], False, s)"
  by (simp add: rpartition_at_def split_once_None_iff[THEN iffD2])

lemma rpartition_at_found: "fst (snd (rpartition_at c s)) \<longleftrightarrow> c \<in> set s"
  using split_once_None_iff[of c "rev s"] by (auto simp: rpartition_at_def split: option.splits)

lemma starts_with_iff: "starts_with s p \<longleftrightarrow> (\<exists>r. s = p @ r)"
proof
  assume "starts_with s p"
  then have "s = p @ drop (length p) s" by (metis append_take_drop_id starts_with_def)
  then show "\<exists>r. s = p @ r" ..
qed (auto simp: starts_with_def)

lemma split_scheme_text:
  "split_scheme s = (sch, rest) \<Longrightarrow> sch \<noteq> [] \<Longrightarrow> \<exists>a. s = a @ CHR '':'' # rest \<and> lower a = sch"
  by (auto simp: split_scheme_def dest!: split_once_SomeD split: option.splits if_splits)

lemma netloc_of_text:
  assumes "netloc_of s \<noteq> []"
  shows "\<exists>tl. s = ''//'' @ netloc_of s @ tl \<and> (tl = [] \<or> hd tl \<in> set ''/?#'') \<and>
    set (netloc_of s) \<inter> set ''/?#'' = {}"
proof -
  define P where "P c \<longleftrightarrow> c \<notin> set ''/?#''" for c
  from assms have sw: "starts_with s ''//''" by (auto simp: netloc_of_def split: if_splits)
  then obtain r where r: "s = ''//'' @ r" by (auto simp: starts_with_iff)
  have n: "netloc_of s = takeWhile P r"
    using sw unfolding netloc_of_def r P_def[abs_def] by (simp del: list.set)
  have "dropWhile P r = [] \<or> hd (dropWhile P r) \<in> set ''/?#''"
    using hd_dropWhile[of P r] unfolding P_def by blast
  moreover have "set (takeWhile P r) \<inter> set ''/?#'' = {}"
    using set_takeWhileD[of _ P r] unfolding P_def by blast
  moreover have "s = ''//'' @ takeWhile P r @ dropWhile P r" using r by simp
  ultimately show ?thesis unfolding n by blast
qed

lemma https_host_text:
  assumes split: "urlsplit u = Some r" and https: "lower (sr_scheme r) = ''https''"
    and net: "sr_netloc r \<noteq> []" and plain: "CHR ''['' \<notin> set (sr_netloc r)"
    and user: "\<not> has_username r" and host: "hostname r = Some h"
  shows "\<exists>s hst tl. url_clean u = s @ ''://'' @ hst @ tl \<and> lower s = ''https'' \<and> hst \<noteq> [] \<and>
    (tl = [] \<or> hd tl \<in> set '':/?#'') \<and> set hst \<inter> set '':/?#@'' = {} \<and> lower hst = lower h"
proof -
  obtain sch rest where s: "split_scheme (url_clean u) = (sch, rest)" by fastforce
  with split have r: "sr_scheme r = sch" "sr_netloc r = netloc_of rest"
    by (auto simp: urlsplit_def split: if_splits)
  obtain a where a: "url_clean u = a @ CHR '':'' # rest" "lower a = sch"
    using split_scheme_text[OF s] https r by (cases "sch = []") auto
  obtain tl where tl: "rest = ''//'' @ netloc_of rest @ tl" "tl = [] \<or> hd tl \<in> set ''/?#''"
      "set (netloc_of rest) \<inter> set ''/?#'' = {}"
    using netloc_of_text[of rest] net r by auto
  have noat: "CHR ''@'' \<notin> set (netloc_of rest)"
    using user rpartition_at_found[of "CHR ''@''" "netloc_of rest"]
    by (auto simp: has_username_def r split: prod.splits)
  then have info: "hostinfo (netloc_of rest) = netloc_of rest"
    by (simp add: hostinfo_def rpartition_at_no)
  obtain hst colon port where p: "partition_at (CHR '':'') (netloc_of rest) = (hst, colon, port)"
    by (cases "partition_at (CHR '':'') (netloc_of rest)")
  have t: "CHR '':'' \<notin> set hst" "netloc_of rest = hst @ (if colon then CHR '':'' # port else [])"
    using partition_at_text[OF p] by simp_all
  obtain x pct zone where z: "partition_at (CHR ''%'') hst = (x, pct, zone)"
    by (cases "partition_at (CHR ''%'') hst")
  have "hostname r = (if hst = [] then None else Some (lower x @ (if pct then CHR ''%'' # zone else [])))"
    using plain by (simp add: hostname_def r info partition_at_no p z)
  then have h: "hst \<noteq> []" "h = lower x @ (if pct then CHR ''%'' # zone else [])"
    using host by (auto split: if_splits)
  have "lower hst = lower h"
    using partition_at_text[OF z] by (auto simp: h(2))
  moreover have "url_clean u = a @ ''://'' @ hst @ ((if colon then CHR '':'' # port else []) @ tl)"
  proof -
    have "rest = ''//'' @ (hst @ (if colon then CHR '':'' # port else [])) @ tl"
      using tl(1) unfolding t(2)[symmetric] .
    then show ?thesis using a(1) by simp
  qed
  moreover have "lower a = ''https''" using https unfolding r a(2)[symmetric] by simp
  moreover have "set hst \<inter> set '':/?#@'' = {}"
  proof -
    have "set hst \<subseteq> set (netloc_of rest)" unfolding t(2) by simp
    then have "c \<notin> set hst" if "c \<in> set '':/?#@''" for c
      using that t(1) noat tl(3) by auto
    then show ?thesis by blast
  qed
  moreover have "(if colon then CHR '':'' # port else []) @ tl = [] \<or>
      hd ((if colon then CHR '':'' # port else []) @ tl) \<in> set '':/?#''"
    using tl(2) by (cases colon) auto
  ultimately show ?thesis using h(1) by blast
qed

lemma set_split_scheme: "split_scheme s = (sch, rest) \<Longrightarrow> set rest \<subseteq> set s"
proof (cases "split_once (CHR '':'') s")
  case (Some p)
  obtain a b where p: "p = (a, b)" by (cases p)
  have "s = a @ CHR '':'' # b" using Some p by (auto dest: split_once_SomeD)
  then have "set b \<subseteq> set s" by auto
  then show "split_scheme s = (sch, rest) \<Longrightarrow> ?thesis"
    using Some p by (simp add: split_scheme_def split: if_splits)
qed (simp add: split_scheme_def)

lemma set_netloc_subset: "urlsplit url = Some u \<Longrightarrow> set (sr_netloc u) \<subseteq> set url"
proof -
  assume u: "urlsplit url = Some u"
  obtain sch rest where s: "split_scheme (url_clean url) = (sch, rest)" by fastforce
  have "set (netloc_of rest) \<subseteq> set rest"
    by (auto simp: netloc_of_def dest!: set_takeWhileD in_set_dropD)
  moreover have "set rest \<subseteq> set (url_clean url)" using s by (rule set_split_scheme)
  moreover have "set (url_clean url) \<subseteq> set url"
    by (auto simp: url_clean_def dest: set_dropWhileD)
  moreover have "sr_netloc u = netloc_of rest" using u s by (auto simp: urlsplit_def split: if_splits)
  ultimately show ?thesis by (metis subset_trans)
qed

end
