(* ===== verification/Convay.thy ===== *)
theory Convay
  imports Configuration Urls
begin

text \<open>
  \<open>apps/convay/client.py\<close>: the HTTP adapter of the provider. The answers of the network are the
  \<open>script\<close> of the world, one outcome per request with the time it took; everything the adapter does
  with an outcome is modelled: the classification of transport errors and statuses, the parsing of
  the two response bodies, and the ambiguity verdict on which the workflow rests. Logging is left
  out. A JWT's claims are read as bytes, so only ASCII keys and numbers matter; UTF-16 and UTF-32
  claims are outside the model.
\<close>

subsection \<open>The world outside the database\<close>

datatype transport_error = ConnectTimeout | ConnectError | PoolTimeout | UnsupportedProtocol | OtherRequestError

text \<open>\<open>PostRaises\<close> is any exception of \<open>post\<close> that is no \<open>httpx.RequestError\<close>; a response is its status and text.\<close>

datatype http_outcome =
    TransportError transport_error
  | PostRaises exn
  | Response int string

record request =
  rq_path :: string
  rq_payload :: json
  rq_token :: "string option"
  rq_room :: uuid

record world =
  w_db :: db
  w_now :: int
  w_script :: "nat \<Rightarrow> http_outcome \<times> nat"
  w_sent :: "request list"
  w_cache :: "(string \<times> string \<times> int) list"
  w_redis_up :: bool
  w_lock_busy :: bool

definition bind_w :: "('e + 'a) \<times> 's \<Rightarrow> ('a \<Rightarrow> 's \<Rightarrow> ('e + 'b) \<times> 's) \<Rightarrow> ('e + 'b) \<times> 's" where
  "bind_w r f = (case r of (Inl e, w) \<Rightarrow> (Inl e, w) | (Inr x, w) \<Rightarrow> f x w)"

lemma bind_w_simps [simp]:
  "bind_w (Inl e, w) f = (Inl e, w)"
  "bind_w (Inr x, w) f = f x w"
  by (simp_all add: bind_w_def)

lemma bind_w_cong [fundef_cong]:
  assumes "r = r'" and "\<And>x w. r' = (Inr x, w) \<Longrightarrow> f x w = f' x w"
  shows "bind_w r f = bind_w r' f'"
  using assms by (auto simp: bind_w_def split: prod.splits sum.splits)

text \<open>One \<open>http.post\<close>: the request is logged, the next outcome is taken, time passes.\<close>

definition send :: "request \<Rightarrow> world \<Rightarrow> http_outcome \<times> world" where
  "send rq w = (case w_script w (length (w_sent w)) of (out, us) \<Rightarrow>
     (out, w\<lparr>w_sent := w_sent w @ [rq], w_now := w_now w + int us\<rparr>))"

subsection \<open>Expiry hints\<close>

definition round_half_even :: "int \<Rightarrow> int \<Rightarrow> int" where
  "round_half_even n d =
     (let q = n div d; r = n mod d in
      if 2 * r < d \<or> 2 * r = d \<and> even q then q else q + 1)"

text \<open>Seconds as a float, in microseconds; \<open>None\<close> for a NaN or an infinity.\<close>

definition float_us :: "pyfloat \<Rightarrow> int option" where
  "float_us f = (case f of
     Decimal m e \<Rightarrow> Some (if e + 6 \<ge> 0 then m * 10 ^ nat (e + 6) else round_half_even m (10 ^ nat (- (e + 6))))
   | _ \<Rightarrow> None)"

text \<open>\<open>float(str)\<close>: sign, decimal digits with single underscores between digits, point, exponent.\<close>

fun underscores_ok :: "bool \<Rightarrow> string \<Rightarrow> bool" where
  "underscores_ok after_digit [] = True"
| "underscores_ok after_digit (c # cs) =
     (if c = CHR ''_'' then after_digit \<and> cs \<noteq> [] \<and> is_digit (hd cs) \<and> underscores_ok False cs
      else underscores_ok (is_digit c) cs)"

definition float_of_str :: "string \<Rightarrow> pyfloat option" where
  "float_of_str str =
     (let s = strip str;
          (neg, s1) = (case s of [] \<Rightarrow> (False, s)
             | c # cs \<Rightarrow> if c = CHR ''-'' then (True, cs) else if c = CHR ''+'' then (False, cs) else (False, s))
      in if lower s1 = ''nan'' then Some NaN
         else if lower s1 = ''inf'' \<or> lower s1 = ''infinity'' then Some (if neg then NegInf else PosInf)
         else if \<not> underscores_ok False s1 then None
         else (let s2 = filter (\<lambda>c. c \<noteq> CHR ''_'') s1;
                   ds = takeWhile is_digit s2; r = dropWhile is_digit s2;
                   (fs, r') = (case r of [] \<Rightarrow> ([], r)
                     | c # cs \<Rightarrow> if c = CHR ''.'' then (takeWhile is_digit cs, dropWhile is_digit cs) else ([], r));
                   (ex, r'') = scan_exp r'
               in if ds @ fs = [] \<or> r'' \<noteq> [] then None
                  else Some (Decimal (signed neg (nat_of_digits (ds @ fs)))
                         ((case ex of None \<Rightarrow> 0 | Some e \<Rightarrow> e) - int (length fs)))))"

text \<open>\<open>float(v)\<close> of a JSON value.\<close>

definition py_float :: "json \<Rightarrow> exn + pyfloat" where
  "py_float v = (case v of
     JInt i \<Rightarrow> Inr (Decimal i 0)
   | JBool b \<Rightarrow> Inr (Decimal (if b then 1 else 0) 0)
   | JFloat f \<Rightarrow> Inr f
   | JStr s \<Rightarrow> (case float_of_str s of None \<Rightarrow> Inl ValueError | Some f \<Rightarrow> Inr f)
   | _ \<Rightarrow> Inl TypeError)"

text \<open>\<open>binascii.a2b_base64\<close>, not strict: foreign characters are skipped, the padding that completes a group ends the input.\<close>

definition b64_val :: "char \<Rightarrow> nat option" where
  "b64_val c = (let n = (of_char c :: nat) in
     if 65 \<le> n \<and> n \<le> 90 then Some (n - 65)
     else if 97 \<le> n \<and> n \<le> 122 then Some (n - 71)
     else if 48 \<le> n \<and> n \<le> 57 then Some (n + 4)
     else if n = 43 then Some 62 else if n = 47 then Some 63 else None)"

fun b64_decode :: "nat \<Rightarrow> nat \<Rightarrow> nat \<Rightarrow> string \<Rightarrow> string option" where
  "b64_decode pos left pads [] = (if pos = 0 then Some [] else None)"
| "b64_decode pos left pads (c # cs) =
     (if c = CHR ''='' then
        (if pos \<ge> 2 \<and> pos + (pads + 1) \<ge> 4 then Some []
         else b64_decode pos left (if pos \<ge> 2 then pads + 1 else pads) cs)
      else (case b64_val c of
          None \<Rightarrow> b64_decode pos left pads cs
        | Some v \<Rightarrow>
            if pos = 0 then b64_decode 1 v 0 cs
            else if pos = 1 then map_option (\<lambda>r. char_of (left * 4 + v div 16) # r) (b64_decode 2 (v mod 16) 0 cs)
            else if pos = 2 then map_option (\<lambda>r. char_of (left * 16 + v div 4) # r) (b64_decode 3 (v mod 4) 0 cs)
            else map_option (\<lambda>r. char_of (left * 64 + v) # r) (b64_decode 0 0 0 cs)))"

definition urlsafe_b64decode :: "string \<Rightarrow> string option" where
  "urlsafe_b64decode s =
     (if list_all (\<lambda>c. (of_char c :: nat) < 128) s
      then b64_decode 0 0 0 (map (\<lambda>c. if c = CHR ''-'' then CHR ''+'' else if c = CHR ''_'' then CHR ''/'' else c) s)
      else None)"

definition utf8_cont :: "char \<Rightarrow> bool" where
  "utf8_cont c = (let n = (of_char c :: nat) in 128 \<le> n \<and> n < 192)"

fun utf8_ok :: "string \<Rightarrow> bool" where
  "utf8_ok [] = True"
| "utf8_ok (a # s) = (let n = (of_char a :: nat) in
     if n < 128 then utf8_ok s
     else if 194 \<le> n \<and> n < 224 then (case s of b # t \<Rightarrow> utf8_cont b \<and> utf8_ok t | _ \<Rightarrow> False)
     else if 224 \<le> n \<and> n < 240 then
       (case s of b # c # t \<Rightarrow> utf8_cont b \<and> utf8_cont c \<and> (n = 224 \<longrightarrow> 160 \<le> (of_char b :: nat)) \<and> utf8_ok t
        | _ \<Rightarrow> False)
     else if 240 \<le> n \<and> n < 245 then
       (case s of b # c # d # t \<Rightarrow> utf8_cont b \<and> utf8_cont c \<and> utf8_cont d \<and>
            (n = 240 \<longrightarrow> 144 \<le> (of_char b :: nat)) \<and> (n = 244 \<longrightarrow> (of_char b :: nat) < 144) \<and> utf8_ok t
        | _ \<Rightarrow> False)
     else False)"

definition loads_bytes :: "string \<Rightarrow> json option" where
  "loads_bytes s =
     (let t = (if starts_with s [CHR 0xEF, CHR 0xBB, CHR 0xBF] then drop 3 s else s)
      in if utf8_ok t then loads t else None)"

text \<open>The unverified \<open>exp\<close> claim of a JWT; every exception of the block is the missing hint.\<close>

definition jwt_expiry :: "string \<Rightarrow> datetime option" where
  "jwt_expiry token =
     (case split_on (CHR ''.'') token of
        _ # segment # _ \<Rightarrow>
          (case urlsafe_b64decode (segment @ replicate ((4 - length segment mod 4) mod 4) (CHR ''='')) of
             None \<Rightarrow> None
           | Some bytes \<Rightarrow>
               (case loads_bytes bytes of
                  Some (JObj claims) \<Rightarrow>
                    (case map_of claims ''exp'' of
                       None \<Rightarrow> None
                     | Some v \<Rightarrow>
                         (case py_float v of
                            Inl _ \<Rightarrow> None
                          | Inr f \<Rightarrow>
                              (case float_us f of
                                 None \<Rightarrow> None
                               | Some us \<Rightarrow>
                                   if min_local \<le> us \<and> us \<le> max_local then Some (utc us) else None)))
                | _ \<Rightarrow> None))
      | _ \<Rightarrow> None)"

subsection \<open>Authentication responses\<close>

definition is_JObj :: "json \<Rightarrow> bool" where
  "is_JObj v \<longleftrightarrow> (case v of JObj _ \<Rightarrow> True | _ \<Rightarrow> False)"

definition obj_get :: "json \<Rightarrow> string \<Rightarrow> json" where
  "obj_get v k = (case v of JObj kvs \<Rightarrow> (case map_of kvs k of None \<Rightarrow> JNull | Some x \<Rightarrow> x) | _ \<Rightarrow> JNull)"

text \<open>\<open>s.replace("Z", "+00:00")\<close>.\<close>

definition replace_z :: "string \<Rightarrow> string" where
  "replace_z s = concat (map (\<lambda>c. if c = CHR ''Z'' then ''+00:00'' else [c]) s)"

text \<open>
  The \<open>expiresAt\<close> and \<open>expiresIn\<close> members. Of the values that are no string, \<open>str(v)\<close> is an ISO
  date at most for an integer, and then a naive one.
\<close>

definition reported_expiry :: "env \<Rightarrow> int \<Rightarrow> json \<Rightarrow> exn + datetime option" where
  "reported_expiry E now data =
     (let at = obj_get data ''expiresAt''; secs = obj_get data ''expiresIn'' in
      if at \<noteq> JNull then
        (case at of
           JStr s \<Rightarrow> (case e_fromisoformat E (replace_z s) of
               None \<Rightarrow> Inl ValueError
             | Some d \<Rightarrow> if is_naive d then Inl ValueError else Inr (Some d))
         | _ \<Rightarrow> Inl ValueError)
      else if secs \<noteq> JNull then
        bind_r (py_float secs) (\<lambda>f.
          case float_us f of
            None \<Rightarrow> Inl ValueError
          | Some us \<Rightarrow> (case dt_shift (utc now) us of None \<Rightarrow> Inl ValueError | Some d \<Rightarrow> Inr (Some d)))
      else Inr None)"

definition min_expiry :: "datetime option \<Rightarrow> datetime \<Rightarrow> datetime" where
  "min_expiry a b = (case a of None \<Rightarrow> b | Some x \<Rightarrow> if dt_instant b < dt_instant x then b else x)"

text \<open>The token and its data; every exception of this block is a malformed response.\<close>

definition auth_token :: "dict \<Rightarrow> (string \<times> json) option" where
  "auth_token body =
     (if map_of body ''success'' \<noteq> Some (JBool True) then None
      else (case map_of body ''data'' of
          None \<Rightarrow> None
        | Some raw \<Rightarrow>
            (let data = (case raw of
                 JStr s \<Rightarrow> if starts_with (lstrip s) ''{'' then loads s else Some raw
               | _ \<Rightarrow> Some raw)
             in case data of
                  None \<Rightarrow> None
                | Some d \<Rightarrow>
                    (case (if is_JObj d then obj_get d ''accessToken'' else d) of
                       JStr t \<Rightarrow> if t = [] \<or> length t > 32768 then None else Some (t, d)
                     | _ \<Rightarrow> None))))"

definition normalize_auth :: "env \<Rightarrow> int \<Rightarrow> dict \<Rightarrow> exn + provider_auth_result" where
  "normalize_auth E now body =
     (case auth_token body of
        None \<Rightarrow> Inl (ProviderExn (ProviderError ''MALFORMED_AUTH_RESPONSE''))
      | Some (token, data) \<Rightarrow>
          (let refresh = (if is_JObj data
                  then (case obj_get data ''refreshToken'' of JNull \<Rightarrow> None | v \<Rightarrow> Some v) else None);
               hint = jwt_expiry token;
               expiry = (if is_JObj data
                  then (case reported_expiry E now data of
                          Inr (Some d) \<Rightarrow> Some (min_expiry hint d) | _ \<Rightarrow> hint)
                  else hint)
           in Inr \<lparr>access_token = token, refresh_token = refresh, expires_at = expiry\<rparr>))"

subsection \<open>Creation responses\<close>

text \<open>\<open>str(v)\<close> where \<open>isinstance(v, (str, int))\<close>; a Boolean is an integer in Python.\<close>

definition str_or_int :: "json \<Rightarrow> string option" where
  "str_or_int v = (case v of
     JStr s \<Rightarrow> Some s | JInt i \<Rightarrow> Some (show_int i)
   | JBool b \<Rightarrow> Some (if b then ''True'' else ''False'') | _ \<Rightarrow> None)"

definition trusted_host :: "settings \<Rightarrow> string option \<Rightarrow> bool" where
  "trusted_host S h = (case h of
     None \<Rightarrow> False
   | Some host \<Rightarrow> list_ex (\<lambda>suffix. host = suffix \<or> ends_with host (CHR ''.'' # suffix))
                    (CONVAY_TRUSTED_HOST_SUFFIXES S))"

definition url_trusted :: "settings \<Rightarrow> string \<Rightarrow> split_result \<Rightarrow> bool" where
  "url_trusted S start_url u \<longleftrightarrow>
     \<not> (start_url = [] \<or> length start_url > 16384 \<or> lower (sr_scheme u) \<noteq> ''https'' \<or> sr_netloc u = [] \<or>
        has_username u \<or> has_password u \<or> \<not> trusted_host S (hostname u))"

definition malformed_creation :: "exn" where
  "malformed_creation = ProviderExn ((ProviderError ''MALFORMED_CREATION_RESPONSE'')\<lparr>pe_ambiguous := True\<rparr>)"

definition response_invalid :: "provider_meeting_result \<Rightarrow> exn" where
  "response_invalid partial = ProviderExn ((ProviderError ''PROVIDER_RESPONSE_INVALID'')
     \<lparr>pe_known_created := True, pe_result := Some partial\<rparr>)"

definition creation_data :: "dict \<Rightarrow> exn + dict" where
  "creation_data body =
     (let raw = (case map_of body ''data'' of None \<Rightarrow> JObj body | Some v \<Rightarrow> v);
          data = (case raw of JStr s \<Rightarrow> loads s | _ \<Rightarrow> Some raw)
      in case data of Some (JObj d) \<Rightarrow> Inr d | _ \<Rightarrow> Inl malformed_creation)"

definition parse_meeting :: "settings \<Rightarrow> dict \<Rightarrow> exn + provider_meeting_result" where
  "parse_meeting S body =
     (if map_of body ''success'' = Some (JBool False)
      then Inl (ProviderExn (ProviderError ''PROVIDER_VALIDATION_ERROR''))
      else bind_r (creation_data body) (\<lambda>data.
        case str_or_int (obj_get (JObj data) ''calendarId'') of
          None \<Rightarrow> Inl malformed_creation
        | Some raw \<Rightarrow>
            (let calendar = strip raw;
                 panel = (case obj_get (JObj data) ''meetingPanelAddress'' of JStr s \<Rightarrow> Some (strip s) | _ \<Rightarrow> None);
                 unique = obj_get (JObj data) ''uniqueId'';
                 uid = map_option strip (str_or_int unique);
                 partial = \<lparr>calendar_id = calendar, meeting_panel_address = panel,
                            start_meeting_url = None, unique_id = uid\<rparr>
             in if calendar = [] \<or> length calendar > 200 then Inl malformed_creation
                else (case panel of
                    None \<Rightarrow> Inl (response_invalid partial)
                  | Some p \<Rightarrow>
                      if p = [] \<or> length p > 2000 \<or> list_ex (\<lambda>c. (of_char c :: nat) < 32) p
                      then Inl (response_invalid partial)
                      else if unique \<noteq> JNull \<and> (case uid of None \<Rightarrow> True | Some u \<Rightarrow> u = [] \<or> length u > 200)
                      then Inl (response_invalid partial)
                      else (case obj_get (JObj data) ''startMeetingUrl'' of
                          JStr raw_url \<Rightarrow>
                            (case urlsplit (strip raw_url) of
                               None \<Rightarrow> Inl ValueError
                             | Some u \<Rightarrow>
                                 if \<not> url_trusted S (strip raw_url) u then Inl (response_invalid partial)
                                 else Inr (partial\<lparr>start_meeting_url := Some (strip raw_url)\<rparr>))
                        | _ \<Rightarrow> Inl (response_invalid partial))))))"

subsection \<open>One request\<close>

definition status_error :: "bool \<Rightarrow> int \<Rightarrow> provider_error" where
  "status_error creation status =
     (let ambiguous = creation \<and> (status \<ge> 500 \<or> status = 408 \<or> 300 \<le> status \<and> status < 400);
          code = (if status = 400 \<or> status = 422 then ''PROVIDER_VALIDATION_ERROR''
            else if status = 401 then ''PROVIDER_AUTHENTICATION_ERROR''
            else if status = 403 then ''PROVIDER_AUTHORIZATION_ERROR''
            else if status = 404 then ''PROVIDER_ENDPOINT_ERROR''
            else if status = 429 then ''PROVIDER_RATE_LIMITED''
            else if ambiguous then ''PROVIDER_STATE_UNKNOWN''
            else if status \<ge> 500 then ''PROVIDER_UNAVAILABLE'' else ''PROVIDER_HTTP_ERROR'')
      in (ProviderError code)\<lparr>pe_ambiguous := ambiguous, pe_status_code := Some status\<rparr>)"

definition classify :: "bool \<Rightarrow> (dict \<Rightarrow> exn + 'a) \<Rightarrow> http_outcome \<Rightarrow> exn + 'a" where
  "classify creation parser out = (case out of
     TransportError OtherRequestError \<Rightarrow>
       Inl (ProviderExn ((ProviderError (if creation then ''PROVIDER_STATE_UNKNOWN'' else ''PROVIDER_UNAVAILABLE''))
              \<lparr>pe_ambiguous := creation\<rparr>))
   | TransportError _ \<Rightarrow> Inl (ProviderExn (ProviderError ''PROVIDER_UNAVAILABLE''))
   | PostRaises x \<Rightarrow> Inl x
   | Response status text_body \<Rightarrow>
       if \<not> (200 \<le> status \<and> status \<le> 299) then Inl (ProviderExn (status_error creation status))
       else
         (let unreadable = Inl (ProviderExn
                ((ProviderError (if creation then ''PROVIDER_STATE_UNKNOWN'' else ''MALFORMED_PROVIDER_RESPONSE''))
                 \<lparr>pe_ambiguous := creation, pe_status_code := Some status\<rparr>))
          in case loads text_body of
               Some (JObj body) \<Rightarrow>
                 (case parser body of
                    Inr r \<Rightarrow> Inr r
                  | Inl (ProviderExn e) \<Rightarrow> Inl (ProviderExn (e\<lparr>pe_status_code := Some status\<rparr>))
                  | Inl x \<Rightarrow> if x \<in> {ValueError, TypeError} then unreadable else Inl x)
             | _ \<Rightarrow> unreadable))"

definition post :: "request \<Rightarrow> bool \<Rightarrow> (world \<Rightarrow> dict \<Rightarrow> exn + 'a) \<Rightarrow> world \<Rightarrow> (exn + 'a) \<times> world" where
  "post rq creation parser w = (case send rq w of (out, w') \<Rightarrow> (classify creation (parser w') out, w'))"

definition authenticate :: "env \<Rightarrow> room \<Rightarrow> world \<Rightarrow> (exn + provider_auth_result) \<times> world" where
  "authenticate E r w =
     (case decrypt E (r_encrypted_password r) of
        Inl x \<Rightarrow> (Inl x, w)
      | Inr pw \<Rightarrow>
          post \<lparr>rq_path = CONVAY_AUTH_PATH (e_settings E),
                 rq_payload = JObj [(''username'', JStr (r_username r)), (''password'', JStr pw)],
                 rq_token = None, rq_room = r_id r\<rparr> False (\<lambda>w'. normalize_auth E (w_now w')) w)"

definition start_meeting :: "env \<Rightarrow> room \<Rightarrow> dict \<Rightarrow> string \<Rightarrow> world \<Rightarrow> (exn + provider_meeting_result) \<times> world" where
  "start_meeting E r payload token w =
     post \<lparr>rq_path = CONVAY_START_PATH (e_settings E), rq_payload = JObj payload,
            rq_token = (if token = [] then None else Some token), rq_room = r_id r\<rparr>
       True (\<lambda>_. parse_meeting (e_settings E)) w"

subsection \<open>What the classification promises\<close>

text \<open>
  The outcomes of a creation request after which the provider certainly holds no meeting: the
  connection was never made, the request was rejected with a status the contract calls definite, or
  the body says \<open>success: false\<close>.
\<close>

definition definite_rejection :: "http_outcome \<Rightarrow> bool" where
  "definite_rejection out \<longleftrightarrow> (case out of
     TransportError t \<Rightarrow> t \<noteq> OtherRequestError
   | PostRaises _ \<Rightarrow> False
   | Response status text_body \<Rightarrow>
       status < 200 \<or> 400 \<le> status \<and> status < 500 \<and> status \<noteq> 408 \<or>
       200 \<le> status \<and> status \<le> 299 \<and>
         (\<exists>b. loads text_body = Some (JObj b) \<and> map_of b ''success'' = Some (JBool False)))"

lemma status_error_sel:
  "pe_ambiguous (status_error creation status) \<longleftrightarrow>
     creation \<and> (status \<ge> 500 \<or> status = 408 \<or> 300 \<le> status \<and> status < 400)"
  "pe_known_created (status_error creation status) \<longleftrightarrow> False"
  "pe_status_code (status_error creation status) = Some status"
  by (simp_all add: status_error_def Let_def)

lemma creation_data_error: "creation_data body = Inl x \<Longrightarrow> x = malformed_creation"
  by (auto simp: creation_data_def Let_def split: option.splits json.splits)

lemma parse_meeting_rejected:
  "map_of body ''success'' = Some (JBool False) \<Longrightarrow>
     parse_meeting S body = Inl (ProviderExn (ProviderError ''PROVIDER_VALIDATION_ERROR''))"
  by (simp add: parse_meeting_def)

text \<open>Every other failure of the parser: ambiguous, known to be created with a partial result, or a \<open>ValueError\<close>.\<close>

lemma parse_meeting_errors:
  assumes "parse_meeting S body = Inl x" and "map_of body ''success'' \<noteq> Some (JBool False)"
  shows "x = malformed_creation \<or> x = ValueError \<or>
    (\<exists>res. x = response_invalid res \<and> calendar_id res \<noteq> [] \<and> length (calendar_id res) \<le> 200 \<and>
       start_meeting_url res = None)"
proof -
  obtain data where "creation_data body = Inr data \<or> x = malformed_creation"
    using assms creation_data_error[of body] by (cases "creation_data body") (auto simp: parse_meeting_def)
  moreover have ?thesis if data: "creation_data body = Inr data"
  proof (cases "str_or_int (obj_get (JObj data) ''calendarId'')")
    case None
    then show ?thesis using assms data by (simp add: parse_meeting_def)
  next
    case (Some raw)
    let ?panel = "obj_get (JObj data) ''meetingPanelAddress''"
    let ?url = "obj_get (JObj data) ''startMeetingUrl''"
    let ?partial = "\<lparr>calendar_id = strip raw,
        meeting_panel_address = (case ?panel of JStr s \<Rightarrow> Some (strip s) | _ \<Rightarrow> None),
        start_meeting_url = None, unique_id = map_option strip (str_or_int (obj_get (JObj data) ''uniqueId''))\<rparr>"
    show ?thesis
    proof (cases "strip raw = [] \<or> 200 < length (strip raw)")
      case True
      then show ?thesis using assms data Some by (simp add: parse_meeting_def Let_def)
    next
      case False
      have "x = response_invalid ?partial \<or> x = ValueError"
      proof (cases "\<exists>s. ?panel = JStr s")
        case None: False
        then have "(case ?panel of JStr s \<Rightarrow> Some (strip s) | _ \<Rightarrow> None) = None" by (cases ?panel) auto
        then show ?thesis using assms data Some False by (simp add: parse_meeting_def Let_def)
      next
        case s: True
        show ?thesis
        proof (cases "\<exists>r. ?url = JStr r")
          case noturl: False
          have "(case ?url of JStr r \<Rightarrow> f r | _ \<Rightarrow> y) = y" for f and y :: "exn + provider_meeting_result"
            using noturl by (cases ?url) auto
          then show ?thesis using assms data Some False s by (auto simp: parse_meeting_def Let_def split: if_splits)
        next
          case r: True
          then show ?thesis using assms data Some False s
            by (auto simp: parse_meeting_def Let_def split: if_splits option.splits)
        qed
      qed
      then show ?thesis using False by auto
    qed
  qed
  ultimately show ?thesis by blast
qed

lemma parse_meeting_ok:
  assumes "parse_meeting S body = Inr res"
  shows "\<exists>p url u. meeting_panel_address res = Some p \<and> start_meeting_url res = Some url \<and>
    urlsplit url = Some u \<and> url_trusted S url u \<and>
    calendar_id res \<noteq> [] \<and> length (calendar_id res) \<le> 200 \<and>
    p \<noteq> [] \<and> length p \<le> 2000 \<and> \<not> list_ex (\<lambda>c. (of_char c :: nat) < 32) p \<and>
    (\<forall>i. unique_id res = Some i \<longrightarrow> i \<noteq> [] \<and> length i \<le> 200)"
proof -
  from assms obtain data raw where data: "map_of body ''success'' \<noteq> Some (JBool False)"
      "creation_data body = Inr data" "str_or_int (obj_get (JObj data) ''calendarId'') = Some raw"
    by (auto simp: parse_meeting_def bind_r_Inr_iff split: if_splits option.splits)
  let ?panel = "obj_get (JObj data) ''meetingPanelAddress''"
  let ?url = "obj_get (JObj data) ''startMeetingUrl''"
  note eq = assms[unfolded parse_meeting_def] data
  obtain s where s: "?panel = JStr s" using eq by (cases ?panel) (auto simp: Let_def split: if_splits)
  obtain r where r: "?url = JStr r" using eq s by (cases ?url) (auto simp: Let_def split: if_splits)
  obtain u where u: "urlsplit (strip r) = Some u"
    using eq s r by (cases "urlsplit (strip r)") (auto simp: Let_def split: if_splits)
  let ?partial = "\<lparr>calendar_id = strip raw, meeting_panel_address = Some (strip s),
      start_meeting_url = None, unique_id = map_option strip (str_or_int (obj_get (JObj data) ''uniqueId''))\<rparr>"
  have cal: "strip raw \<noteq> [] \<and> length (strip raw) \<le> 200"
  proof (rule ccontr)
    assume "\<not> ?thesis"
    then have "strip raw = [] \<or> length (strip raw) > 200" by (simp only: de_Morgan_conj not_not not_le)
    then show False using eq s r u by (simp add: Let_def)
  qed
  have pan: "strip s \<noteq> [] \<and> length (strip s) \<le> 2000 \<and> \<not> list_ex (\<lambda>c. (of_char c :: nat) < 32) (strip s)"
  proof (rule ccontr)
    assume "\<not> ?thesis"
    then have "strip s = [] \<or> length (strip s) > 2000 \<or> list_ex (\<lambda>c. (of_char c :: nat) < 32) (strip s)"
      by (simp only: de_Morgan_conj not_not not_le)
    then show False using eq s r u cal by (simp add: Let_def)
  qed
  have uid: "i \<noteq> [] \<and> length i \<le> 200" if un: "unique_id ?partial = Some i" for i
  proof (rule ccontr)
    assume bad: "\<not> (i \<noteq> [] \<and> length i \<le> 200)"
    obtain z where z: "str_or_int (obj_get (JObj data) ''uniqueId'') = Some z" "i = strip z"
      using un by auto
    have "obj_get (JObj data) ''uniqueId'' \<noteq> JNull" using z by (auto simp: str_or_int_def)
    moreover have "strip z = [] \<or> length (strip z) > 200"
      using bad unfolding z(2) by (simp only: de_Morgan_conj not_not not_le)
    ultimately show False using eq s r u cal pan z(1) by (simp add: Let_def)
  qed
  have "res = ?partial\<lparr>start_meeting_url := Some (strip r)\<rparr>" and "url_trusted S (strip r) u"
    using eq s r u cal pan by (simp_all add: Let_def split: if_splits)
  then show ?thesis using u cal pan uid by simp
qed

subsection \<open>Properties of the adapter\<close>

lemma creation_verdict_aux:
  assumes err: "classify True (parse_meeting S) out = Inl (ProviderExn e)"
    and direct: "\<And>x. out \<noteq> PostRaises x"
  shows "(\<not> pe_ambiguous e \<and> \<not> pe_known_created e \<longleftrightarrow> definite_rejection out) \<and>
    (pe_known_created e \<longrightarrow> \<not> pe_ambiguous e \<and>
       (\<exists>res. pe_result e = Some res \<and> calendar_id res \<noteq> [] \<and> length (calendar_id res) \<le> 200))"
proof (cases out)
  case (TransportError t)
  then show ?thesis using err by (cases t) (auto simp: classify_def definite_rejection_def)
next
  case (PostRaises x)
  then show ?thesis using direct by blast
next
  case (Response status body_text)
  show ?thesis
  proof (cases "200 \<le> status \<and> status \<le> 299")
    case False
    then have e: "e = status_error True status" using err by (simp add: Response classify_def)
    have "definite_rejection out \<longleftrightarrow> status < 200 \<or> 400 \<le> status \<and> status < 500 \<and> status \<noteq> 408"
      using False by (auto simp: Response definite_rejection_def)
    also have "\<dots> \<longleftrightarrow> \<not> (status \<ge> 500 \<or> status = 408 \<or> 300 \<le> status \<and> status < 400)"
      using False by arith
    finally show ?thesis unfolding e by (simp add: status_error_sel)
  next
    case True
    show ?thesis
    proof (cases "\<exists>b. loads body_text = Some (JObj b)")
      case False
      then have e: "e = (ProviderError ''PROVIDER_STATE_UNKNOWN'')
          \<lparr>pe_ambiguous := True, pe_status_code := Some status\<rparr>"
        using err True by (auto simp: Response classify_def Let_def split: option.splits json.splits)
      then show ?thesis using True False by (auto simp: Response definite_rejection_def)
    next
      case True2: True
      then obtain b where b: "loads body_text = Some (JObj b)" by blast
      show ?thesis
      proof (cases "map_of b ''success'' = Some (JBool False)")
        case t: True
        then show ?thesis using err True
          by (auto simp: Response b classify_def definite_rejection_def Let_def parse_meeting_rejected)
      next
        case f: False
        have "\<not> definite_rejection out" using True b f by (simp add: Response definite_rejection_def)
        moreover obtain x where x: "parse_meeting S b = Inl x"
          using err True b by (auto simp: Response classify_def Let_def split: sum.splits)
        ultimately show ?thesis
          using parse_meeting_errors[OF x f] err True b
          by (auto simp: Response classify_def Let_def malformed_creation_def response_invalid_def)
      qed
    qed
  qed
qed



text \<open>
  C35, an accepted start URL leads to a trusted host: when the creation response is accepted, its
  start URL without control characters is \<open>https://\<close> followed by a host text with no user info that
  is one of the configured suffixes or a subdomain of one, up to letter case, and then the end, a
  port, path, query or fragment; the exception is a bracketed host.
\<close>

theorem accepted_start_url_host:
  assumes ok: "parse_meeting S body = Inr res"
    and url: "start_meeting_url res = Some url"
    and plain: "CHR ''['' \<notin> set url"
  shows "\<exists>s host tl suffix. url_clean url = s @ ''://'' @ host @ tl \<and> lower s = ''https'' \<and>
    (tl = [] \<or> hd tl \<in> set '':/?#'') \<and> set host \<inter> set '':/?#@'' = {} \<and>
    suffix \<in> set (CONVAY_TRUSTED_HOST_SUFFIXES S) \<and>
    (lower host = lower suffix \<or> ends_with (lower host) (CHR ''.'' # lower suffix))"
proof -
  obtain u where u: "urlsplit url = Some u" "url_trusted S url u"
    using parse_meeting_ok[OF ok] url by auto
  then obtain h where h: "hostname u = Some h" "trusted_host S (Some h)"
    by (cases "hostname u") (auto simp: url_trusted_def trusted_host_def)
  have "set (sr_netloc u) \<subseteq> set url" using u(1) by (rule set_netloc_subset)
  then have np: "CHR ''['' \<notin> set (sr_netloc u)" using plain by blast
  have "lower (sr_scheme u) = ''https''" "sr_netloc u \<noteq> []" "\<not> has_username u"
    using u(2) unfolding url_trusted_def by blast+
  from https_host_text[OF u(1) this(1,2) np this(3) h(1)] obtain s hst tl where
    t: "url_clean url = s @ ''://'' @ hst @ tl" "lower s = ''https''"
      "tl = [] \<or> hd tl \<in> set '':/?#''" "set hst \<inter> set '':/?#@'' = {}" "lower hst = lower h"
    by blast
  obtain suffix where suf: "suffix \<in> set (CONVAY_TRUSTED_HOST_SUFFIXES S)"
      "h = suffix \<or> ends_with h (CHR ''.'' # suffix)"
    using h(2) by (auto simp: trusted_host_def list_ex_iff)
  have dot: "lower (CHR ''.'' # x) = CHR ''.'' # lower x" for x
    by (simp add: lower_def lower_char_def)
  have "ends_with (lower h) (CHR ''.'' # lower suffix)" if "ends_with h (CHR ''.'' # suffix)"
    unfolding dot[symmetric]
    using that unfolding ends_with_def by (simp add: lower_def drop_map)
  then have "lower hst = lower suffix \<or> ends_with (lower hst) (CHR ''.'' # lower suffix)"
    using suf(2) t(5) by auto
  then show ?thesis using t(1-4) suf(1) by blast
qed

definition sample_creation :: "string \<Rightarrow> dict" where
  "sample_creation url = [(''success'', JBool True), (''data'', JObj
     [(''calendarId'', JStr ''c7''), (''meetingPanelAddress'', JStr ''p''), (''startMeetingUrl'', JStr url)])]"

lemmas url_simps = urlsplit_def url_clean_def split_scheme_def is_ascii_alpha_def scheme_char_def
  is_digit_def lower_def lower_char_def netloc_of_def starts_with_def netloc_ok_def hostinfo_def
  partition_at_def rpartition_at_def url_trusted_def has_username_def has_password_def
  trusted_host_def hostname_def ends_with_def bracketed_host_ok_def ipv6_ok_def ipv6_parts_ok_def
  hextet_ok_def is_hex_def hex_val_def

lemmas creation_simps = sample_creation_def parse_meeting_def creation_data_def obj_get_def
  str_or_int_def strip_def lstrip_def py_space_def sample_settings_def

lemma sample_accepted:
  "parse_meeting sample_settings (sample_creation ''https://m.convay.com/x'') =
     Inr \<lparr>calendar_id = ''c7'', meeting_panel_address = Some ''p'',
          start_meeting_url = Some ''https://m.convay.com/x'', unique_id = None\<rparr>"
proof -
  have "urlsplit ''https://m.convay.com/x'' =
      Some \<lparr>sr_scheme = ''https'', sr_netloc = ''m.convay.com''\<rparr>"
    by (simp add: url_simps)
  moreover have "url_trusted sample_settings ''https://m.convay.com/x''
      \<lparr>sr_scheme = ''https'', sr_netloc = ''m.convay.com''\<rparr>"
    by (simp add: url_simps sample_settings_def)
  ultimately show ?thesis by (simp add: creation_simps)
qed

theorem accepted_start_url_host_witness:
  "\<exists>s host tl suffix. url_clean ''https://m.convay.com/x'' = s @ ''://'' @ host @ tl \<and>
     suffix \<in> set (CONVAY_TRUSTED_HOST_SUFFIXES sample_settings) \<and>
     (lower host = lower suffix \<or> ends_with (lower host) (CHR ''.'' # lower suffix))"
proof -
  let ?res = "\<lparr>calendar_id = ''c7'', meeting_panel_address = Some ''p'',
      start_meeting_url = Some ''https://m.convay.com/x'', unique_id = None\<rparr>"
  have "start_meeting_url ?res = Some ''https://m.convay.com/x''" "CHR ''['' \<notin> set ''https://m.convay.com/x''"
    by simp_all
  from accepted_start_url_host[OF sample_accepted this] show ?thesis by blast
qed

text \<open>
  The expiry kept for a token is conservative: an accepted authentication yields a non-empty
  token of bounded length, and its expiry is no later than the unverified \<open>exp\<close> claim and no later
  than the expiry the provider reports, whichever of them can be read.
\<close>

theorem auth_expiry_conservative:
  assumes ok: "normalize_auth E now body = Inr a"
  shows "access_token a \<noteq> [] \<and> length (access_token a) \<le> 32768 \<and>
    (\<forall>hint. jwt_expiry (access_token a) = Some hint \<longrightarrow>
       (\<exists>e. expires_at a = Some e \<and> dt_instant e \<le> dt_instant hint)) \<and>
    (\<forall>data d. auth_token body = Some (access_token a, data) \<longrightarrow> is_JObj data \<longrightarrow>
       reported_expiry E now data = Inr (Some d) \<longrightarrow>
       (\<exists>e. expires_at a = Some e \<and> dt_instant e \<le> dt_instant d))"
proof -
  obtain t data where t: "auth_token body = Some (t, data)"
    using ok by (cases "auth_token body") (auto simp: normalize_auth_def)
  have bound: "t \<noteq> [] \<and> length t \<le> 32768"
  proof -
    have "(case (if is_JObj d then obj_get d ''accessToken'' else d) of
        JStr t \<Rightarrow> if t = [] \<or> length t > 32768 then None else Some (t, d) | _ \<Rightarrow> None) = Some (t, data) \<Longrightarrow>
      t \<noteq> [] \<and> length t \<le> 32768" for d
      by (cases "if is_JObj d then obj_get d ''accessToken'' else d") (auto split: if_splits)
    then show ?thesis using t by (auto simp: auth_token_def Let_def split: if_splits option.splits)
  qed
  have a: "access_token a = t"
    "expires_at a = (if is_JObj data
       then (case reported_expiry E now data of
               Inr (Some d) \<Rightarrow> Some (min_expiry (jwt_expiry t) d) | _ \<Rightarrow> jwt_expiry t)
       else jwt_expiry t)"
    using ok t by (auto simp: normalize_auth_def Let_def)
  have "\<exists>e. expires_at a = Some e \<and> dt_instant e \<le> dt_instant hint" if "jwt_expiry t = Some hint" for hint
    unfolding a(2) using that by (auto simp: min_expiry_def split: sum.splits option.splits)
  moreover have "\<exists>e. expires_at a = Some e \<and> dt_instant e \<le> dt_instant d"
    if "is_JObj data" "reported_expiry E now data = Inr (Some d)" for d
    unfolding a(2) using that by (auto simp: min_expiry_def split: option.splits)
  ultimately show ?thesis using bound t by (simp add: a(1))
qed

theorem auth_expiry_conservative_witness:
  "\<exists>a. normalize_auth sample_env 0 [(''success'', JBool True), (''data'', JObj
      [(''accessToken'', JStr ''tok''), (''expiresIn'', JInt 900)])] = Inr a \<and>
     (\<exists>e. expires_at a = Some e \<and> dt_instant e \<le> 900 * second_us)"
proof -
  let ?data = "JObj [(''accessToken'', JStr ''tok''), (''expiresIn'', JInt 900)]"
  let ?body = "[(''success'', JBool True), (''data'', ?data)]"
  let ?d = "utc (900 * second_us)"
  have t: "auth_token ?body = Some (''tok'', ?data)"
    by (simp add: auth_token_def is_JObj_def obj_get_def)
  have d: "reported_expiry sample_env 0 ?data = Inr (Some ?d)"
    by (simp add: reported_expiry_def obj_get_def py_float_def float_us_def dt_shift_def utc_def dt_local_def
        min_local_def max_local_def second_us_def)
  have hint: "jwt_expiry ''tok'' = None" by (simp add: jwt_expiry_def)
  have ok: "normalize_auth sample_env 0 ?body = Inr
      \<lparr>access_token = ''tok'', refresh_token = None, expires_at = Some ?d\<rparr>"
    using t d hint by (simp add: normalize_auth_def is_JObj_def obj_get_def min_expiry_def)
  have "\<exists>e. expires_at \<lparr>access_token = ''tok'', refresh_token = None, expires_at = Some ?d\<rparr> = Some e \<and>
      dt_instant e \<le> dt_instant ?d"
    using auth_expiry_conservative[OF ok] t d by (simp add: is_JObj_def)
  then show ?thesis unfolding ok by (auto simp: utc_def)
qed

text \<open>
  Two gaps of the trusted-host check: a start URL whose host text hides a foreign host before a
  backslash (which browsers read as the end of the host) is accepted, and so is a bracketed IPv6
  literal whose zone id ends with a trusted suffix.
\<close>

theorem untrusted_start_urls_accepted:
  "start_meeting_url (projr (parse_meeting sample_settings
      (sample_creation (''https://evil.example'' @ CHR 0x5C # ''.convay.com/x'')))) =
     Some (''https://evil.example'' @ CHR 0x5C # ''.convay.com/x'') \<and>
   start_meeting_url (projr (parse_meeting sample_settings
      (sample_creation ''https://[fe80::1%25.convay.com]/x''))) =
     Some ''https://[fe80::1%25.convay.com]/x''"
proof -
  have p: "start_meeting_url (projr (parse_meeting sample_settings (sample_creation url))) = Some url"
    if "urlsplit url = Some u" "url_trusted sample_settings url u" "strip url = url" for url u
    using that by (simp add: sample_creation_def parse_meeting_def creation_data_def obj_get_def str_or_int_def
        strip_def[of "''c7''"] strip_def[of "''p''"] lstrip_def py_space_def)
  have u1: "urlsplit (''https://evil.example'' @ CHR 0x5C # ''.convay.com/x'') =
      Some \<lparr>sr_scheme = ''https'', sr_netloc = ''evil.example'' @ CHR 0x5C # ''.convay.com''\<rparr>"
    and t1: "url_trusted sample_settings (''https://evil.example'' @ CHR 0x5C # ''.convay.com/x'')
      \<lparr>sr_scheme = ''https'', sr_netloc = ''evil.example'' @ CHR 0x5C # ''.convay.com''\<rparr>"
    and s1: "strip (''https://evil.example'' @ CHR 0x5C # ''.convay.com/x'') =
      ''https://evil.example'' @ CHR 0x5C # ''.convay.com/x''"
    by (simp_all add: url_simps sample_settings_def strip_def lstrip_def py_space_def)
  have u2: "urlsplit ''https://[fe80::1%25.convay.com]/x'' =
      Some \<lparr>sr_scheme = ''https'', sr_netloc = ''[fe80::1%25.convay.com]''\<rparr>"
    and t2: "url_trusted sample_settings ''https://[fe80::1%25.convay.com]/x''
      \<lparr>sr_scheme = ''https'', sr_netloc = ''[fe80::1%25.convay.com]''\<rparr>"
    and s2: "strip ''https://[fe80::1%25.convay.com]/x'' = ''https://[fe80::1%25.convay.com]/x''"
    by (simp_all add: url_simps sample_settings_def strip_def lstrip_def py_space_def)
  show ?thesis using p[OF u1 t1 s1] p[OF u2 t2 s2] by blast
qed

text \<open>
  A malformed bracketed start URL hides a confirmed creation: for such a response, whose
  calendar id and panel address are well formed, the adapter reports an unknown provider state
  with no result, not a known creation with the partial result, under every configuration.
\<close>

theorem bracketed_start_url_loses_calendar:
  "classify True (parse_meeting S) (Response 200 (dumps (JObj (sample_creation ''https://[x''))))
     = Inl (ProviderExn \<lparr>pe_code = ''PROVIDER_STATE_UNKNOWN'', pe_ambiguous = True,
         pe_status_code = Some 200, pe_known_created = False, pe_result = None\<rparr>)"
proof -
  have "loads (dumps (JObj (sample_creation ''https://[x''))) = Some (JObj (sample_creation ''https://[x''))"
    by (rule loads_dumps) (simp add: sample_creation_def)
  moreover have "parse_meeting S (sample_creation ''https://[x'') = Inl ValueError"
  proof -
    have "urlsplit ''https://[x'' = None" by (simp add: url_simps)
    then show ?thesis by (simp add: sample_creation_def parse_meeting_def creation_data_def obj_get_def
        str_or_int_def strip_def lstrip_def py_space_def)
  qed
  ultimately show ?thesis by (simp add: classify_def ProviderError_def)
qed

end
