(* ===== verification/Tokens.thy ===== *)
theory Tokens
  imports Convay
begin

text \<open>
  \<open>apps/convay/tokens.py\<close>: the shared token cache in Redis, one entry per room and credential
  version under a lock. The cache is a list of keys with a value and an expiry instant; the lock's
  fate is the world's (\<open>w_lock_busy\<close>: not acquired within 10 seconds), and a body that outlives the
  lock's 60 seconds fails to release it. The adapter itself is the only writer of the cache and the
  cipher authenticates its entries, so a cached token that is no text counts as a corrupt entry.
\<close>

subsection \<open>Keys\<close>

definition token_key :: "room \<Rightarrow> string" where
  "token_key r = ''convay:room:'' @ show_uuid (r_id r) @ '':v'' @ show_nat (r_credential_version r) @
     '':access_token''"

subsection \<open>The cache\<close>

definition cache_get :: "string \<Rightarrow> world \<Rightarrow> string option" where
  "cache_get key w = (case map_of (w_cache w) key of
     None \<Rightarrow> None | Some (v, until) \<Rightarrow> if w_now w < until then Some v else None)"

definition cache_delete :: "string \<Rightarrow> world \<Rightarrow> world" where
  "cache_delete key w = w\<lparr>w_cache := dict_pop key (w_cache w)\<rparr>"

definition cache_setex :: "string \<Rightarrow> int \<Rightarrow> string \<Rightarrow> world \<Rightarrow> world" where
  "cache_setex key ttl v w = w\<lparr>w_cache := dict_set key (v, w_now w + ttl * second_us) (w_cache w)\<rparr>"

definition invalidate :: "room \<Rightarrow> world \<Rightarrow> (exn + unit) \<times> world" where
  "invalidate r w = (if \<not> w_redis_up w then (Inl RedisError, w) else (Inr (), cache_delete (token_key r) w))"

text \<open>\<open>Room.objects.filter(pk=...).update(...)\<close> of the three authentication columns.\<close>

definition record_auth :: "room \<Rightarrow> bool \<Rightarrow> string \<Rightarrow> world \<Rightarrow> world" where
  "record_auth r success error w =
     (let d = w_db w in w\<lparr>w_db := d\<lparr>db_rooms := map (\<lambda>row.
        if r_id row = r_id r
        then row\<lparr>r_last_auth_at := Some (w_now w), r_last_auth_success := Some success, r_last_error := error\<rparr>
        else row) (db_rooms d)\<rparr>\<rparr>)"

subsection \<open>Entries\<close>

definition item_get :: "json \<Rightarrow> string \<Rightarrow> exn + json" where
  "item_get v k = (case v of
     JObj kvs \<Rightarrow> (case map_of kvs k of None \<Rightarrow> Inl KeyError | Some x \<Rightarrow> Inr x)
   | _ \<Rightarrow> Inl TypeError)"

definition entry_expiry :: "env \<Rightarrow> json \<Rightarrow> exn + datetime option" where
  "entry_expiry E v =
     (if json_falsy v then Inr None
      else (case v of
          JStr s \<Rightarrow> (case e_fromisoformat E s of None \<Rightarrow> Inl ValueError | Some d \<Rightarrow> Inr (Some d))
        | _ \<Rightarrow> Inl TypeError))"

text \<open>Whether the cached expiry leaves more than the skew; a naive one cannot be compared.\<close>

definition entry_fresh :: "env \<Rightarrow> int \<Rightarrow> datetime option \<Rightarrow> exn + bool" where
  "entry_fresh E now expiry = (case expiry of
     None \<Rightarrow> Inr True
   | Some d \<Rightarrow> if is_naive d then Inl TypeError
       else Inr (dt_instant d - now > CONVAY_TOKEN_EXPIRY_SKEW_SECONDS (e_settings E) * second_us))"

text \<open>\<open>Inr None\<close>: readable, but too close to its expiry.\<close>

definition read_entry :: "env \<Rightarrow> int \<Rightarrow> string \<Rightarrow> exn + provider_auth_result option" where
  "read_entry E now raw =
     bind_r (decrypt E raw) (\<lambda>plain.
       case loads plain of
         None \<Rightarrow> Inl ValueError
       | Some item \<Rightarrow>
           bind_r (item_get item ''expiry'') (\<lambda>x.
           bind_r (entry_expiry E x) (\<lambda>expiry.
           bind_r (entry_fresh E now expiry) (\<lambda>fresh.
             if \<not> fresh then Inr None
             else bind_r (item_get item ''token'') (\<lambda>t.
               case t of
                 JStr tok \<Rightarrow> Inr (Some \<lparr>access_token = tok, refresh_token = None, expires_at = expiry\<rparr>)
               | _ \<Rightarrow> Inl TypeError)))))"

definition entry_of :: "env \<Rightarrow> provider_auth_result \<Rightarrow> json" where
  "entry_of E a = JObj [(''token'', JStr (access_token a)),
     (''expiry'', case expires_at a of None \<Rightarrow> JNull | Some d \<Rightarrow> JStr (e_isoformat E d))]"

text \<open>\<open>int(delta.total_seconds())\<close> truncates towards zero.\<close>

definition whole_seconds :: "int \<Rightarrow> int" where
  "whole_seconds us = (if us \<ge> 0 then us div second_us else - ((- us) div second_us))"

definition token_ttl :: "env \<Rightarrow> int \<Rightarrow> provider_auth_result \<Rightarrow> int" where
  "token_ttl E now a = (case expires_at a of
     None \<Rightarrow> 60
   | Some d \<Rightarrow> whole_seconds (dt_instant d - now) - CONVAY_TOKEN_EXPIRY_SKEW_SECONDS (e_settings E))"

subsection \<open>Getting a token\<close>

definition provider_exn :: "string \<Rightarrow> exn" where
  "provider_exn code = ProviderExn (ProviderError code)"

definition fresh_token :: "env \<Rightarrow> room \<Rightarrow> world \<Rightarrow> (exn + provider_auth_result) \<times> world" where
  "fresh_token E r w =
     (case authenticate E r w of
        (Inl (ProviderExn e), w1) \<Rightarrow> (Inl (ProviderExn e), record_auth r False (pe_code e) w1)
      | (Inl x, w1) \<Rightarrow> (Inl x, w1)
      | (Inr a, w1) \<Rightarrow>
          (let ttl = token_ttl E (w_now w1) a in
           if ttl \<le> 0 then (Inl (provider_exn ''PROVIDER_TOKEN_EXPIRED''), w1)
           else (case encrypt E (dumps (entry_of E a)) of
               Inl x \<Rightarrow> (Inl x, w1)
             | Inr v \<Rightarrow> (Inr a, record_auth r True [] (cache_setex (token_key r) ttl v w1)))))"

definition locked_token :: "env \<Rightarrow> room \<Rightarrow> bool \<Rightarrow> world \<Rightarrow> (exn + provider_auth_result) \<times> world" where
  "locked_token E r force w =
     (case (if force then None else cache_get (token_key r) w) of
        None \<Rightarrow> fresh_token E r w
      | Some raw \<Rightarrow>
          if raw = [] then fresh_token E r w
          else (case read_entry E (w_now w) raw of
              Inr (Some a) \<Rightarrow> (Inr a, w)
            | Inr None \<Rightarrow> fresh_token E r w
            | Inl x \<Rightarrow>
                if x \<in> {ValueError, KeyError, TypeError}
                then fresh_token E r (cache_delete (token_key r) w) else (Inl x, w)))"

definition lock_timeout_us :: int where "lock_timeout_us = 60 * second_us"
definition lock_wait_us :: int where "lock_wait_us = 10 * second_us"

definition get_token :: "env \<Rightarrow> room \<Rightarrow> bool \<Rightarrow> world \<Rightarrow> (exn + provider_auth_result) \<times> world" where
  "get_token E r force w =
     (if \<not> r_is_active r then (Inl (provider_exn ''ROOM_INACTIVE''), w)
      else if \<not> w_redis_up w then (Inl RedisError, w)
      else if w_lock_busy w
      then (Inl (provider_exn ''PROVIDER_AUTH_BUSY''), w\<lparr>w_now := w_now w + lock_wait_us\<rparr>)
      else (case locked_token E r force w of (res, w1) \<Rightarrow>
              if w_now w1 - w_now w \<ge> lock_timeout_us
              then (Inl (provider_exn ''PROVIDER_AUTH_BUSY''), w1) else (res, w1)))"

subsection \<open>What the adapter may touch\<close>

text \<open>
  A provider operation may send requests, let time pass, change the token cache and record the
  authentication outcome of a room; it leaves every other column and table alone.
\<close>

definition forget_auth :: "room \<Rightarrow> room" where
  "forget_auth r = r\<lparr>r_last_auth_at := None, r_last_auth_success := None, r_last_error := []\<rparr>"

definition outside_only :: "world \<Rightarrow> world \<Rightarrow> bool" where
  "outside_only w w' \<longleftrightarrow>
     db_meetings (w_db w') = db_meetings (w_db w) \<and> db_clients (w_db w') = db_clients (w_db w) \<and>
     db_presets (w_db w') = db_presets (w_db w) \<and> db_audit (w_db w') = db_audit (w_db w) \<and>
     map forget_auth (db_rooms (w_db w')) = map forget_auth (db_rooms (w_db w)) \<and>
     w_script w' = w_script w \<and> w_redis_up w' = w_redis_up w \<and> w_lock_busy w' = w_lock_busy w \<and>
     w_now w \<le> w_now w' \<and> (\<exists>rqs. w_sent w' = w_sent w @ rqs)"

lemma outside_only_refl [simp]: "outside_only w w"
  by (simp add: outside_only_def)

lemma outside_only_trans: "outside_only w w' \<Longrightarrow> outside_only w' w'' \<Longrightarrow> outside_only w w''"
  by (auto simp: outside_only_def)

lemma rooms_wf_forget:
  assumes "map forget_auth (db_rooms d') = map forget_auth (db_rooms d)"
  shows "rooms_wf d' = rooms_wf d" and "get_room k d' = None \<longleftrightarrow> get_room k d = None"
proof -
  have ids: "map r_id (db_rooms d') = map r_id (db_rooms d)"
    using arg_cong[OF assms, of "map r_id"] by (simp add: comp_def forget_auth_def)
  have pids: "map r_public_id (db_rooms d') = map r_public_id (db_rooms d)"
    using arg_cong[OF assms, of "map r_public_id"] by (simp add: comp_def forget_auth_def)
  have "map room_row_ok (db_rooms d') = map room_row_ok (db_rooms d)"
    using arg_cong[OF assms, of "map room_row_ok"]
    by (simp add: comp_def forget_auth_def room_row_ok_def[abs_def])
  then have "list_all id (map room_row_ok (db_rooms d')) = list_all id (map room_row_ok (db_rooms d))" by simp
  then show "rooms_wf d' = rooms_wf d" by (simp add: rooms_wf_def ids pids list_all_iff)
  show "get_room k d' = None \<longleftrightarrow> get_room k d = None"
    using arg_cong[OF ids, of set] by (simp add: fetch_def row_get_None_iff)
qed

lemma db_wf_forget:
  assumes "map forget_auth (db_rooms d') = map forget_auth (db_rooms d)"
    and "db_meetings d' = db_meetings d" "db_clients d' = db_clients d" "db_presets d' = db_presets d"
  shows "db_wf d' = db_wf d"
  using assms(2-4) rooms_wf_forget[OF assms(1)]
  by (simp add: db_wf_def meetings_wf_def refs_wf_def clients_wf_def fetch_def[of db_clients])

lemma outside_only_wf: "outside_only w w' \<Longrightarrow> db_wf (w_db w') = db_wf (w_db w)"
  by (rule db_wf_forget) (simp_all add: outside_only_def)

lemma outside_only_get: "outside_only w w' \<Longrightarrow> get_meeting k (w_db w') = get_meeting k (w_db w)"
  by (rule fetch_cong) (simp add: outside_only_def)

text \<open>The contract of a provider operation, and what a client of it may rely on.\<close>

locale provider_operation =
  fixes run :: "world \<Rightarrow> (exn + 'a) \<times> world"
  assumes outside: "outside_only w (snd (run w))"
begin

lemma keeps_wf: "run w = (res, w') \<Longrightarrow> db_wf (w_db w') = db_wf (w_db w)"
  using outside_only_wf[OF outside[of w]] by simp

lemma keeps_meetings: "run w = (res, w') \<Longrightarrow> get_meeting k (w_db w') = get_meeting k (w_db w)"
  using outside_only_get[OF outside[of w]] by simp

lemma chain:
  assumes "outside_only w0 w"
  shows "outside_only w0 (snd (run w))"
  using assms outside by (rule outside_only_trans)

lemma bind_outside:
  assumes "\<And>x w. outside_only w (snd (f x w))"
  shows "outside_only w (snd (bind_w (run w) f))"
proof (cases "run w")
  case (Pair res w1)
  then have 1: "outside_only w w1" using outside[of w] by simp
  then show ?thesis
  proof (cases res)
    case (Inr x)
    then show ?thesis using 1 assms[of w1 x] Pair by (auto intro: outside_only_trans)
  qed (simp add: Pair)
qed

end

lemma outside_cache_delete [simp]: "outside_only w (cache_delete key w)"
  by (simp add: outside_only_def cache_delete_def)

lemma outside_cache_setex [simp]: "outside_only w (cache_setex key ttl v w)"
  by (simp add: outside_only_def cache_setex_def)

lemma outside_record_auth [simp]: "outside_only w (record_auth r success error w)"
  by (simp add: outside_only_def record_auth_def Let_def comp_def forget_auth_def)

lemma outside_send: "outside_only w (snd (send rq w))"
  by (simp add: send_def outside_only_def split: prod.splits)

lemma outside_post: "outside_only w (snd (post rq creation parser w))"
  using outside_send[of w rq] by (cases "send rq w") (simp add: post_def)

interpretation start_op: provider_operation "start_meeting E r payload token"
  by unfold_locales (simp add: start_meeting_def outside_post)

interpretation auth_op: provider_operation "authenticate E r"
  by unfold_locales (simp add: authenticate_def outside_post split: sum.splits)

interpretation invalidate_op: provider_operation "invalidate r"
  by unfold_locales (simp add: invalidate_def)

lemma outside_fresh_token: "outside_only w (snd (fresh_token E r w))"
proof (cases "authenticate E r w")
  case (Pair res w1)
  then have 1: "outside_only w w1" using auth_op.outside[of w E r] by simp
  have step: "outside_only w (record_auth r s err w')" if "outside_only w1 w'" for s err w'
    using 1 outside_only_trans[OF that outside_record_auth] by (rule outside_only_trans)
  show ?thesis
    using 1 step[OF outside_only_refl] step[OF outside_cache_setex]
    by (auto simp: fresh_token_def Pair Let_def split: sum.splits exn.splits)
qed

lemma outside_locked_token: "outside_only w (snd (locked_token E r force w))"
proof -
  have "outside_only w (snd (fresh_token E r (cache_delete (token_key r) w)))"
    using outside_cache_delete outside_fresh_token by (rule outside_only_trans)
  then show ?thesis
    using outside_fresh_token[of w E r]
    by (auto simp: locked_token_def split: option.splits sum.splits)
qed

interpretation token_op: provider_operation "get_token E r force"
proof
  fix w
  show "outside_only w (snd (get_token E r force w))"
    using outside_locked_token[of w E r force]
    by (cases "locked_token E r force w")
      (auto simp: get_token_def outside_only_def lock_wait_us_def second_us_def)
qed

subsection \<open>Requests\<close>

lemma authenticate_sent:
  assumes "authenticate E r w = (res, w')"
  shows "w_sent w' = w_sent w \<or>
    (\<exists>rq. w_sent w' = w_sent w @ [rq] \<and> rq_path rq = CONVAY_AUTH_PATH (e_settings E) \<and>
       rq_token rq = None \<and> rq_room rq = r_id r)"
  using assms by (auto simp: authenticate_def post_def send_def split: sum.splits prod.splits)

lemma record_auth_sel [simp]:
  "w_sent (record_auth r s e w) = w_sent w" "w_cache (record_auth r s e w) = w_cache w"
  "w_now (record_auth r s e w) = w_now w"
  by (simp_all add: record_auth_def Let_def)

lemma cache_sel [simp]:
  "w_sent (cache_delete k w) = w_sent w" "w_sent (cache_setex k t v w) = w_sent w"
  "w_now (cache_delete k w) = w_now w" "w_now (cache_setex k t v w) = w_now w"
  by (simp_all add: cache_delete_def cache_setex_def)

lemma authenticate_cache: "authenticate E r w = (res, w') \<Longrightarrow> w_cache w' = w_cache w"
  by (auto simp: authenticate_def post_def send_def split: sum.splits prod.splits)

lemma fresh_token_cases:
  assumes "fresh_token E r w = (res, w')"
  obtains (failed) x w1 where "authenticate E r w = (Inl x, w1)" "res = Inl x" "w_sent w' = w_sent w1"
      "w_cache w' = w_cache w1" "w_now w' = w_now w1"
  | (rejected) a w1 x where "authenticate E r w = (Inr a, w1)" "res = Inl x" "w' = w1"
  | (ok) a w1 v where "authenticate E r w = (Inr a, w1)" "res = Inr a" "token_ttl E (w_now w1) a > 0"
      "encrypt E (dumps (entry_of E a)) = Inr v"
      "w' = record_auth r True [] (cache_setex (token_key r) (token_ttl E (w_now w1) a) v w1)"
proof (cases "authenticate E r w")
  case (Pair res1 w1)
  show ?thesis
  proof (cases res1)
    case (Inl x)
    have "res = Inl x \<and> w_sent w' = w_sent w1 \<and> w_cache w' = w_cache w1 \<and> w_now w' = w_now w1"
      using assms Pair Inl by (cases x) (auto simp: fresh_token_def)
    then show ?thesis using failed Pair Inl by blast
  next
    case (Inr a)
    show ?thesis
    proof (cases "token_ttl E (w_now w1) a \<le> 0")
      case True
      then have "res = Inl (provider_exn ''PROVIDER_TOKEN_EXPIRED'') \<and> w' = w1"
        using assms Pair Inr by (simp add: fresh_token_def)
      then show ?thesis using rejected Pair Inr by blast
    next
      case False
      show ?thesis
      proof (cases "encrypt E (dumps (entry_of E a))")
        case enc: (Inl x)
        then have "res = Inl x \<and> w' = w1" using assms Pair Inr False by (simp add: fresh_token_def)
        then show ?thesis using rejected Pair Inr by blast
      next
        case enc: (Inr v)
        then have "res = Inr a \<and>
            w' = record_auth r True [] (cache_setex (token_key r) (token_ttl E (w_now w1) a) v w1)"
          using assms Pair Inr False by (simp add: fresh_token_def)
        moreover have "token_ttl E (w_now w1) a > 0" using False by simp
        ultimately show ?thesis using ok Pair Inr enc by blast
      qed
    qed
  qed
qed

lemma fresh_token_sent:
  assumes "fresh_token E r w = (res, w')"
  shows "w_sent w' = w_sent w \<or>
    (\<exists>rq. w_sent w' = w_sent w @ [rq] \<and> rq_path rq = CONVAY_AUTH_PATH (e_settings E) \<and>
       rq_token rq = None \<and> rq_room rq = r_id r)"
  using assms by (cases rule: fresh_token_cases) (auto dest: authenticate_sent)

lemma get_token_cases:
  assumes "get_token E r force w = (res, w')"
  obtains (refused) "w_sent w' = w_sent w" "w_cache w' = w_cache w" "\<exists>x. res = Inl x"
  | (hit) raw a where "\<not> force" "cache_get (token_key r) w = Some raw" "res = Inr a" "w' = w"
      "read_entry E (w_now w) raw = Inr (Some a)"
  | (poisoned) raw x where "\<not> force" "cache_get (token_key r) w = Some raw" "res = Inl x" "w' = w"
      "read_entry E (w_now w) raw = Inl x"
  | (asked) w1 res1 where "w1 = w \<or> w1 = cache_delete (token_key r) w" "fresh_token E r w1 = (res1, w')"
      "res = res1 \<or> (\<exists>x. res = Inl x)"
proof -
  obtain res1 w1 where l: "locked_token E r force w = (res1, w1)" by fastforce
  show ?thesis
  proof (cases "\<not> r_is_active r \<or> \<not> w_redis_up w \<or> w_lock_busy w")
    case True
    then show ?thesis using assms refused by (auto simp: get_token_def split: if_splits)
  next
    case False
    then have w': "w' = w1" and res: "res = res1 \<or> (\<exists>x. res = Inl x) \<and> w_now w1 - w_now w \<ge> lock_timeout_us"
      using assms by (auto simp: get_token_def l split: if_splits)
    have pos: "lock_timeout_us > 0" by (simp add: lock_timeout_us_def second_us_def)
    show ?thesis
    proof (cases "if force then None else cache_get (token_key r) w")
      case None
      then show ?thesis using asked[of w res1] l w' res by (auto simp: locked_token_def)
    next
      case (Some raw)
      show ?thesis
      proof (cases "raw = [] \<or> read_entry E (w_now w) raw = Inr None")
        case True
        then have "fresh_token E r w = (res1, w1)"
          using l Some by (cases "raw = []") (simp_all add: locked_token_def)
        then show ?thesis using asked[of w res1] w' res by auto
      next
        case False
        show ?thesis
        proof (cases "read_entry E (w_now w) raw")
          case (Inr q)
          then obtain a where a: "read_entry E (w_now w) raw = Inr (Some a)" using False by (cases q) auto
          then have "res1 = Inr a" "w1 = w" using l Some False by (auto simp: locked_token_def)
          then show ?thesis using hit[of raw a] a Some w' res pos by (auto split: if_splits)
        next
          case (Inl x)
          show ?thesis
          proof (cases "x \<in> {ValueError, KeyError, TypeError}")
            case True
            then have "fresh_token E r (cache_delete (token_key r) w) = (res1, w1)"
              using l Some False Inl by (auto simp: locked_token_def)
            then show ?thesis using asked[of "cache_delete (token_key r) w" res1] w' res by auto
          next
            case nf: False
            then have "res1 = Inl x" "w1 = w" using l Some False Inl by (auto simp: locked_token_def)
            then show ?thesis using poisoned[of raw x] Inl Some w' res pos by (auto split: if_splits)
          qed
        qed
      qed
    qed
  qed
qed

subsection \<open>Keys are injective\<close>

lemma length_hex_digits [simp]: "length (hex_digits k n) = k"
  by (induction k arbitrary: n) simp_all

lemma hex_char_inj: "a < 16 \<Longrightarrow> b < 16 \<Longrightarrow> hex_char a = hex_char b \<Longrightarrow> a = b"
  by (metis hex_val_hex_char option.inject)

lemma hex_digits_inj:
  "a < 16 ^ k \<Longrightarrow> b < 16 ^ k \<Longrightarrow> hex_digits k a = hex_digits k b \<Longrightarrow> a = b"
proof (induction k arbitrary: a b)
  case (Suc k)
  from Suc.prems(3) have "hex_digits k (a div 16) = hex_digits k (b div 16)"
      and last: "hex_char (a mod 16) = hex_char (b mod 16)" by simp_all
  then have "a div 16 = b div 16"
    using Suc.prems(1,2) by (intro Suc.IH) (simp_all add: less_mult_imp_div_less mult.commute)
  moreover have "a mod 16 = b mod 16" using last by (intro hex_char_inj) simp_all
  ultimately show ?case by (metis div_mult_mod_eq)
qed simp

lemma length_show_uuid [simp]: "length (show_uuid u) = 36"
  by (cases u) (simp add: show_uuid_def Let_def)

lemma show_uuid_inj: "show_uuid u = show_uuid v \<Longrightarrow> u = v"
proof -
  obtain a b where u: "u = UUID a" and v: "v = UUID b" by (cases u; cases v)
  define s where "s x = hex_digits 32 (unat (x :: 128 word))" for x
  have len: "length (s x) = 32" for x by (simp add: s_def)
  have cut: "s x = take 8 (s x) @ take 4 (drop 8 (s x)) @ take 4 (drop 12 (s x)) @
      take 4 (drop 16 (s x)) @ drop 20 (s x)" for x
  proof -
    have "s x = take 8 (s x) @ drop 8 (s x)" by simp
    also have "drop 8 (s x) = take 4 (drop 8 (s x)) @ drop 12 (s x)"
      using append_take_drop_id[of 4 "drop 8 (s x)"] by simp
    also have "drop 12 (s x) = take 4 (drop 12 (s x)) @ drop 16 (s x)"
      using append_take_drop_id[of 4 "drop 12 (s x)"] by simp
    also have "drop 16 (s x) = take 4 (drop 16 (s x)) @ drop 20 (s x)"
      using append_take_drop_id[of 4 "drop 16 (s x)"] by simp
    finally show ?thesis .
  qed
  have disp: "show_uuid (UUID x) = take 8 (s x) @ ''-'' @ take 4 (drop 8 (s x)) @ ''-'' @
      take 4 (drop 12 (s x)) @ ''-'' @ take 4 (drop 16 (s x)) @ ''-'' @ drop 20 (s x)" for x
    by (simp add: show_uuid_def Let_def s_def)
  assume eq: "show_uuid u = show_uuid v"
  have "take 8 (s a) = take 8 (s b) \<and> take 4 (drop 8 (s a)) = take 4 (drop 8 (s b)) \<and>
      take 4 (drop 12 (s a)) = take 4 (drop 12 (s b)) \<and> take 4 (drop 16 (s a)) = take 4 (drop 16 (s b)) \<and>
      drop 20 (s a) = drop 20 (s b)"
    using eq unfolding u v disp by (simp add: len append_eq_append_conv del: drop_eq_Nil)
  then have "s a = s b" using cut[of a] cut[of b] by argo
  then have "unat a = unat b"
    unfolding s_def using unsigned_less[of a, where ?'a = nat] unsigned_less[of b, where ?'a = nat] by (intro hex_digits_inj[of _ 32]) simp_all
  then show "u = v" unfolding u v by (simp add: word_unat_eq_iff)
qed

text \<open>
  One cache entry per room and credential version: two rooms share a token key exactly when they
  have the same id and the same credential version, so a credential rotation can never be served the
  old credential's token.
\<close>

theorem token_key_injective:
  "token_key r = token_key r' \<longleftrightarrow> r_id r = r_id r' \<and> r_credential_version r = r_credential_version r'"
proof
  assume "token_key r = token_key r'"
  then have eq: "show_uuid (r_id r) @ ('':v'' @ show_nat (r_credential_version r) @ '':access_token'') =
      show_uuid (r_id r') @ ('':v'' @ show_nat (r_credential_version r') @ '':access_token'')"
    by (simp add: token_key_def)
  then have "show_uuid (r_id r) = show_uuid (r_id r')"
      and "'':v'' @ show_nat (r_credential_version r) @ '':access_token'' =
        '':v'' @ show_nat (r_credential_version r') @ '':access_token''"
    unfolding append_eq_append_conv[of "show_uuid (r_id r)" "show_uuid (r_id r')", simplified] by simp_all
  then show "r_id r = r_id r' \<and> r_credential_version r = r_credential_version r'"
    using show_uuid_inj nat_of_digits_show_nat by (metis append_same_eq same_append_eq)
qed (simp add: token_key_def)

subsection \<open>Freshness and reuse\<close>

definition aware_expiry :: "provider_auth_result \<Rightarrow> bool" where
  "aware_expiry a \<longleftrightarrow> (\<forall>d. expires_at a = Some d \<longrightarrow> \<not> is_naive d)"

lemma jwt_expiry_aware: "jwt_expiry t = Some d \<Longrightarrow> \<not> is_naive d"
  by (auto simp: jwt_expiry_def is_naive_def utc_def
      split: list.splits option.splits json.splits sum.splits if_splits)

lemma reported_expiry_aware:
  assumes r: "reported_expiry E now v = Inr (Some d)"
  shows "\<not> is_naive d"
proof (cases "obj_get v ''expiresAt'' = JNull")
  case False
  then show ?thesis using r
    by (cases "obj_get v ''expiresAt''")
      (auto simp: reported_expiry_def Let_def split: option.splits if_splits)
next
  case True
  with r have nn: "obj_get v ''expiresIn'' \<noteq> JNull" by (auto simp: reported_expiry_def)
  obtain f where f: "py_float (obj_get v ''expiresIn'') = Inr f"
    using r True nn by (cases "py_float (obj_get v ''expiresIn'')") (simp_all add: reported_expiry_def)
  obtain us where us: "float_us f = Some us"
    using r True nn f by (cases "float_us f") (simp_all add: reported_expiry_def)
  have "dt_shift (utc now) us = Some d"
    using r True nn f us by (cases "dt_shift (utc now) us") (simp_all add: reported_expiry_def)
  then show ?thesis by (auto simp: is_naive_def utc_def dest!: dt_shift_Some)
qed

lemma normalize_auth_aware: "normalize_auth E now body = Inr a \<Longrightarrow> aware_expiry a"
  using jwt_expiry_aware reported_expiry_aware[of E now]
  by (fastforce simp: aware_expiry_def normalize_auth_def Let_def min_expiry_def
      split: option.splits prod.splits sum.splits if_splits)

lemma authenticate_aware: "authenticate E r w = (Inr a, w') \<Longrightarrow> aware_expiry a"
  by (auto simp: authenticate_def post_def classify_def Let_def dest: normalize_auth_aware
      split: sum.splits prod.splits http_outcome.splits transport_error.splits option.splits
        json.splits if_splits exn.splits)

lemma whole_seconds_le: "0 < whole_seconds us \<Longrightarrow> whole_seconds us * second_us \<le> us"
  by (auto simp: whole_seconds_def second_us_def pos_imp_zdiv_nonneg_iff split: if_splits)

lemma read_entry_fresh:
  assumes "read_entry E now raw = Inr (Some a)" and "expires_at a = Some d"
  shows "dt_instant d - now > CONVAY_TOKEN_EXPIRY_SKEW_SECONDS (e_settings E) * second_us"
proof -
  obtain plain item where 1: "decrypt E raw = Inr plain" "loads plain = Some item"
    using assms(1) by (auto simp: read_entry_def bind_r_Inr_iff split: option.splits)
  obtain x expiry fresh where 2: "item_get item ''expiry'' = Inr x" "entry_expiry E x = Inr expiry"
      "entry_fresh E now expiry = Inr fresh"
    using assms(1) 1 by (auto simp: read_entry_def bind_r_Inr_iff)
  have f: "fresh" using assms(1) 1 2 by (cases fresh) (simp_all add: read_entry_def)
  obtain t where t: "item_get item ''token'' = Inr t"
    using assms(1) 1 2 f by (auto simp: read_entry_def bind_r_Inr_iff)
  obtain s where "t = JStr s" using assms(1) 1 2 f t by (cases t) (simp_all add: read_entry_def)
  then have "expiry = Some d" using assms 1 2 f t by (auto simp: read_entry_def)
  then show ?thesis using 2(3) f by (auto simp: entry_fresh_def split: if_splits)
qed

text \<open>What is written is read back, as long as the expiry leaves more than the skew.\<close>

lemma read_entry_written:
  assumes ok: "fernet_ok E" "can_encrypt E" "isoformat_ok E" and aw: "aware_expiry a"
    and enc: "encrypt E (dumps (entry_of E a)) = Inr v"
    and fresh: "\<And>d. expires_at a = Some d \<Longrightarrow>
      dt_instant d - now > CONVAY_TOKEN_EXPIRY_SKEW_SECONDS (e_settings E) * second_us"
  shows "read_entry E now v = Inr (Some (a\<lparr>refresh_token := None\<rparr>))"
proof -
  have "json_ok (entry_of E a)" by (simp add: entry_of_def split: option.split)
  then have "loads (dumps (entry_of E a)) = Some (entry_of E a)" by (rule loads_dumps)
  moreover have "decrypt E v = Inr (dumps (entry_of E a))" using ok(1,2) enc by (rule decrypt_encrypt)
  moreover have "e_isoformat E d \<noteq> [] \<and> e_fromisoformat E (e_isoformat E d) = Some d \<and> \<not> is_naive d"
    if "expires_at a = Some d" for d
    using ok(3) aw that by (simp add: isoformat_ok_def aware_expiry_def)
  ultimately show ?thesis using fresh
    by (cases "expires_at a")
      (simp_all add: read_entry_def item_get_def entry_of_def entry_expiry_def json_falsy_def entry_fresh_def)
qed

text \<open>
  A token of unknown expiry is cached for 60 seconds: every entry that reads without an expiry ends
  within 60 seconds.
\<close>

definition opaque_bounded :: "env \<Rightarrow> world \<Rightarrow> bool" where
  "opaque_bounded E w \<longleftrightarrow> (\<forall>key v until now a. map_of (w_cache w) key = Some (v, until) \<and>
     read_entry E now v = Inr (Some a) \<and> expires_at a = None \<longrightarrow> until \<le> w_now w + 60 * second_us)"

lemma opaque_bounded_mono:
  assumes "opaque_bounded E w" and "w_cache w' = w_cache w \<or> w_cache w' = dict_pop key (w_cache w)" and "w_now w \<le> w_now w'"
  shows "opaque_bounded E w'"
proof -
  have "map_of (w_cache w) k = Some e" if "map_of (w_cache w') k = Some e" for k e
    using assms(2) that by (auto split: if_splits)
  then show ?thesis using assms(1,3) unfolding opaque_bounded_def by (meson add_right_mono order_trans)
qed

lemma written_entry_known:
  assumes ok: "fernet_ok E" "can_encrypt E" "isoformat_ok E" and aw: "aware_expiry a"
    and enc: "encrypt E (dumps (entry_of E a)) = Inr v" and r: "read_entry E now v = Inr (Some b)"
  shows "expires_at b = expires_at a"
proof -
  have "json_ok (entry_of E a)" by (simp add: entry_of_def split: option.split)
  then have "loads (dumps (entry_of E a)) = Some (entry_of E a)" by (rule loads_dumps)
  moreover have "decrypt E v = Inr (dumps (entry_of E a))" using ok(1,2) enc by (rule decrypt_encrypt)
  moreover have "e_isoformat E d \<noteq> [] \<and> e_fromisoformat E (e_isoformat E d) = Some d \<and> \<not> is_naive d"
    if "expires_at a = Some d" for d
    using ok(3) aw that by (simp add: isoformat_ok_def aware_expiry_def)
  ultimately show ?thesis using r
    by (cases "expires_at a")
      (auto simp: read_entry_def item_get_def entry_of_def entry_expiry_def json_falsy_def entry_fresh_def split: if_splits)
qed

lemma fresh_token_skew:
  assumes set: "settings_ok (e_settings E)" and f: "fresh_token E r w = (Inr a, w')" and exp: "expires_at a = Some d"
  shows "dt_instant d - w_now w' > CONVAY_TOKEN_EXPIRY_SKEW_SECONDS (e_settings E) * second_us"
  using f
proof (cases rule: fresh_token_cases)
  case (ok a' w2 v)
  let ?s = "whole_seconds (dt_instant d - w_now w2)"
  have skew: "CONVAY_TOKEN_EXPIRY_SKEW_SECONDS (e_settings E) \<ge> 0" using set by (simp add: settings_ok_def)
  have "?s > CONVAY_TOKEN_EXPIRY_SKEW_SECONDS (e_settings E)"
    using ok exp by (simp add: token_ttl_def)
  moreover from this skew have "?s * second_us \<le> dt_instant d - w_now w2"
    by (intro whole_seconds_le) simp
  moreover have "second_us > 0" by (simp add: second_us_def)
  moreover have "w_now w' = w_now w2" using ok by simp
  ultimately show ?thesis by (smt (verit) mult_less_cancel_right)
qed auto

lemma fresh_token_opaque:
  assumes env: "fernet_ok E" "can_encrypt E" "isoformat_ok E" and inv: "opaque_bounded E w"
    and f: "fresh_token E r w = (res, w')"
  shows "opaque_bounded E w' \<and> (\<forall>a. res = Inr a \<and> expires_at a = None \<longrightarrow>
    (\<exists>v. map_of (w_cache w') (token_key r) = Some (v, w_now w' + 60 * second_us)))"
  using f
proof (cases rule: fresh_token_cases)
  case (failed x w1)
  have "w_now w \<le> w_now w1" using auth_op.outside[of w E r] failed(1) by (simp add: outside_only_def)
  then show ?thesis
    using opaque_bounded_mono[OF inv, of w'] authenticate_cache[OF failed(1)] failed by auto
next
  case (rejected a w1 x)
  have "w_now w \<le> w_now w1" using auth_op.outside[of w E r] rejected(1) by (simp add: outside_only_def)
  then show ?thesis
    using opaque_bounded_mono[OF inv, of w'] authenticate_cache[OF rejected(1)] rejected by auto
next
  case (ok a w1 v)
  have now: "w_now w \<le> w_now w1" "w_now w' = w_now w1"
    using auth_op.outside[of w E r] ok(1,5) by (simp_all add: outside_only_def)
  have cache: "map_of (w_cache w') = (map_of (w_cache w))(token_key r \<mapsto> (v, w_now w1 + token_ttl E (w_now w1) a * second_us))"
    using authenticate_cache[OF ok(1)] by (simp add: ok(5) cache_setex_def)
  have ttl: "token_ttl E (w_now w1) a = 60" if "expires_at a = None" using that by (simp add: token_ttl_def)
  have "until \<le> w_now w' + 60 * second_us"
    if e: "map_of (w_cache w') key = Some (v', until)" "read_entry E n v' = Inr (Some b)" "expires_at b = None"
    for key v' until n b
  proof (cases "key = token_key r")
    case True
    have "expires_at a = None"
      using written_entry_known[OF env authenticate_aware[OF ok(1)] ok(4), of n b] e True cache by simp
    then show ?thesis using e(1) True cache ttl now by simp
  next
    case False
    then have "until \<le> w_now w + 60 * second_us" using inv e cache unfolding opaque_bounded_def by simp blast
    then show ?thesis using now by simp
  qed
  then have "opaque_bounded E w'" unfolding opaque_bounded_def by blast
  then show ?thesis using cache ttl now ok(2) by simp
qed

text \<open>
  C12, no token is handed out near its expiry: a token that \<open>get_token\<close> returns, from the cache or from a
  new authentication, has more than the configured skew left at that moment if its expiry is known; if it
  is not known, the cache holds it in an entry that ends within the next 60 seconds. Whatever the
  outcome, every cached token of unknown expiry still ends within 60 seconds.
\<close>

theorem get_token_never_expiring:
  assumes set: "settings_ok (e_settings E)" and env: "fernet_ok E" "can_encrypt E" "isoformat_ok E"
    and inv: "opaque_bounded E w" and tok: "get_token E r force w = (res, w')"
  shows "opaque_bounded E w' \<and> (\<forall>a. res = Inr a \<longrightarrow>
    (case expires_at a of
       Some d \<Rightarrow> dt_instant d - w_now w' > CONVAY_TOKEN_EXPIRY_SKEW_SECONDS (e_settings E) * second_us
     | None \<Rightarrow> \<exists>v until. map_of (w_cache w') (token_key r) = Some (v, until) \<and>
         w_now w' < until \<and> until \<le> w_now w' + 60 * second_us))"
  using tok
proof (cases rule: get_token_cases)
  case refused
  have "w_now w \<le> w_now w'" using token_op.outside[of w E r force] tok by (simp add: outside_only_def)
  then show ?thesis using refused opaque_bounded_mono[OF inv, of w'] by auto
next
  case (hit raw a)
  obtain until where e: "map_of (w_cache w) (token_key r) = Some (raw, until)" "w_now w < until"
    using hit(2) by (auto simp: cache_get_def split: option.splits if_splits)
  have "until \<le> w_now w + 60 * second_us" if "expires_at a = None"
    using inv e(1) hit(5) that unfolding opaque_bounded_def by blast
  then show ?thesis using inv hit e read_entry_fresh[OF hit(5)] by (auto split: option.split)
next
  case (poisoned raw x)
  then show ?thesis using inv by simp
next
  case (asked w1 res1)
  have "opaque_bounded E w1"
    using asked(1) inv opaque_bounded_mono[OF inv, of w1 "token_key r"] by (auto simp: cache_delete_def)
  note f = fresh_token_opaque[OF env this asked(2)]
  have "dt_instant d - w_now w' > CONVAY_TOKEN_EXPIRY_SKEW_SECONDS (e_settings E) * second_us"
    if "res = Inr a" "expires_at a = Some d" for a d
    using fresh_token_skew[OF set _ that(2)] asked(2,3) that(1) by auto
  moreover have "\<exists>v until. map_of (w_cache w') (token_key r) = Some (v, until) \<and> w_now w' < until \<and>
      until \<le> w_now w' + 60 * second_us" if "res = Inr a" "expires_at a = None" for a
    using f asked(3) that by (fastforce simp: second_us_def)
  ultimately show ?thesis using f by (auto split: option.split)
qed

lemma map_of_cache_setex: "map_of (w_cache (cache_setex k ttl v w)) k = Some (v, w_now w + ttl * second_us)"
  by (simp add: cache_setex_def)

text \<open>
  C17, a fetched token is cached and reused: after \<open>get_token\<close> has authenticated successfully, every
  later unforced call that finds the cache as it was left, the lock free and the entry alive returns
  the same token with the same expiry, sends nothing and changes nothing.
\<close>

theorem fetched_token_reused:
  assumes env: "fernet_ok E" "can_encrypt E" "isoformat_ok E" and set: "settings_ok (e_settings E)"
    and first: "get_token E r force w = (Inr a, w1)" and asked: "w_sent w1 \<noteq> w_sent w"
    and act: "r_is_active r" and up: "w_redis_up w2" and free: "\<not> w_lock_busy w2"
    and cache: "w_cache w2 = w_cache w1"
    and alive: "w_now w2 < w_now w1 + token_ttl E (w_now w1) a * second_us"
  shows "get_token E r False w2 = (Inr (a\<lparr>refresh_token := None\<rparr>), w2)"
  using first
proof (cases rule: get_token_cases)
  case (asked w0 res0)
  then have "fresh_token E r w0 = (Inr a, w1)" by auto
  then show ?thesis
  proof (cases rule: fresh_token_cases)
    case (ok a' wa v)
    let ?ttl = "token_ttl E (w_now wa) a"
    have a': "a' = a" and now: "w_now w1 = w_now wa" using ok by simp_all
    have key: "map_of (w_cache w2) (token_key r) = Some (v, w_now wa + ?ttl * second_us)"
      using ok map_of_cache_setex by (simp add: cache)
    then have get: "cache_get (token_key r) w2 = Some v"
      using alive by (simp add: cache_get_def now)
    have "v \<noteq> []" using ok(4) by (auto simp: encrypt_def Let_def split: if_splits)
    moreover have "read_entry E (w_now w2) v = Inr (Some (a\<lparr>refresh_token := None\<rparr>))"
    proof (rule read_entry_written[OF env])
      show "aware_expiry a" using ok(1) a' by (auto dest: authenticate_aware)
      show "encrypt E (dumps (entry_of E a)) = Inr v" using ok(4) a' by simp
      fix d assume d: "expires_at a = Some d"
      let ?s = "whole_seconds (dt_instant d - w_now wa)" and ?k = "CONVAY_TOKEN_EXPIRY_SKEW_SECONDS (e_settings E)"
      have ttl: "?ttl = ?s - ?k" by (simp add: token_ttl_def d)
      have "?s > 0"
        using ok(3) a' ttl set by (simp add: settings_ok_def)
      then have "?s * second_us \<le> dt_instant d - w_now wa" by (rule whole_seconds_le)
      moreover have "w_now w2 - w_now wa < (?s - ?k) * second_us" using alive by (simp add: now ttl)
      ultimately show "dt_instant d - w_now w2 > ?k * second_us" by (simp add: left_diff_distrib)
    qed
    ultimately show ?thesis
      using act up free get by (simp add: get_token_def locked_token_def lock_timeout_us_def second_us_def)
  qed auto
qed (use asked in auto)

text \<open>
  A poisoned entry is never repaired: when the cached entry cannot be decrypted under its own
  key (\<open>InvalidToken\<close>), an unforced call fails with that exception, not a provider error, and leaves the
  entry and everything else as they are, so every later call fails the same way until the entry
  expires.
\<close>

theorem undecryptable_entry_stays:
  assumes entry: "cache_get (token_key r) w = Some raw" and bad: "decrypt E raw = Inl InvalidToken"
    and act: "r_is_active r" and up: "w_redis_up w" and free: "\<not> w_lock_busy w"
  shows "get_token E r False w = (Inl InvalidToken, w)"
proof -
  have "raw \<noteq> []" using bad by (auto simp: decrypt_def)
  moreover have "read_entry E (w_now w) raw = Inl InvalidToken" by (simp add: read_entry_def bad)
  ultimately show ?thesis using assms
    by (simp add: get_token_def locked_token_def lock_timeout_us_def second_us_def)
qed

text \<open>
  At most one authentication per call: a call of \<open>get_token\<close> sends nothing or exactly one request,
  to the authentication path and for this room, and it touches nothing of the database but the
  authentication columns of rooms.
\<close>

theorem get_token_requests:
  "outside_only w (snd (get_token E r force w)) \<and>
   (w_sent (snd (get_token E r force w)) = w_sent w \<or>
    (\<exists>rq. w_sent (snd (get_token E r force w)) = w_sent w @ [rq] \<and>
       rq_path rq = CONVAY_AUTH_PATH (e_settings E) \<and> rq_token rq = None \<and> rq_room rq = r_id r))"
proof -
  obtain res w' where t: "get_token E r force w = (res, w')" by fastforce
  have "w_sent w' = w_sent w \<or>
    (\<exists>rq. w_sent w' = w_sent w @ [rq] \<and> rq_path rq = CONVAY_AUTH_PATH (e_settings E) \<and>
       rq_token rq = None \<and> rq_room rq = r_id r)"
    using t
  proof (cases rule: get_token_cases)
    case (asked w1 res1)
    then show ?thesis using fresh_token_sent[OF asked(2)] by auto
  qed auto
  then show ?thesis using token_op.outside[of w E r force] by (simp add: t)
qed

subsection \<open>Witnesses\<close>

definition sample_auth_body :: json where
  "sample_auth_body = JObj [(''success'', JBool True), (''data'', JObj
     [(''accessToken'', JStr ''tok''), (''expiresIn'', JInt 900)])]"

definition sample_created_body :: json where
  "sample_created_body = JObj (sample_creation ''https://m.convay.com/x'')"

text \<open>The first request is answered with a token, every later one with a created meeting, a second each.\<close>

definition sample_world :: world where
  "sample_world = \<lparr>w_db = sample_db, w_now = 0,
     w_script = (\<lambda>n. (Response 200 (dumps (if n = 0 then sample_auth_body else sample_created_body)), 1000000)),
     w_sent = [], w_cache = [], w_redis_up = True, w_lock_busy = False\<rparr>"

definition sample_token :: provider_auth_result where
  "sample_token = \<lparr>access_token = ''tok'', refresh_token = None, expires_at = Some (utc (901 * second_us))\<rparr>"

definition sample_auth_request :: request where
  "sample_auth_request = \<lparr>rq_path = CONVAY_AUTH_PATH sample_settings,
     rq_payload = JObj [(''username'', JStr ''b@x.org''), (''password'', JStr ''pw'')],
     rq_token = None, rq_room = UUID 12\<rparr>"

definition sample_entry :: string where
  "sample_entry = projr (encrypt sample_env (dumps (entry_of sample_env sample_token)))"

definition sample_world1 :: world where
  "sample_world1 = record_auth sample_room_b True [] (cache_setex (token_key sample_room_b) 600 sample_entry
     (sample_world\<lparr>w_sent := [sample_auth_request], w_now := 1000000\<rparr>))"

lemma loads_sample_auth: "loads (dumps sample_auth_body) = Some sample_auth_body"
  by (rule loads_dumps)
    (simp add: sample_auth_body_def show_nat.simps max_int_digits_def)

lemma sample_authenticate:
  "authenticate sample_env sample_room_b sample_world =
     (Inr sample_token, sample_world\<lparr>w_sent := [sample_auth_request], w_now := 1000000\<rparr>)"
proof -
  have "normalize_auth sample_env 1000000 [(''success'', JBool True), (''data'', JObj
     [(''accessToken'', JStr ''tok''), (''expiresIn'', JInt 900)])] = Inr sample_token"
    by (simp add: normalize_auth_def auth_token_def is_JObj_def obj_get_def reported_expiry_def py_float_def
        float_us_def dt_shift_def utc_def dt_local_def min_local_def max_local_def second_us_def
        jwt_expiry_def min_expiry_def sample_token_def)
  moreover have "decrypt sample_env (r_encrypted_password sample_room_b) = Inr ''pw''"
    by (simp add: sample_rows decrypt_def key_for_def sample_env_def sample_settings_def
        sample_fernet_decrypt_def starts_with_def)
  ultimately show ?thesis
    using loads_sample_auth
    by (simp add: authenticate_def post_def send_def sample_world_def classify_def sample_auth_body_def
        sample_auth_request_def sample_env_def sample_room_b_def sample_room_a_def)
qed

lemma sample_entry_written: "encrypt sample_env (dumps (entry_of sample_env sample_token)) = Inr sample_entry"
proof -
  obtain c where "encrypt sample_env (dumps (entry_of sample_env sample_token)) = Inr c"
    using encrypt_Inr[OF sample_env_ok(3)] by blast
  then show ?thesis by (simp add: sample_entry_def)
qed

lemma sample_get_token:
  "get_token sample_env sample_room_b False sample_world = (Inr sample_token, sample_world1)"
proof -
  have ttl: "token_ttl sample_env 1000000 sample_token = 600"
    by (simp add: token_ttl_def sample_token_def utc_def whole_seconds_def second_us_def sample_env_def
        sample_settings_def)
  have now: "w_now (sample_world\<lparr>w_sent := [sample_auth_request], w_now := 1000000\<rparr>) = 1000000" by simp
  have "fresh_token sample_env sample_room_b sample_world = (Inr sample_token, sample_world1)"
    unfolding fresh_token_def sample_authenticate
    by (simp add: ttl sample_entry_written sample_world1_def)
  moreover have "cache_get (token_key sample_room_b) sample_world = None"
    by (simp add: cache_get_def sample_world_def)
  moreover have "r_is_active sample_room_b" by (simp add: sample_rows)
  moreover have "w_now sample_world1 = 1000000" by (simp add: sample_world1_def)
  ultimately show ?thesis
    by (simp add: get_token_def locked_token_def sample_world_def lock_timeout_us_def second_us_def)
qed

theorem get_token_never_expiring_witness:
  "\<exists>d. expires_at sample_token = Some d \<and> dt_instant d - w_now sample_world1 > 300 * second_us \<and>
     opaque_bounded sample_env sample_world1"
proof -
  have "expires_at sample_token = Some (utc (901 * second_us))" by (simp add: sample_token_def)
  moreover have "CONVAY_TOKEN_EXPIRY_SKEW_SECONDS (e_settings sample_env) = 300"
    by (simp add: sample_env_def sample_settings_def)
  moreover have "opaque_bounded sample_env sample_world" by (simp add: opaque_bounded_def sample_world_def)
  ultimately show ?thesis
    using get_token_never_expiring[OF sample_settings_ok sample_env_ok(1,3,2) _ sample_get_token] by auto
qed

theorem fetched_token_reused_witness:
  "get_token sample_env sample_room_b False sample_world1 = (Inr (sample_token\<lparr>refresh_token := None\<rparr>), sample_world1)"
proof (rule fetched_token_reused[OF sample_env_ok(1,3,2,4) sample_get_token])
  show "w_now sample_world1 < w_now sample_world1 +
      token_ttl sample_env (w_now sample_world1) sample_token * second_us"
    by (simp add: sample_world1_def token_ttl_def sample_token_def utc_def whole_seconds_def second_us_def
        sample_env_def sample_settings_def)
qed (simp_all add: sample_world1_def sample_world_def sample_rows record_auth_def cache_setex_def Let_def)

theorem undecryptable_entry_stays_witness:
  "get_token sample_env sample_room_b False
     (sample_world\<lparr>w_cache := [(token_key sample_room_b, ''1:x'', 5)]\<rparr>) =
   (Inl InvalidToken, sample_world\<lparr>w_cache := [(token_key sample_room_b, ''1:x'', 5)]\<rparr>)"
  by (rule undecryptable_entry_stays[of _ _ "''1:x''"])
    (simp_all add: cache_get_def sample_world_def sample_rows decrypt_def key_for_def sample_env_def
      sample_settings_def sample_fernet_decrypt_def starts_with_def)

end
