(* ===== verification/Meetings.thy ===== *)
theory Meetings
  imports Allocation Tokens
begin

text \<open>
  \<open>apps/meetings/services.py\<close> and \<open>apps/meetings/tasks.py\<close>: registration, the three phases of
  provisioning (the reserving transaction, the provider call outside any transaction, the
  transaction that records the outcome), cancellation, the stale-provisioning sweep and the
  representations. Each transaction is a function of the database it finds, so other processes'
  transactions may run between the phases; the theory \<open>Workflow\<close> interleaves them.
\<close>

subsection \<open>Requests\<close>

text \<open>
  The validated data of a creation request. The optional members stand for keys that
  \<open>values.get\<close> tolerates and \<open>values[...]\<close> does not.
\<close>

record request_values =
  v_title :: string
  v_class_id :: string
  v_class_date :: int
  v_teacher_id :: string
  v_teacher_name :: string
  v_batch_id :: string
  v_batch_name :: string
  v_schedule_type :: "string option"
  v_start :: "datetime option"
  v_end :: "datetime option"

subsection \<open>Registration\<close>

definition new_meeting :: "uuid \<Rightarrow> client \<Rightarrow> request_values \<Rightarrow> meeting" where
  "new_meeting pk c v = \<lparr>m_id = pk, m_integration_client = c_id c, m_external_class_id = v_class_id v,
     m_teacher_id = v_teacher_id v, m_teacher_name = v_teacher_name v, m_subject_id = [], m_subject_name = [],
     m_batch_id = v_batch_id v, m_batch_name = v_batch_name v, m_meeting_title = v_title v,
     m_class_date = v_class_date v,
     m_schedule_type = (case v_schedule_type v of None \<Rightarrow> ''SCHEDULED'' | Some s \<Rightarrow> s),
     m_start_at = map_option dt_instant (v_start v), m_end_at = map_option dt_instant (v_end v),
     m_room = None, m_reservation = None, m_reservation_active = False, m_provider = ''CONVAY'',
     m_provider_meeting_type = ''INSTANT'', m_provision_strategy = ''IMMEDIATE'',
     m_provider_calendar_id = None, m_provider_unique_id = None, m_provider_panel_address = None,
     m_encrypted_provider_start_url = None, m_encrypted_provider_payload = None, m_status = DRAFT,
     m_provider_created_at = None, m_last_provider_error = None, m_created_at = 0, m_updated_at = 0,
     m_cancelled_at = None\<rparr>"

definition stored_time_differs :: "int option \<Rightarrow> datetime option \<Rightarrow> bool" where
  "stored_time_differs stored v = (case stored of None \<Rightarrow> False | Some t \<Rightarrow> \<not> dt_matches t v)"

definition request_differs :: "meeting \<Rightarrow> request_values \<Rightarrow> bool" where
  "request_differs m v \<longleftrightarrow>
     m_meeting_title m \<noteq> v_title v \<or> m_teacher_id m \<noteq> v_teacher_id v \<or> m_teacher_name m \<noteq> v_teacher_name v \<or>
     m_batch_id m \<noteq> v_batch_id v \<or> m_batch_name m \<noteq> v_batch_name v \<or> m_class_date m \<noteq> v_class_date v \<or>
     stored_time_differs (m_start_at m) (v_start v) \<or> stored_time_differs (m_end_at m) (v_end v)"

definition class_rows :: "client \<Rightarrow> string \<Rightarrow> db \<Rightarrow> meeting list" where
  "class_rows c class_id d =
     filter (\<lambda>m. m_integration_client m = c_id c \<and> m_external_class_id m = class_id) (db_meetings d)"

text \<open>
  \<open>get_or_create\<close> and the comparison with the original request; \<open>pk\<close> is the random id a new row
  would get. There is no enclosing transaction: the mismatch record stays although the call fails.
\<close>

definition register :: "env \<Rightarrow> int \<Rightarrow> uuid \<Rightarrow> client \<Rightarrow> request_values \<Rightarrow> db \<Rightarrow> (exn + meeting \<times> bool) \<times> db" where
  "register E now pk c v d =
     (case class_rows c (v_class_id v) d of
        [] \<Rightarrow>
          (case insert_meeting now (new_meeting pk c v) d of
             Inl x \<Rightarrow> (Inl x, d)
           | Inr (m, d1) \<Rightarrow> (Inr (m, True), audit_meeting E now ''meeting_draft_created'' m d1))
      | [m] \<Rightarrow>
          if request_differs m v
          then (Inl (GatewayError ''EXISTING_MEETING_MISMATCH'' ''Original meeting request data differs.'' 409),
                audit_meeting E now ''existing_meeting_mismatch'' m d)
          else (Inr (m, False), d)
      | _ \<Rightarrow>
          (Inl (GatewayError ''EXISTING_MEETING_REQUIRES_REVIEW''
                  ''Existing meeting records require operator review.'' 409), d))"

subsection \<open>The reserving transaction\<close>

record job =
  j_meeting :: meeting
  j_room :: room
  j_payload :: dict
  j_retrying :: bool

datatype begun = Replayed meeting | Started job

definition conflict :: "string \<Rightarrow> string \<Rightarrow> exn" where
  "conflict code msg = GatewayError code msg 409"

text \<open>The status checks, in the code's order: \<open>None\<close> lets a draft or a retryable failure through.\<close>

definition status_guard :: "status \<Rightarrow> exn option" where
  "status_guard s =
     (if s \<in> {RESERVED, PROVISIONING}
      then Some (conflict ''CREATION_IN_PROGRESS'' ''Meeting creation is already in progress.'')
      else if s \<in> {PROVIDER_STATE_UNKNOWN, PROVIDER_RESPONSE_INVALID}
      then Some (conflict ''PROVIDER_RECONCILIATION_REQUIRED''
                   ''Review the existing provider outcome before creating again.'')
      else if s = ENDED then Some (conflict ''CLASS_ALREADY_COMPLETED'' ''This class has already completed.'')
      else if s = NON_RETRYABLE_FAILED
      then Some (conflict ''PREVIOUS_CREATION_FAILED'' ''Previous creation failed; operator review is required.'')
      else if s = FAILED
      then Some (conflict ''PREVIOUS_CREATION_FAILED''
                   ''Previous meeting creation failed; operator review is required.'')
      else if s = CANCELLED then Some (conflict ''CLASS_CANCELLED'' ''This class has been cancelled.'')
      else if s \<notin> {DRAFT, RETRYABLE_FAILED}
      then Some (conflict ''EXISTING_MEETING_REQUIRES_REVIEW''
                   ''The existing meeting requires operator review.'')
      else None)"

definition truthy :: "string option \<Rightarrow> bool" where
  "truthy v \<longleftrightarrow> (case v of None \<Rightarrow> False | Some s \<Rightarrow> s \<noteq> [])"

definition has_provider_fields :: "meeting \<Rightarrow> bool" where
  "has_provider_fields m \<longleftrightarrow>
     truthy (m_provider_calendar_id m) \<or> truthy (m_provider_unique_id m) \<or>
     truthy (m_provider_panel_address m) \<or> truthy (m_encrypted_provider_start_url m)"

definition reserve_for :: "env \<Rightarrow> int \<Rightarrow> meeting \<Rightarrow> datetime \<Rightarrow> datetime option \<Rightarrow> db \<Rightarrow> exn + (meeting \<times> db)" where
  "reserve_for E now locked s e d =
     (if m_status locked = RETRYABLE_FAILED \<and> m_reservation_active locked \<and> m_room locked \<noteq> None
      then Inr (locked, d)
      else bind_r (save_meeting now (locked\<lparr>m_status := DRAFT\<rparr>) d) (\<lambda>(m1, d1).
        case e of
          None \<Rightarrow> Inl KeyError
        | Some e' \<Rightarrow> allocate_any_room E now (m_id m1) s e' d1))"

definition stored_payload :: "env \<Rightarrow> string \<Rightarrow> exn + dict" where
  "stored_payload E v =
     bind_r (decrypt E v) (\<lambda>plain. case loads plain of
         None \<Rightarrow> Inl ValueError
       | Some (JObj kvs) \<Rightarrow> Inr kvs
       | Some (JArr _) \<Rightarrow> Inl TypeError
       | Some _ \<Rightarrow> Inl AttributeError)"

definition payload_for :: "env \<Rightarrow> bool \<Rightarrow> meeting \<Rightarrow> room \<Rightarrow> client \<Rightarrow> db \<Rightarrow> exn + dict" where
  "payload_for E retrying m r c d =
     bind_r (if retrying \<and> truthy (m_encrypted_provider_payload m)
             then stored_payload E (the (m_encrypted_provider_payload m))
             else resolve_config E d c r) (\<lambda>p.
       Inr (dict_set ''title'' (JStr (m_meeting_title m)) (dict_pop ''meetingTitle'' p)))"

definition start_provisioning :: "env \<Rightarrow> int \<Rightarrow> bool \<Rightarrow> meeting \<Rightarrow> room \<Rightarrow> dict \<Rightarrow> db \<Rightarrow> exn + (begun \<times> db)" where
  "start_provisioning E now retrying m r payload d =
     (case map_of payload ''meetingType'' of
        None \<Rightarrow> Inl KeyError
      | Some t \<Rightarrow>
          if t = JStr ''scheduled''
          then Inl (GatewayError ''PROVIDER_CONTRACT_UNCONFIRMED''
                 ''Scheduled provider payload requires confirmed Convay timestamp fields.'' 422)
          else (case t of
              JStr kind \<Rightarrow>
                bind_r (encrypt E (dumps (JObj payload))) (\<lambda>enc.
                bind_r (save_meeting now (m\<lparr>m_provider_meeting_type := upper kind,
                           m_encrypted_provider_payload := Some enc, m_status := PROVISIONING\<rparr>) d) (\<lambda>(m', d').
                  Inr (Started \<lparr>j_meeting = m', j_room = r, j_payload = payload, j_retrying = retrying\<rparr>,
                       audit_meeting E now
                         (if retrying then ''provider_retry_started'' else ''provider_provisioning_started'') m' d')))
            | _ \<Rightarrow> Inl AttributeError))"

text \<open>What follows the status checks: the provider-field check, the date check, the reservation, the payload.\<close>

definition begin_creation :: "env \<Rightarrow> int \<Rightarrow> meeting \<Rightarrow> request_values \<Rightarrow> db \<Rightarrow> exn + (begun \<times> db)" where
  "begin_creation E now locked v d =
     (let retrying = (m_status locked = RETRYABLE_FAILED) in
      if retrying \<and> has_provider_fields locked
      then Inl (conflict ''PROVIDER_RECONCILIATION_REQUIRED''
                  ''Existing provider fields require review before another creation.'')
      else (case v_start v of
          None \<Rightarrow> Inl KeyError
        | Some s \<Rightarrow>
            if dt_date s \<noteq> m_class_date locked
            then Inl (GatewayError ''CLASS_DATE_MISMATCH''
                   ''The start date in the service timezone must match the class date.'' 400)
            else
              bind_r (reserve_for E now locked s (v_end v) d) (\<lambda>(m, d1).
                case (get_room (the (m_room m)) d1, get_client (m_integration_client m) d1) of
                  (Some r, Some c) \<Rightarrow>
                    bind_r (payload_for E retrying m r c d1) (\<lambda>payload.
                      start_provisioning E now retrying m r payload d1)
                | _ \<Rightarrow> Inl DoesNotExist)))"

definition provision_begin :: "env \<Rightarrow> int \<Rightarrow> uuid \<Rightarrow> request_values \<Rightarrow> db \<Rightarrow> exn + (begun \<times> db)" where
  "provision_begin E now pk v d =
     (case get_meeting pk d of
        None \<Rightarrow> Inl DoesNotExist
      | Some locked \<Rightarrow>
          if m_status locked \<in> {READY, LIVE}
          then Inr (Replayed locked, audit_meeting E now ''meeting_ready_replayed'' locked d)
          else (case status_guard (m_status locked) of
              Some x \<Rightarrow> Inl x
            | None \<Rightarrow> begin_creation E now locked v d))"

subsection \<open>The provider call\<close>

text \<open>
  Authentication and creation, outside any transaction. A 401 rejects the request for certain: the
  token is dropped, a new one is forced and creation is tried once more.
\<close>

definition is_unauthorized :: "exn \<Rightarrow> bool" where
  "is_unauthorized x \<longleftrightarrow> (case x of ProviderExn e \<Rightarrow> pe_status_code e = Some 401 | _ \<Rightarrow> False)"

definition provider_create ::
    "env \<Rightarrow> job \<Rightarrow> world \<Rightarrow> (exn + provider_meeting_result \<times> provider_auth_result) \<times> world" where
  "provider_create E j w =
     bind_w (get_token E (j_room j) False w) (\<lambda>tok w1.
       case start_meeting E (j_room j) (j_payload j) (access_token tok) w1 of
         (Inr res, w2) \<Rightarrow> (Inr (res, tok), w2)
       | (Inl x, w2) \<Rightarrow>
           if \<not> is_unauthorized x then (Inl x, w2)
           else bind_w (invalidate (j_room j) w2) (\<lambda>_ w3.
             bind_w (get_token E (j_room j) True w3) (\<lambda>tok' w4.
             bind_w (start_meeting E (j_room j) (j_payload j) (access_token tok') w4) (\<lambda>res w5.
               (Inr (res, tok'), w5)))))"

subsection \<open>Recording the outcome\<close>

definition retryable_code :: "string \<Rightarrow> bool" where
  "retryable_code code \<longleftrightarrow> code \<in> {''PROVIDER_UNAVAILABLE'', ''PROVIDER_RATE_LIMITED'', ''PROVIDER_AUTH_BUSY''}"

definition failed_status :: "provider_error \<Rightarrow> status" where
  "failed_status e =
     (if pe_ambiguous e then PROVIDER_STATE_UNKNOWN
      else if retryable_code (pe_code e) then RETRYABLE_FAILED else NON_RETRYABLE_FAILED)"

definition failed_row :: "int \<Rightarrow> provider_error \<Rightarrow> meeting \<Rightarrow> exn + meeting" where
  "failed_row now e m =
     (if pe_known_created e
      then (case pe_result e of
          None \<Rightarrow> Inl AttributeError
        | Some res \<Rightarrow> Inr (m\<lparr>m_status := PROVIDER_RESPONSE_INVALID, m_reservation_active := True,
            m_provider_calendar_id := Some (calendar_id res), m_provider_unique_id := unique_id res,
            m_provider_panel_address := meeting_panel_address res, m_provider_created_at := Some now\<rparr>))
      else Inr (m\<lparr>m_status := failed_status e,
             m_reservation_active := (pe_ambiguous e \<or> failed_status e = RETRYABLE_FAILED)\<rparr>))"

definition audit_if :: "bool \<Rightarrow> env \<Rightarrow> int \<Rightarrow> string \<Rightarrow> meeting \<Rightarrow> db \<Rightarrow> db" where
  "audit_if b E now action m d = (if b then audit_meeting E now action m d else d)"

text \<open>The transaction after a provider error; it does not look at the status it finds.\<close>

definition record_failure :: "env \<Rightarrow> int \<Rightarrow> uuid \<Rightarrow> bool \<Rightarrow> provider_error \<Rightarrow> db \<Rightarrow> exn + (meeting \<times> db)" where
  "record_failure E now pk retrying e d =
     (case get_meeting pk d of
        None \<Rightarrow> Inl DoesNotExist
      | Some current \<Rightarrow>
          bind_r (failed_row now e current) (\<lambda>m.
            let d1 = audit_if retrying E now ''provider_retry_failed'' m d;
                d2 = audit_if (pe_ambiguous e) E now ''provider_state_unknown'' m d1
            in bind_r (save_meeting now (m\<lparr>m_last_provider_error := Some (pe_code e)\<rparr>) d2) (\<lambda>(m', d3).
                 Inr (m', audit E now ''provider_error'' ''meetings.Meeting'' (m_id m')
                            (Some (m_integration_client m')) None (Some e) d3))))"

text \<open>The client-facing error of a failed creation.\<close>

definition failure_response :: "provider_error \<Rightarrow> exn" where
  "failure_response e =
     (let st = (if pe_code e = ''PROVIDER_VALIDATION_ERROR'' then 422
                else if pe_code e \<in> {''PROVIDER_RATE_LIMITED'', ''PROVIDER_UNAVAILABLE''} then 503 else 502);
          msg = (if pe_known_created e
                 then ''Convay created the meeting, but its response could not be fully validated; reservation retained.''
                 else if pe_ambiguous e then ''Provider creation outcome is unknown; reservation retained.''
                 else if pe_code e = ''PROVIDER_VALIDATION_ERROR'' then ''Convay rejected the meeting payload.''
                 else if pe_code e = ''PROVIDER_RATE_LIMITED'' then ''Convay rate limited the request.''
                 else if pe_code e = ''PROVIDER_UNAVAILABLE'' then ''Convay is currently unavailable.''
                 else ''Provider authentication or creation failed.'')
      in GatewayError (pe_code e) msg st)"

definition or_else :: "string option \<Rightarrow> string option \<Rightarrow> string option" where
  "or_else a b = (if truthy a then a else b)"

text \<open>\<open>encrypt(url) if url else None\<close>, evaluated only when no URL is stored yet.\<close>

definition start_url_column :: "env \<Rightarrow> meeting \<Rightarrow> provider_meeting_result \<Rightarrow> exn + string option" where
  "start_url_column E m res =
     (if truthy (m_encrypted_provider_start_url m) then Inr (m_encrypted_provider_start_url m)
      else (case start_meeting_url res of
          None \<Rightarrow> Inr None
        | Some u \<Rightarrow> if u = [] then Inr None else bind_r (encrypt E u) (\<lambda>c. Inr (Some c))))"

text \<open>
  The transaction after a successful creation. The late-response audit record is written inside the
  transaction that the raised error rolls back, so it is not part of the result.
\<close>

definition record_success ::
    "env \<Rightarrow> int \<Rightarrow> uuid \<Rightarrow> bool \<Rightarrow> provider_meeting_result \<Rightarrow> db \<Rightarrow> exn + (meeting \<times> db)" where
  "record_success E now pk retrying res d =
     (case get_meeting pk d of
        None \<Rightarrow> Inl DoesNotExist
      | Some current \<Rightarrow>
          if m_status current \<notin> {PROVISIONING, PROVIDER_STATE_UNKNOWN}
          then Inl (conflict ''PROVIDER_RECONCILIATION_REQUIRED''
                 ''An operator changed the meeting during creation; review provider state.'')
          else
            bind_r (start_url_column E current res) (\<lambda>url.
            bind_r (save_meeting now (current\<lparr>
                m_provider_calendar_id := or_else (m_provider_calendar_id current) (Some (calendar_id res)),
                m_provider_unique_id := or_else (m_provider_unique_id current) (unique_id res),
                m_provider_panel_address := or_else (m_provider_panel_address current) (meeting_panel_address res),
                m_encrypted_provider_start_url := url, m_provider_created_at := Some now,
                m_status := READY, m_last_provider_error := None\<rparr>) d) (\<lambda>(m, d1).
              Inr (m, audit_if retrying E now ''provider_retry_succeeded'' m
                        (audit_meeting E now ''meeting_created'' m d1)))))"

definition run_tx :: "(db \<Rightarrow> exn + ('a \<times> db)) \<Rightarrow> world \<Rightarrow> (exn + 'a) \<times> world" where
  "run_tx tx w = (case tx (w_db w) of Inl x \<Rightarrow> (Inl x, w) | Inr (a, d) \<Rightarrow> (Inr a, w\<lparr>w_db := d\<rparr>))"

text \<open>\<open>provision\<close> of one process with nobody in between.\<close>

definition provision_finish ::
    "env \<Rightarrow> job \<Rightarrow> (exn + provider_meeting_result \<times> provider_auth_result) \<Rightarrow> world \<Rightarrow>
     (exn + meeting \<times> provider_auth_result option) \<times> world" where
  "provision_finish E j outcome w =
     (let pk = m_id (j_meeting j) in
      case outcome of
        Inr (res, tok) \<Rightarrow>
          bind_w (run_tx (record_success E (w_now w) pk (j_retrying j) res) w) (\<lambda>m w'. (Inr (m, Some tok), w'))
      | Inl (ProviderExn e) \<Rightarrow>
          bind_w (if pe_status_code e = Some 401 then invalidate (j_room j) w else (Inr (), w)) (\<lambda>_ w1.
          bind_w (run_tx (record_failure E (w_now w1) pk (j_retrying j) e) w1) (\<lambda>_ w2.
            (Inl (failure_response e), w2)))
      | Inl x \<Rightarrow> (Inl x, w))"

definition provision ::
    "env \<Rightarrow> uuid \<Rightarrow> request_values \<Rightarrow> world \<Rightarrow> (exn + meeting \<times> provider_auth_result option) \<times> world" where
  "provision E pk v w =
     bind_w (run_tx (provision_begin E (w_now w) pk v) w) (\<lambda>b w1.
       case b of
         Replayed m \<Rightarrow> (Inr (m, None), w1)
       | Started j \<Rightarrow> (case provider_create E j w1 of (outcome, w2) \<Rightarrow> provision_finish E j outcome w2))"

subsection \<open>Cancellation and the stale sweep\<close>

definition cancellable :: "status \<Rightarrow> bool" where
  "cancellable s \<longleftrightarrow> s \<in> {DRAFT, RESERVED, FAILED, RETRYABLE_FAILED, NON_RETRYABLE_FAILED}"

definition cancel :: "env \<Rightarrow> int \<Rightarrow> uuid \<Rightarrow> db \<Rightarrow> exn + (meeting \<times> db)" where
  "cancel E now pk d =
     (case get_meeting pk d of
        None \<Rightarrow> Inl DoesNotExist
      | Some current \<Rightarrow>
          if m_status current = CANCELLED then Inr (current, d)
          else if \<not> cancellable (m_status current)
          then Inl (conflict ''PROVIDER_RECONCILIATION_REQUIRED''
                 ''Confirm provider termination through operations before releasing this reservation.'')
          else bind_r (save_meeting now (current\<lparr>m_status := CANCELLED, m_reservation_active := False,
                         m_cancelled_at := Some now\<rparr>) d) (\<lambda>(m, d1).
                 Inr (m, audit_meeting E now ''meeting_cancelled'' m d1)))"

definition stale_after_us :: int where "stale_after_us = 10 * minute_us"

definition is_stale :: "int \<Rightarrow> meeting \<Rightarrow> bool" where
  "is_stale now m \<longleftrightarrow> m_status m = PROVISIONING \<and> m_updated_at m < now - stale_after_us"

text \<open>One selected row after the other; \<open>audit(..., meeting)\<close> without a client is a \<open>SYSTEM\<close> record.\<close>

fun flag_rows :: "env \<Rightarrow> int \<Rightarrow> meeting list \<Rightarrow> db \<Rightarrow> exn + db" where
  "flag_rows E now [] d = Inr d"
| "flag_rows E now (m # ms) d =
     bind_r (save_meeting now (m\<lparr>m_status := PROVIDER_STATE_UNKNOWN,
               m_last_provider_error := Some ''PROVISIONING_INTERRUPTED''\<rparr>) d) (\<lambda>(m', d1).
       flag_rows E now ms
         (audit E now ''provider_state_unknown'' ''meetings.Meeting'' (m_id m') None None None d1))"

text \<open>The sweep; rows that other transactions hold locked are skipped.\<close>

definition flag_stale_provisioning :: "env \<Rightarrow> int \<Rightarrow> uuid list \<Rightarrow> db \<Rightarrow> exn + db" where
  "flag_stale_provisioning E now locked d =
     flag_rows E now (filter (\<lambda>m. is_stale now m \<and> m_id m \<notin> set locked) (db_meetings d)) d"

subsection \<open>Representations\<close>

definition opt_str :: "string option \<Rightarrow> json" where
  "opt_str v = (case v of None \<Rightarrow> JNull | Some s \<Rightarrow> JStr s)"

text \<open>\<open>date.isoformat()\<close> of a day number is a parameter like the datetime one.\<close>

definition authorization :: "env \<Rightarrow> provider_auth_result \<Rightarrow> json" where
  "authorization E tok = JObj
     [(''accessToken'', JStr (access_token tok)), (''tokenType'', JStr ''Bearer''),
      (''expiresAt'', case expires_at tok of None \<Rightarrow> JNull | Some d \<Rightarrow> JStr (e_isoformat E d))]"

text \<open>
  \<open>date.isoformat()\<close> of a day number (days since 1970-01-01, proleptic Gregorian calendar), in
  eras of 400 years that start on the first of March.
\<close>

definition pad :: "nat \<Rightarrow> int \<Rightarrow> string" where
  "pad n i = (let s = show_int i in replicate (n - length s) (CHR ''0'') @ s)"

definition civil :: "int \<Rightarrow> int \<times> int \<times> int" where
  "civil day =
     (let z = day + 719468; era = z div 146097; doe = z mod 146097;
          yoe = (doe - doe div 1460 + doe div 36524 - doe div 146096) div 365;
          doy = doe - (365 * yoe + yoe div 4 - yoe div 100);
          mp = (5 * doy + 2) div 153;
          d = doy - (153 * mp + 2) div 5 + 1;
          m = (if mp < 10 then mp + 3 else mp - 9);
          y = yoe + era * 400 + (if m \<le> 2 then 1 else 0)
      in (y, m, d))"

definition date_isoformat :: "int \<Rightarrow> string" where
  "date_isoformat day = (case civil day of (y, m, d) \<Rightarrow> pad 4 y @ ''-'' @ pad 2 m @ ''-'' @ pad 2 d)"

definition opt_time :: "env \<Rightarrow> int option \<Rightarrow> json" where
  "opt_time E t = (case t of None \<Rightarrow> JNull | Some x \<Rightarrow> JStr (e_isoformat E (utc x)))"

definition start_url_member :: "env \<Rightarrow> meeting \<Rightarrow> exn + json" where
  "start_url_member E m =
     (if truthy (m_encrypted_provider_start_url m)
      then bind_r (decrypt E (the (m_encrypted_provider_start_url m))) (\<lambda>u. Inr (JStr u))
      else Inr JNull)"

definition representation :: "env \<Rightarrow> meeting \<Rightarrow> provider_auth_result option \<Rightarrow> exn + json" where
  "representation E m token =
     (let convay = [(''meetingType'', JStr (lower (m_provider_meeting_type m))),
                    (''calendarId'', opt_str (m_provider_calendar_id m)),
                    (''meetingPanelAddress'', opt_str (m_provider_panel_address m))];
          value = (\<lambda>cv. JObj
            [(''id'', JStr (show_uuid (m_id m))),
             (''classInfo'', JObj
               [(''classId'', JStr (m_external_class_id m)),
                (''teacher'', JObj [(''id'', JStr (m_teacher_id m)), (''name'', JStr (m_teacher_name m))]),
                (''batch'', JObj [(''id'', JStr (m_batch_id m)), (''name'', JStr (m_batch_name m))])]),
             (''meetingInfo'', JObj
               [(''meetingTitle'', JStr (m_meeting_title m)),
                (''classDate'', JStr (date_isoformat (m_class_date m))),
                (''scheduleType'', JStr (lower (m_schedule_type m))),
                (''startAt'', opt_time E (m_start_at m)), (''endAt'', opt_time E (m_end_at m)),
                (''status'', JStr (status_text (m_status m)))]),
             (''convay'', JObj cv),
             (''createdAt'', JStr (e_isoformat E (utc (m_created_at m))))])
      in case token of
           None \<Rightarrow> Inr (value convay)
         | Some tok \<Rightarrow>
             bind_r (start_url_member E m) (\<lambda>url.
               Inr (value (convay @ [(''authorization'', authorization E tok), (''startMeetingUrl'', url)]))))"

subsection \<open>Registration\<close>

text \<open>The members of a meeting no operation of the service may change.\<close>

definition identity :: "meeting \<Rightarrow> uuid \<times> uuid \<times> string list \<times> int \<times> int" where
  "identity m = (m_id m, m_integration_client m,
     [m_external_class_id m, m_teacher_id m, m_teacher_name m, m_subject_id m, m_subject_name m,
      m_batch_id m, m_batch_name m, m_meeting_title m, m_schedule_type m, m_provider m,
      m_provision_strategy m],
     m_class_date m, m_created_at m)"

lemma class_rows_mem:
  "m \<in> set (class_rows c k d) \<longleftrightarrow>
     m \<in> set (db_meetings d) \<and> m_integration_client m = c_id c \<and> m_external_class_id m = k"
  by (auto simp: class_rows_def)

text \<open>The unique constraint leaves at most one row per class: the legacy branch is dead under it.\<close>

lemma class_rows_unique:
  assumes wf: "meetings_wf d"
  shows "class_rows c k d = [] \<or> (\<exists>m. class_rows c k d = [m])"
proof -
  have d: "distinct (map m_id (class_rows c k d))"
    using wf by (simp add: class_rows_def meetings_wf_def distinct_map_filter)
  have "m_id a = m_id b" if "a \<in> set (class_rows c k d)" "b \<in> set (class_rows c k d)" for a b
    using that wf unfolding class_rows_mem meetings_wf_def same_class_def by metis
  then have "class_rows c k d \<noteq> x # y # zs" for x y zs using d[unfolded distinct_map]
    by (metis distinct_length_2_or_more inj_onD list.set_intros)
  then show ?thesis by (metis neq_Nil_conv)
qed

lemma register_cases:
  assumes wf: "meetings_wf d" and reg: "register E now pk c v d = (res, d')"
  obtains (fresh) m d1 where "class_rows c (v_class_id v) d = []"
      "insert_meeting now (new_meeting pk c v) d = Inr (m, d1)" "res = Inr (m, True)"
      "d' = audit_meeting E now ''meeting_draft_created'' m d1"
  | (refused) x where "class_rows c (v_class_id v) d = []"
      "insert_meeting now (new_meeting pk c v) d = Inl x" "res = Inl x" "d' = d"
  | (same) m where "class_rows c (v_class_id v) d = [m]" "\<not> request_differs m v" "res = Inr (m, False)" "d' = d"
  | (mismatch) m where "class_rows c (v_class_id v) d = [m]" "request_differs m v"
      "res = Inl (GatewayError ''EXISTING_MEETING_MISMATCH'' ''Original meeting request data differs.'' 409)"
      "d' = audit_meeting E now ''existing_meeting_mismatch'' m d"
proof (cases "class_rows c (v_class_id v) d = []")
  case True
  show ?thesis
  proof (cases "insert_meeting now (new_meeting pk c v) d")
    case (Inl x)
    then have "res = Inl x \<and> d' = d" using reg True by (simp add: register_def)
    then show ?thesis using True Inl refused by blast
  next
    case (Inr p)
    obtain m d1 where p: "p = (m, d1)" by (cases p)
    have "res = Inr (m, True) \<and> d' = audit_meeting E now ''meeting_draft_created'' m d1"
      using reg True Inr p by (simp add: register_def)
    then show ?thesis using True Inr p fresh by blast
  qed
next
  case False
  then obtain m where m: "class_rows c (v_class_id v) d = [m]" using class_rows_unique[OF wf] by blast
  show ?thesis
  proof (cases "request_differs m v")
    case True
    then have "res = Inl (GatewayError ''EXISTING_MEETING_MISMATCH'' ''Original meeting request data differs.'' 409)
        \<and> d' = audit_meeting E now ''existing_meeting_mismatch'' m d"
      using reg m by (simp add: register_def)
    then show ?thesis using True m mismatch by blast
  next
    case False
    then have "res = Inr (m, False) \<and> d' = d" using reg m by (simp add: register_def)
    then show ?thesis using False m same by blast
  qed
qed

end
