(* ===== verification/Transactions.thy ===== *)
theory Transactions
  imports Meetings
begin

text \<open>
  The contract of the service's transactions and the proof that each of them keeps it. A
  transaction that commits keeps the database well formed (so no room is double-booked), changes
  only the meetings it is about, never their identity, and only appends to the audit trail.
\<close>

definition tx_effect :: "uuid set \<Rightarrow> db \<Rightarrow> db \<Rightarrow> bool" where
  "tx_effect K d d' \<longleftrightarrow>
     db_wf d' \<and> db_rooms d' = db_rooms d \<and> db_clients d' = db_clients d \<and> db_presets d' = db_presets d \<and>
     (\<exists>records. db_audit d' = db_audit d @ records) \<and>
     (\<forall>k. k \<notin> K \<longrightarrow> get_meeting k d' = get_meeting k d) \<and>
     (\<forall>k m. get_meeting k d = Some m \<longrightarrow> (\<exists>m'. get_meeting k d' = Some m' \<and> identity m' = identity m)) \<and>
     map m_id (db_meetings d') = map m_id (db_meetings d)"

lemma tx_effect_refl: "db_wf d \<Longrightarrow> tx_effect K d d"
  by (simp add: tx_effect_def)

lemma tx_effect_trans:
  assumes "tx_effect K d d1" and "tx_effect K d1 d2"
  shows "tx_effect K d d2"
proof -
  have "\<exists>m'. get_meeting k d2 = Some m' \<and> identity m' = identity m" if "get_meeting k d = Some m" for k m
    using assms that unfolding tx_effect_def by metis
  moreover have "\<exists>records. db_audit d2 = db_audit d @ records"
    using assms unfolding tx_effect_def by (metis append_assoc)
  ultimately show ?thesis using assms unfolding tx_effect_def by simp
qed

lemma tx_effect_audit:
  assumes "tx_effect K d d1"
  shows "tx_effect K d (audit E now a l ob c ad p d1)" and "tx_effect K d (audit_meeting E now a m d1)"
    and "tx_effect K d (audit_if b E now a m d1)"
proof -
  have get: "get_meeting k (audit E now a l ob c ad p d1) = get_meeting k d1" for k a l ob c ad p
    by (rule fetch_cong) simp
  show *: "tx_effect K d (audit E now a l ob c ad p d1)" for a l ob c ad p
    using assms unfolding tx_effect_def get audit_wf audit_frame
    by (auto simp: audit_def audit_record_def)
  show **: "tx_effect K d (audit_meeting E now a m d1)"
    unfolding audit_meeting_def by (rule *)
  show "tx_effect K d (audit_if b E now a m d1)"
    unfolding audit_if_def using assms ** by simp
qed

lemma tx_effect_mono: "tx_effect K d d' \<Longrightarrow> K \<subseteq> K' \<Longrightarrow> tx_effect K' d d'"
  by (auto simp: tx_effect_def)

lemma save_effect:
  assumes wf: "db_wf d" and m0: "get_meeting (m_id m) d = Some m0" and id: "identity m = identity m0"
    and room: "\<And>r. m_room m = Some r \<Longrightarrow> m_room m \<noteq> m_room m0 \<Longrightarrow> get_room r d \<noteq> None"
    and s: "save_meeting now m d = Inr (m', d')"
  shows "tx_effect {m_id m} d d'"
proof -
  have mem: "m0 \<in> set (db_meetings d)" using m0 by (rule meeting_tbl.fetch_mem)
  have cl: "m_integration_client m = m_integration_client m0" using id by (simp add: identity_def)
  have "db_wf d'"
  proof (rule save_meeting_db_wf[OF wf s])
    show "get_client (m_integration_client m) d \<noteq> None"
      using wf mem by (simp add: cl db_wf_def refs_wf_def)
    show "get_room r d \<noteq> None" if "m_room m = Some r" for r
    proof (cases "m_room m = m_room m0")
      case True
      then show ?thesis using wf mem that by (simp add: db_wf_def refs_wf_def)
    next
      case False
      then show ?thesis using room that by blast
    qed
  qed
  moreover have "\<exists>x. get_meeting k d' = Some x \<and> identity x = identity y"
    if "get_meeting k d = Some y" for k y
  proof (cases "k = m_id m")
    case True
    then have "y = m0" using that m0 by simp
    moreover have "get_meeting k d' = Some m'" using save_meeting_get[OF s] m0 True by simp
    moreover have "identity m' = identity m" using save_meetingD(1)[OF s] by (simp add: identity_def)
    ultimately show ?thesis using id by simp
  next
    case False
    then show ?thesis using save_meeting_get_other[OF s] that by simp
  qed
  moreover have "\<exists>records. db_audit d' = db_audit d @ records"
    using save_meeting_frame(4)[OF s] by simp
  ultimately show ?thesis
    using save_meeting_frame[OF s] save_meeting_get_other[OF s] by (simp add: tx_effect_def)
qed

text \<open>The interface: one transaction about the meetings \<open>K\<close>, and what its callers rely on.\<close>

locale meeting_transaction =
  fixes tx :: "db \<Rightarrow> exn + ('a \<times> db)"
    and K :: "uuid set"
  assumes effect: "db_wf d \<Longrightarrow> tx d = Inr (a, d') \<Longrightarrow> tx_effect K d d'"
begin

lemma keeps_wf: "db_wf d \<Longrightarrow> tx d = Inr (a, d') \<Longrightarrow> db_wf d'"
  by (drule (1) effect) (simp add: tx_effect_def)

lemma keeps_bookings: "db_wf d \<Longrightarrow> tx d = Inr (a, d') \<Longrightarrow> no_double_booking d'"
  by (drule (1) keeps_wf) (simp add: db_wf_def meetings_wf_no_double_booking)

lemma keeps_identity:
  assumes "db_wf d" and "tx d = Inr (a, d')" and "get_meeting k d = Some m"
  obtains m' where "get_meeting k d' = Some m'" "identity m' = identity m"
  using effect[OF assms(1,2)] assms(3) unfolding tx_effect_def by blast

lemma keeps_others: "db_wf d \<Longrightarrow> tx d = Inr (a, d') \<Longrightarrow> k \<notin> K \<Longrightarrow> get_meeting k d' = get_meeting k d"
  using effect unfolding tx_effect_def by blast

lemma audit_grows: "db_wf d \<Longrightarrow> tx d = Inr (a, d') \<Longrightarrow> \<exists>records. db_audit d' = db_audit d @ records"
  using effect unfolding tx_effect_def by blast

text \<open>Run on a world: an error leaves the database alone, a commit has the effect.\<close>

lemma run_effect:
  assumes "db_wf (w_db w)" and "run_tx tx w = (res, w')"
  shows "tx_effect K (w_db w) (w_db w')"
  using assms effect tx_effect_refl
  by (auto simp: run_tx_def split: sum.splits prod.splits)

end

subsection \<open>The transactions\<close>

lemma get_key: "get_meeting pk d = Some m \<Longrightarrow> m_id m = pk"
  by (rule meeting_tbl.fetch_keyD)

lemma reserve_effect:
  assumes wf: "db_wf d" and res: "reserve_specific_room E now pk room_id s e d = Inr (m, d')"
  shows "tx_effect {pk} d d' \<and> get_meeting pk d' = Some m \<and> m_room m \<noteq> None \<and> m_reservation_active m"
proof -
  from reserveD[OF res] obtain slot m0 r where
    m0: "get_meeting pk d = Some m0" and r: "r \<in> set (db_rooms d)"
    and m: "m = (reserved_row m0 r s e slot)\<lparr>m_updated_at := now\<rparr>" and v: "meeting_violation m d = None"
    and d': "d' = audit_meeting E now ''slot_reserved'' m (store db_meetings set_meetings m_id m d)"
    by blast
  have id: "m_id m0 = pk" "m_id m = pk" using get_key[OF m0] by (simp_all add: m)
  have s: "save_meeting now (reserved_row m0 r s e slot) d = Inr (m, store db_meetings set_meetings m_id m d)"
    using v by (simp add: save_meeting_def m Let_def)
  have "get_room (r_id r) d \<noteq> None"
    using wf r by (auto simp: db_wf_def rooms_wf_def dest: room_tbl.fetch_distinct)
  then have "tx_effect {pk} d (store db_meetings set_meetings m_id m d)"
    using save_effect[OF wf _ _ _ s, of m0] m0 id by (simp add: identity_def reserved_row_def)
  then have "tx_effect {pk} d d'" unfolding d' by (rule tx_effect_audit)
  moreover have "get_meeting pk d' = get_meeting pk (store db_meetings set_meetings m_id m d)"
    by (rule fetch_cong) (simp add: d')
  moreover have "get_meeting pk (store db_meetings set_meetings m_id m d) = Some m"
    using save_meeting_get[OF s] m0 id by simp
  ultimately show ?thesis by (simp add: m)
qed

lemma try_rooms_effect:
  assumes "db_wf d" and "try_rooms E now pk ids s e d = Inr (m, d')"
  shows "tx_effect {pk} d d' \<and> get_meeting pk d' = Some m \<and> m_room m \<noteq> None \<and> m_reservation_active m"
  using assms(2)
proof (induction ids)
  case (Cons i ids)
  show ?case
  proof (cases "reserve_specific_room E now pk i s e d")
    case (Inl x)
    then have "try_rooms E now pk ids s e d = Inr (m, d')"
      using Cons.prems by (cases x) (auto split: if_splits)
    then show ?thesis by (rule Cons.IH)
  next
    case (Inr p)
    then show ?thesis using Cons.prems reserve_effect[OF assms(1)] by (cases p) simp
  qed
qed simp

lemma allocate_effect:
  assumes "db_wf d" and "allocate_any_room E now pk s e d = Inr (m, d')"
  shows "tx_effect {pk} d d' \<and> get_meeting pk d' = Some m \<and> m_room m \<noteq> None \<and> m_reservation_active m"
  using try_rooms_effect[OF assms(1)] assms(2) by (simp add: allocate_any_room_def)

lemma status_guard_None_iff: "status_guard s = None \<longleftrightarrow> s = DRAFT \<or> s = RETRYABLE_FAILED"
  by (cases s) (simp_all add: status_guard_def)

lemma start_provisioningD:
  assumes "start_provisioning E now retrying m r payload d = Inr (b, d')"
  shows "\<exists>kind enc m' d1. map_of payload ''meetingType'' = Some (JStr kind) \<and> kind \<noteq> ''scheduled'' \<and>
    encrypt E (dumps (JObj payload)) = Inr enc \<and>
    save_meeting now (m\<lparr>m_provider_meeting_type := upper kind, m_encrypted_provider_payload := Some enc,
      m_status := PROVISIONING\<rparr>) d = Inr (m', d1) \<and>
    b = Started \<lparr>j_meeting = m', j_room = r, j_payload = payload, j_retrying = retrying\<rparr> \<and>
    d' = audit_meeting E now
      (if retrying then ''provider_retry_started'' else ''provider_provisioning_started'') m' d1"
proof -
  obtain t where t: "map_of payload ''meetingType'' = Some t"
    using assms by (cases "map_of payload ''meetingType''") (simp_all add: start_provisioning_def)
  obtain kind where k: "t = JStr kind" "kind \<noteq> ''scheduled''"
    using assms t by (cases t) (auto simp: start_provisioning_def split: if_splits)
  show ?thesis
    using assms t k by (auto simp: start_provisioning_def bind_r_Inr_iff)
qed

lemma begin_creationD:
  assumes b: "begin_creation E now locked v d = Inr (b', d')"
  obtains s m d1 rm c p where "m_status locked = RETRYABLE_FAILED \<Longrightarrow> \<not> has_provider_fields locked"
    "v_start v = Some s" "dt_date s = m_class_date locked"
    "reserve_for E now locked s (v_end v) d = Inr (m, d1)"
    "get_room (the (m_room m)) d1 = Some rm"
    "get_client (m_integration_client m) d1 = Some c"
    "payload_for E (m_status locked = RETRYABLE_FAILED) m rm c d1 = Inr p"
    "start_provisioning E now (m_status locked = RETRYABLE_FAILED) m rm p d1 = Inr (b', d')"
proof -
  let ?retry = "m_status locked = RETRYABLE_FAILED"
  have f: "\<not> (?retry \<and> has_provider_fields locked)"
  proof
    assume "?retry \<and> has_provider_fields locked"
    then show False using b by (simp add: begin_creation_def)
  qed
  note eq = b[unfolded begin_creation_def Let_def if_not_P[OF f]]
  obtain s where s: "v_start v = Some s" using eq by (cases "v_start v") simp_all
  have day: "dt_date s = m_class_date locked" using eq s by (simp split: if_splits)
  obtain q where q: "reserve_for E now locked s (v_end v) d = Inr q"
    using eq s day by (cases "reserve_for E now locked s (v_end v) d") simp_all
  obtain m d1 where q': "q = (m, d1)" by (cases q)
  note r = q[unfolded q']
  obtain rm where rm: "get_room (the (m_room m)) d1 = Some rm"
    using eq s day r by (cases "get_room (the (m_room m)) d1") simp_all
  obtain c where c: "get_client (m_integration_client m) d1 = Some c"
    using eq s day r rm by (cases "get_client (m_integration_client m) d1") simp_all
  obtain p where p: "payload_for E ?retry m rm c d1 = Inr p"
    using eq s day r rm c by (cases "payload_for E ?retry m rm c d1") simp_all
  have "start_provisioning E now ?retry m rm p d1 = Inr (b', d')"
    using eq s day r rm c p by simp
  with f s day r rm c p that show ?thesis by blast
qed

lemma provision_begin_cases:
  assumes b: "provision_begin E now pk v d = Inr (b', d')"
  obtains (replay) m where "get_meeting pk d = Some m" "m_status m = READY \<or> m_status m = LIVE"
      "b' = Replayed m" "d' = audit_meeting E now ''meeting_ready_replayed'' m d"
  | (begun) locked where "get_meeting pk d = Some locked"
      "m_status locked = DRAFT \<or> m_status locked = RETRYABLE_FAILED"
      "begin_creation E now locked v d = Inr (b', d')"
proof -
  obtain locked where l: "get_meeting pk d = Some locked"
    using b by (cases "get_meeting pk d") (simp_all add: provision_begin_def)
  show ?thesis
  proof (cases "m_status locked = READY \<or> m_status locked = LIVE")
    case True
    then have "b' = Replayed locked \<and> d' = audit_meeting E now ''meeting_ready_replayed'' locked d"
      using b l by (auto simp: provision_begin_def)
    then show ?thesis using replay l True by blast
  next
    case False
    have g: "status_guard (m_status locked) = None"
      using b l False by (cases "status_guard (m_status locked)") (simp_all add: provision_begin_def)
    have "begin_creation E now locked v d = Inr (b', d')"
      using b l False g by (simp add: provision_begin_def)
    then show ?thesis using begun l g by (simp add: status_guard_None_iff)
  qed
qed

lemma reserve_for_effect:
  assumes wf: "db_wf d" and l: "get_meeting pk d = Some locked"
    and st: "m_status locked = DRAFT \<or> m_status locked = RETRYABLE_FAILED"
    and r: "reserve_for E now locked s e d = Inr (m, d1)"
  shows "tx_effect {pk} d d1 \<and> get_meeting pk d1 = Some m \<and> m_room m \<noteq> None \<and> m_id m = pk \<and> m_reservation_active m"
proof (cases "m_status locked = RETRYABLE_FAILED \<and> m_reservation_active locked \<and> m_room locked \<noteq> None")
  case True
  then show ?thesis using r l wf tx_effect_refl get_key[OF l] by (auto simp: reserve_for_def)
next
  case False
  then obtain m1 d0 e' where s: "save_meeting now (locked\<lparr>m_status := DRAFT\<rparr>) d = Inr (m1, d0)"
      and a: "allocate_any_room E now (m_id m1) s e' d0 = Inr (m, d1)"
    using r by (auto simp: reserve_for_def bind_r_Inr_iff split: option.splits)
  have id: "m_id locked = pk" "m_id m1 = pk" using get_key[OF l] save_meetingD(1)[OF s] by simp_all
  have 1: "tx_effect {pk} d d0"
    using save_effect[OF wf _ _ _ s, of locked] l id by (simp add: identity_def)
  then have "db_wf d0" by (simp add: tx_effect_def)
  from allocate_effect[OF this a[unfolded id]] have 2: "tx_effect {pk} d0 d1" "get_meeting pk d1 = Some m"
      "m_room m \<noteq> None" "m_reservation_active m" by simp_all
  then show ?thesis using tx_effect_trans[OF 1 2(1)] get_key by blast
qed

lemma begin_creation_effect:
  assumes wf: "db_wf d" and l: "get_meeting pk d = Some locked"
    and st: "m_status locked = DRAFT \<or> m_status locked = RETRYABLE_FAILED"
    and b: "begin_creation E now locked v d = Inr (b', d')"
  shows "\<exists>j. b' = Started j \<and> tx_effect {pk} d d' \<and> get_meeting pk d' = Some (j_meeting j) \<and>
    m_id (j_meeting j) = pk \<and> m_status (j_meeting j) = PROVISIONING \<and>
    m_reservation_active (j_meeting j) \<and> m_room (j_meeting j) = Some (r_id (j_room j)) \<and>
    (j_retrying j \<longleftrightarrow> m_status locked = RETRYABLE_FAILED)"
  using b
proof (cases rule: begin_creationD)
  case (1 s m d1 rm c p)
  from reserve_for_effect[OF wf l st 1(4)] have r: "tx_effect {pk} d d1" "get_meeting pk d1 = Some m" "m_id m = pk"
      "m_reservation_active m" "m_room m \<noteq> None" by simp_all
  have room: "m_room m = Some (r_id rm)" using r(5) room_tbl.fetch_keyD[OF 1(5)] by auto
  from start_provisioningD[OF 1(8)] obtain kind enc m' d2 where
    s: "save_meeting now (m\<lparr>m_provider_meeting_type := upper kind, m_encrypted_provider_payload := Some enc,
        m_status := PROVISIONING\<rparr>) d1 = Inr (m', d2)"
    and b': "b' = Started \<lparr>j_meeting = m', j_room = rm, j_payload = p,
        j_retrying = (m_status locked = RETRYABLE_FAILED)\<rparr>"
    and d': "\<exists>a. d' = audit_meeting E now a m' d2"
    by blast
  have wf1: "db_wf d1" using r(1) by (simp add: tx_effect_def)
  have m': "m_id m' = pk" "m_status m' = PROVISIONING" "m_reservation_active m'" "m_room m' = Some (r_id rm)"
    using save_meetingD(1)[OF s] r room by simp_all
  have "tx_effect {pk} d1 d2"
    using save_effect[OF wf1 _ _ _ s, of m] r by (simp add: identity_def)
  then have "tx_effect {pk} d d2" using r(1) tx_effect_trans by blast
  moreover have "get_meeting pk d2 = Some m'" using save_meeting_get[OF s] r by simp
  ultimately show ?thesis
    using b' d' m' tx_effect_audit(2) fetch_cong[of db_meetings d' d2 m_id pk] by auto
qed

lemma provision_begin_effect:
  assumes wf: "db_wf d" and b: "provision_begin E now pk v d = Inr (b', d')"
  shows "tx_effect {pk} d d'"
  using b
proof (cases rule: provision_begin_cases)
  case (replay m)
  then show ?thesis using tx_effect_audit(2)[OF tx_effect_refl[OF wf]] by simp
next
  case (begun locked)
  then show ?thesis using begin_creation_effect[OF wf] by blast
qed

lemma failed_row_cases:
  assumes "failed_row now e m = Inr m'"
  shows "m_id m' = m_id m \<and> identity m' = identity m \<and> m_room m' = m_room m \<and>
    m_status m' = (if pe_known_created e then PROVIDER_RESPONSE_INVALID else failed_status e) \<and>
    (m_reservation_active m' \<longleftrightarrow> pe_known_created e \<or> pe_ambiguous e \<or> retryable_code (pe_code e)) \<and>
    m_reservation m' = m_reservation m \<and> m_start_at m' = m_start_at m \<and> m_end_at m' = m_end_at m"
  using assms
  by (auto simp: failed_row_def identity_def failed_status_def split: if_splits option.splits)

lemma record_failureD:
  assumes "record_failure E now pk retrying e d = Inr (m', d')"
  obtains current m d1 d2 where "get_meeting pk d = Some current" "failed_row now e current = Inr m"
    "d1 = audit_if (pe_ambiguous e) E now ''provider_state_unknown'' m
            (audit_if retrying E now ''provider_retry_failed'' m d)"
    "save_meeting now (m\<lparr>m_last_provider_error := Some (pe_code e)\<rparr>) d1 = Inr (m', d2)"
    "d' = audit E now ''provider_error'' ''meetings.Meeting'' (m_id m')
            (Some (m_integration_client m')) None (Some e) d2"
proof -
  obtain current where c: "get_meeting pk d = Some current"
    using assms by (cases "get_meeting pk d") (simp_all add: record_failure_def)
  obtain m where m: "failed_row now e current = Inr m"
    using assms c by (cases "failed_row now e current") (simp_all add: record_failure_def)
  show ?thesis
    using assms c m that by (auto simp: record_failure_def bind_r_Inr_iff Let_def)
qed

lemma record_failure_effect:
  assumes wf: "db_wf d" and r: "record_failure E now pk retrying e d = Inr (m', d')"
  shows "tx_effect {pk} d d'"
  using r
proof (cases rule: record_failureD)
  case (1 current m d1 d2)
  have id: "m_id m = pk" "identity m = identity current" "m_room m = m_room current"
    using failed_row_cases[OF 1(2)] get_key[OF 1(1)] by simp_all
  have e1: "tx_effect {pk} d d1"
    unfolding 1(3) by (intro tx_effect_audit tx_effect_refl wf)
  have "get_meeting pk d1 = get_meeting pk d"
    by (rule fetch_cong) (simp add: 1(3) audit_if_def)
  moreover have "db_wf d1" using e1 by (simp add: tx_effect_def)
  ultimately have "tx_effect {pk} d1 d2"
    using save_effect[OF _ _ _ _ 1(4), of current] 1(1) id by (simp add: identity_def)
  then show ?thesis using e1 tx_effect_trans unfolding 1(5) by (intro tx_effect_audit) blast
qed

lemma record_successD:
  assumes "record_success E now pk retrying res d = Inr (m', d')"
  obtains current url d1 where "get_meeting pk d = Some current"
    "m_status current = PROVISIONING \<or> m_status current = PROVIDER_STATE_UNKNOWN"
    "start_url_column E current res = Inr url"
    "save_meeting now (current\<lparr>
       m_provider_calendar_id := or_else (m_provider_calendar_id current) (Some (calendar_id res)),
       m_provider_unique_id := or_else (m_provider_unique_id current) (unique_id res),
       m_provider_panel_address := or_else (m_provider_panel_address current) (meeting_panel_address res),
       m_encrypted_provider_start_url := url, m_provider_created_at := Some now,
       m_status := READY, m_last_provider_error := None\<rparr>) d = Inr (m', d1)"
    "d' = audit_if retrying E now ''provider_retry_succeeded'' m' (audit_meeting E now ''meeting_created'' m' d1)"
proof -
  obtain current where c: "get_meeting pk d = Some current"
    using assms by (cases "get_meeting pk d") (simp_all add: record_success_def)
  have st: "m_status current = PROVISIONING \<or> m_status current = PROVIDER_STATE_UNKNOWN"
    using assms c by (auto simp: record_success_def split: if_splits)
  obtain url where u: "start_url_column E current res = Inr url"
    using assms c st by (cases "start_url_column E current res") (auto simp: record_success_def)
  show ?thesis
    using assms c st u that by (auto simp: record_success_def bind_r_Inr_iff)
qed

lemma record_success_effect:
  assumes wf: "db_wf d" and r: "record_success E now pk retrying res d = Inr (m', d')"
  shows "tx_effect {pk} d d'"
  using r
proof (cases rule: record_successD)
  case (1 current url d1)
  have "tx_effect {pk} d d1"
    using save_effect[OF wf _ _ _ 1(4), of current] 1(1) get_key[OF 1(1)] by (simp add: identity_def)
  then show ?thesis unfolding 1(5) by (intro tx_effect_audit)
qed

lemma cancel_effect:
  assumes wf: "db_wf d" and r: "cancel E now pk d = Inr (m', d')"
  shows "tx_effect {pk} d d'"
proof -
  obtain c where c: "get_meeting pk d = Some c"
    using r by (cases "get_meeting pk d") (simp_all add: cancel_def)
  show ?thesis
  proof (cases "m_status c = CANCELLED")
    case True
    then show ?thesis using r c tx_effect_refl[OF wf] by (simp add: cancel_def)
  next
    case False
    then obtain d1 where s: "save_meeting now (c\<lparr>m_status := CANCELLED, m_reservation_active := False,
        m_cancelled_at := Some now\<rparr>) d = Inr (m', d1)" and d': "d' = audit_meeting E now ''meeting_cancelled'' m' d1"
      using r c by (auto simp: cancel_def bind_r_Inr_iff split: if_splits)
    have "tx_effect {pk} d d1"
      using save_effect[OF wf _ _ _ s, of c] c get_key[OF c] by (simp add: identity_def)
    then show ?thesis unfolding d' by (rule tx_effect_audit)
  qed
qed

interpretation begin_tx: meeting_transaction "provision_begin E now pk v" "{pk}"
  by unfold_locales (rule provision_begin_effect)

interpretation failure_tx: meeting_transaction "record_failure E now pk retrying e" "{pk}"
  by unfold_locales (rule record_failure_effect)

interpretation success_tx: meeting_transaction "record_success E now pk retrying res" "{pk}"
  by unfold_locales (rule record_success_effect)

interpretation cancel_tx: meeting_transaction "cancel E now pk" "{pk}"
  by unfold_locales (rule cancel_effect)

interpretation reserve_tx: meeting_transaction "reserve_specific_room E now pk room_id s e" "{pk}"
  by unfold_locales (use reserve_effect in blast)

interpretation allocate_tx: meeting_transaction "allocate_any_room E now pk s e" "{pk}"
  by unfold_locales (use allocate_effect in blast)

end
