(* ===== verification/Provisioning.thy ===== *)
theory Provisioning
  imports Transactions
begin

text \<open>
  The properties of registration, provisioning, cancellation and the stale sweep: idempotence, the
  single submission, what a retry resends, when a reservation may be released, what a late answer
  does, and the gaps in the failure path that modelling showed.
\<close>

subsection \<open>Registration\<close>

definition aware_values :: "request_values \<Rightarrow> bool" where
  "aware_values v \<longleftrightarrow>
     (\<forall>d. v_start v = Some d \<longrightarrow> \<not> is_naive d) \<and> (\<forall>d. v_end v = Some d \<longrightarrow> \<not> is_naive d)"

text \<open>
  Registration is idempotent: after a call that created a meeting, the same client's call with
  the same class and the same (time-zone aware) data returns the same meeting, reports that nothing
  was created and leaves the database as it is.
\<close>

theorem register_idempotent:
  assumes wf: "meetings_wf d" and v: "aware_values v"
    and first: "register E now pk c v d = (Inr (m, True), d')"
  shows "register E' now' pk' c v d' = (Inr (m, False), d')"
  using wf first
proof (cases rule: register_cases)
  case (fresh m' d1)
  note ins = insert_meetingD[OF fresh(2)]
  have m: "m' = m" "d' = audit_meeting E now ''meeting_draft_created'' m d1" using fresh by simp_all
  have "class_rows c (v_class_id v) d' = class_rows c (v_class_id v) d @ [m]"
    by (simp add: class_rows_def m ins(2) ins(1)[unfolded m] new_meeting_def)
  then have "class_rows c (v_class_id v) d' = [m]" using fresh(1) by simp
  moreover have "\<not> request_differs m v"
    using v by (auto simp: request_differs_def ins(1)[unfolded m] new_meeting_def stored_time_differs_def
        dt_matches_def aware_values_def split: option.splits)
  ultimately show ?thesis by (simp add: register_def)
qed auto

text \<open>
  One meeting per class: on a database that satisfies the constraints, registration keeps them,
  leaves every existing row alone, adds at most one row, and afterwards the client has exactly one
  meeting for the class whenever the call succeeded.
\<close>

theorem register_one_per_class:
  assumes wf: "meetings_wf d" and reg: "register E now pk c v d = (res, d')"
  shows "meetings_wf d' \<and> (\<exists>new. db_meetings d' = db_meetings d @ new \<and> length new \<le> 1) \<and>
    (\<forall>m created. res = Inr (m, created) \<longrightarrow> class_rows c (v_class_id v) d' = [m])"
  using wf reg
proof (cases rule: register_cases)
  case (fresh m d1)
  note ins = insert_meetingD[OF fresh(2)]
  have wf1: "meetings_wf d1" using insert_meeting_wf[OF wf fresh(2)] .
  have "class_rows c (v_class_id v) d' = class_rows c (v_class_id v) d @ [m]"
    by (simp add: class_rows_def fresh(4) ins(2) ins(1) new_meeting_def)
  then show ?thesis
    using fresh wf1 wf_cong(1)[of d' d1] by (simp add: ins(2))
next
  case (mismatch m)
  then show ?thesis using wf wf_cong(1)[of d' d] by simp
qed (use wf in auto)

subsection \<open>Starting a creation\<close>

text \<open>
  No second submission: once a creation was started for a meeting, every further request for
  that meeting, by whoever and with whatever data, is refused with \<open>CREATION_IN_PROGRESS\<close> as long as
  the database is as the first one left it.
\<close>

theorem no_second_submission:
  assumes wf: "db_wf d" and first: "provision_begin E now pk v d = Inr (Started j, d')"
  shows "provision_begin E' now' pk v' d' =
    Inl (conflict ''CREATION_IN_PROGRESS'' ''Meeting creation is already in progress.'')"
  using first
proof (cases rule: provision_begin_cases)
  case (begun locked)
  from begin_creation_effect[OF wf begun]
  have "get_meeting pk d' = Some (j_meeting j)" "m_status (j_meeting j) = PROVISIONING" by auto
  then show ?thesis by (simp add: provision_begin_def status_guard_def)
qed auto

definition creation_allowed :: "meeting \<Rightarrow> request_values \<Rightarrow> bool" where
  "creation_allowed m v \<longleftrightarrow>
     (m_status m = DRAFT \<or> m_status m = RETRYABLE_FAILED \<and> \<not> has_provider_fields m) \<and>
     (\<exists>s. v_start v = Some s \<and> dt_date s = m_class_date m)"

text \<open>
  Which meetings may be created: a request starts a creation only for a draft or a retryable
  failure without provider fields, on the class's own date, and the meeting is \<open>PROVISIONING\<close> with
  an active reservation of the job's room when it does; every other status is answered from the
  database: a replay for \<open>READY\<close> and \<open>LIVE\<close>, a conflict otherwise.
\<close>

theorem creation_starts_only_when_allowed:
  assumes wf: "db_wf d" and m: "get_meeting pk d = Some m"
    and b: "provision_begin E now pk v d = Inr (b', d')"
  shows "(\<exists>j. b' = Started j \<and> creation_allowed m v \<and>
        get_meeting pk d' = Some (j_meeting j) \<and> m_status (j_meeting j) = PROVISIONING \<and>
        m_reservation_active (j_meeting j) \<and> m_room (j_meeting j) = Some (r_id (j_room j)) \<and>
        identity (j_meeting j) = identity m) \<or>
    b' = Replayed m \<and> (m_status m = READY \<or> m_status m = LIVE) \<and> db_meetings d' = db_meetings d"
  using b
proof (cases rule: provision_begin_cases)
  case (replay m')
  then show ?thesis using m by simp
next
  case (begun locked)
  have [simp]: "locked = m" using begun(1) m by simp
  from begin_creation_effect[OF wf begun] obtain j where
    j: "b' = Started j" "tx_effect {pk} d d'" "get_meeting pk d' = Some (j_meeting j)"
      "m_status (j_meeting j) = PROVISIONING" "m_reservation_active (j_meeting j)"
      "m_room (j_meeting j) = Some (r_id (j_room j))" by blast
  have "identity (j_meeting j) = identity m" using j(2,3) m unfolding tx_effect_def by force
  moreover have "creation_allowed m v"
    using begun(2,3) by (auto simp: creation_allowed_def elim!: begin_creationD)
  ultimately show ?thesis using j by blast
qed

subsection \<open>Recording a failure\<close>

lemma record_failure_row:
  assumes "record_failure E now pk retrying e d = Inr (m', d')"
  shows "m_status m' = (if pe_known_created e then PROVIDER_RESPONSE_INVALID else failed_status e) \<and>
    (m_reservation_active m' \<longleftrightarrow> pe_known_created e \<or> pe_ambiguous e \<or> retryable_code (pe_code e)) \<and>
    m_last_provider_error m' = Some (pe_code e)"
  using assms
proof (cases rule: record_failureD)
  case (1 current m d1 d2)
  then show ?thesis using failed_row_cases[OF 1(2)] save_meetingD(1)[OF 1(4)] by simp
qed

text \<open>
  A slot is released and a retry is allowed only after a definite rejection: when a creation
  request fails and the failure is recorded, the reservation is inactive, or the meeting retryable,
  only if the outcome of the request is one after which the provider certainly holds no meeting;
  after any other outcome the reservation stays active in a status that needs reconciliation.
\<close>

theorem released_only_after_rejection:
  assumes sent: "start_meeting E r payload tok w = (Inl (ProviderExn e), w1)"
    and out: "out = fst (w_script w (length (w_sent w)))" and direct: "\<And>x. out \<noteq> PostRaises x"
    and rec: "record_failure E' now pk retrying e d = Inr (m', d')"
  shows "(\<not> m_reservation_active m' \<or> m_status m' = RETRYABLE_FAILED \<longrightarrow> definite_rejection out) \<and>
    (\<not> definite_rejection out \<longrightarrow> m_reservation_active m' \<and>
       (m_status m' = PROVIDER_STATE_UNKNOWN \<or> m_status m' = PROVIDER_RESPONSE_INVALID))"
proof -
  have "classify True (parse_meeting (e_settings E)) out = Inl (ProviderExn e)"
    using sent unfolding out by (auto simp: start_meeting_def post_def send_def split: prod.splits)
  note verdict = creation_verdict_aux[OF this direct]
  note row = record_failure_row[OF rec]
  show ?thesis using verdict row by (auto simp: failed_status_def split: if_splits)
qed

subsection \<open>A creation can start\<close>

text \<open>Documented behaviour of the cipher and the key version: their text holds no NUL character.\<close>

definition cipher_text_ok :: "env \<Rightarrow> bool" where
  "cipher_text_ok E \<longleftrightarrow>
     CHR 0x00 \<notin> set (CREDENTIAL_ENCRYPTION_KEY_VERSION (e_settings E)) \<and>
     (\<forall>p. CHR 0x00 \<notin> set p \<longrightarrow>
        CHR 0x00 \<notin> set (e_fernet_encrypt E (CREDENTIAL_ENCRYPTION_KEY (e_settings E)) p))"

lemma encrypt_fits:
  assumes "cipher_text_ok E" and "encrypt E p = Inr c" and "CHR 0x00 \<notin> set p"
  shows "text_fits None c"
proof -
  let ?S = "e_settings E"
  have "c = CREDENTIAL_ENCRYPTION_KEY_VERSION ?S @ '':'' @ e_fernet_encrypt E (CREDENTIAL_ENCRYPTION_KEY ?S) p"
    using assms(2) by (simp add: encrypt_def Let_def split: if_splits)
  then show ?thesis using assms(1,3) by (simp add: cipher_text_ok_def text_fits_def)
qed

lemma resolve_config_cong:
  assumes "db_presets d = db_presets d'"
  shows "resolve_config E d c r = resolve_config E d' c r"
  unfolding resolve_config_def config_layers_def client_preset_def default_preset_def assms ..

lemma eligible_touch:
  assumes wf: "meetings_wf d" and m0: "get_meeting (m_id m) d = Some m0"
    and same: "m_room m = m_room m0" "m_reservation_active m = m_reservation_active m0"
      "m_reservation m = m_reservation m0" "m_status m = m_status m0"
    and d': "db_meetings d' = row_put m_id m (db_meetings d)" "db_presets d' = db_presets d"
  shows "eligible E d' c slot r \<longleftrightarrow> eligible E d c slot r"
proof -
  have dist: "distinct (map m_id (db_meetings d))" using wf by (simp add: meetings_wf_def)
  have mem: "m0 \<in> set (db_meetings d)" "m_id m0 = m_id m"
    using m0 meeting_tbl.fetch_mem meeting_tbl.fetch_keyD by blast+
  have "capacity_error r slot d' = capacity_error r slot d"
  proof -
    have 1: "list_ex (\<lambda>m. m_room m = Some (r_id r) \<and> m_reservation_active m \<and>
          opt_overlap (m_reservation m) (Some slot)) (row_put m_id m (db_meetings d)) =
        list_ex (\<lambda>m. m_room m = Some (r_id r) \<and> m_reservation_active m \<and>
          opt_overlap (m_reservation m) (Some slot)) (db_meetings d)"
      by (rule list_ex_row_put(1)[OF dist mem]) (simp add: same)
    have 2: "length (filter (\<lambda>m. m_room m = Some (r_id r) \<and> counted (m_status m))
          (row_put m_id m (db_meetings d))) =
        length (filter (\<lambda>m. m_room m = Some (r_id r) \<and> counted (m_status m)) (db_meetings d))"
      by (rule list_ex_row_put(2)[OF dist mem]) (simp add: same)
    show ?thesis unfolding capacity_error_def active_meetings_def d'(1) 1 2 ..
  qed
  moreover have "configured E d' r c = configured E d r c"
    unfolding configured_def resolve_config_cong[OF d'(2)] ..
  ultimately show ?thesis by (simp add: eligible_def)
qed

lemma meeting_checks_cong:
  assumes "m_room m = m_room m'" "m_reservation_active m = m_reservation_active m'"
    "m_reservation m = m_reservation m'" "m_start_at m = m_start_at m'" "m_end_at m = m_end_at m'"
  shows "meeting_checks m = meeting_checks m'"
  using assms by (simp add: meeting_checks_def active_reservation_complete_def positive_meeting_interval_def
      reservation_range_valid_def)

lemma upper_instant: "upper ''instant'' = ''INSTANT''"
  by code_simp

text \<open>A save that changes only the status and harmless columns cannot fail.\<close>

lemma save_same_reservation:
  assumes wf: "meetings_wf d" and old: "get_meeting (m_id m) d = Some m0"
    and res: "m_room m = m_room m0" "m_reservation_active m \<Longrightarrow> m_reservation_active m0"
      "m_reservation m = m_reservation m0" "m_start_at m = m_start_at m0" "m_end_at m = m_end_at m0"
    and cls: "same_class m m0" and tx: "meeting_text_ok m"
  shows "save_meeting now m d =
    Inr (m\<lparr>m_updated_at := now\<rparr>, store db_meetings set_meetings m_id (m\<lparr>m_updated_at := now\<rparr>) d)"
proof (rule save_meeting_succeeds[OF wf old tx _ cls])
  have "meeting_checks m0" using wf meeting_tbl.fetch_mem[OF old] by (simp add: meetings_wf_def)
  then show "meeting_checks m"
    using res by (auto simp: meeting_checks_def active_reservation_complete_def positive_meeting_interval_def
        reservation_range_valid_def)
qed (use res in simp_all)

lemma draft_reserves:
  assumes wf: "db_wf d" and set: "settings_ok (e_settings E)"
    and m: "get_meeting pk d = Some m" and draft: "m_status m = DRAFT"
    and c: "get_client (m_integration_client m) d = Some c"
    and avail: "availability E d c s e = Inr a" "av_available a"
  obtains r slot d1 m2 where "eligible E d c slot r" "r \<in> set (db_rooms d)" "r_is_active r"
    "m2 = (reserved_row (m\<lparr>m_updated_at := now\<rparr>) r s e slot)\<lparr>m_updated_at := now\<rparr>"
    "reserve_for E now m s (Some e) d = Inr (m2, d1)" "tx_effect {pk} d d1" "get_meeting pk d1 = Some m2"
proof -
  have id: "m_id m = pk" using m by (rule get_key)
  have mem: "m \<in> set (db_meetings d)" using m by (rule meeting_tbl.fetch_mem)
  have tx: "meeting_text_ok m" using wf mem by (simp add: db_wf_def meetings_wf_def)
  obtain slot where slot: "interval E s e = Inr slot" using avail by (auto simp: availability_def bind_r_Inr_iff)
  let ?m1 = "m\<lparr>m_updated_at := now\<rparr>"
  let ?d0 = "store db_meetings set_meetings m_id ?m1 d"
  have m_same: "m\<lparr>m_status := DRAFT\<rparr> = m" using draft by (cases m) simp
  have s0: "save_meeting now (m\<lparr>m_status := DRAFT\<rparr>) d = Inr (?m1, ?d0)"
    unfolding m_same using wf m tx id
    by (intro save_same_reservation[of _ _ m]) (simp_all add: db_wf_def same_class_def)
  have wf0: "db_wf ?d0"
    using save_effect[OF wf _ _ _ s0, of m] m id by (simp add: identity_def tx_effect_def)
  have get0: "get_meeting pk ?d0 = Some ?m1" using save_meeting_get[OF s0] m id by simp
  have c0: "get_client (m_integration_client ?m1) ?d0 = Some c"
    using c by (simp add: fetch_def)
  have elig: "eligible E ?d0 c slot r = eligible E d c slot r" for r
    using eligible_touch[of d ?m1 m ?d0] wf m id by (simp add: db_wf_def meeting_tbl.rows_of_store)
  have cand: "candidate_rooms E ?d0 = candidate_rooms E d" by (simp add: candidate_rooms_def)
  have "\<exists>r \<in> set (candidate_rooms E d). eligible E d c slot r"
    using avail any_room_free_eq[OF wf client_tbl.fetch_mem[OF c], of E slot "candidate_rooms E d"]
    by (auto simp: availability_def slot)
  then obtain r where r: "List.find (eligible E ?d0 c slot) (candidate_rooms E ?d0) = Some r"
    unfolding cand by (cases "List.find (eligible E ?d0 c slot) (candidate_rooms E d)")
      (auto dest: find_NoneD simp: elig)
  then have act: "r \<in> set (db_rooms d)" "r_is_active r" and el: "eligible E d c slot r"
    using find_SomeD[OF r] by (simp_all add: cand set_candidate_rooms elig)
  have al: "allocate_any_room E now pk s e ?d0 = Inr (reserved_result E now ?m1 r s e slot ?d0)"
    using allocate_eq[OF wf0 set get0 _ c0 slot, of now] draft by (simp add: r)
  obtain m2 d1 where res: "reserved_result E now ?m1 r s e slot ?d0 = (m2, d1)" by fastforce
  then have m2: "m2 = (reserved_row ?m1 r s e slot)\<lparr>m_updated_at := now\<rparr>"
    by (simp add: reserved_result_def Let_def)
  have rf: "reserve_for E now m s (Some e) d = Inr (m2, d1)"
    using al res draft id s0 by (simp add: reserve_for_def)
  have eff: "tx_effect {pk} d d1" "get_meeting pk d1 = Some m2"
    using reserve_for_effect[OF wf m _ rf] draft by auto
  show ?thesis by (rule that[OF el act m2 rf eff])
qed

lemma begin_progress:
  assumes wf: "db_wf d" and set: "settings_ok (e_settings E)" and enc: "can_encrypt E" "cipher_text_ok E"
    and m: "get_meeting pk d = Some m" and draft: "m_status m = DRAFT"
    and times: "v_start v = Some s" "v_end v = Some e" "dt_date s = m_class_date m"
    and c: "get_client (m_integration_client m) d = Some c"
    and avail: "availability E d c s e = Inr a" "av_available a"
  shows "\<exists>j d'. provision_begin E now pk v d = Inr (Started j, d') \<and> m_id (j_meeting j) = pk \<and>
    r_is_active (j_room j) \<and> map_of (j_payload j) ''title'' = Some (JStr (m_meeting_title m))"
proof -
  have id: "m_id m = pk" using m by (rule get_key)
  obtain r slot d1 m2 where el: "eligible E d c slot r" and act: "r \<in> set (db_rooms d)" "r_is_active r"
    and m2: "m2 = (reserved_row (m\<lparr>m_updated_at := now\<rparr>) r s e slot)\<lparr>m_updated_at := now\<rparr>"
    and rf: "reserve_for E now m s (Some e) d = Inr (m2, d1)"
    and eff: "tx_effect {pk} d d1" "get_meeting pk d1 = Some m2"
    using wf set m draft c avail by (rule draft_reserves)
  have wf1: "db_wf d1" using eff(1) by (simp add: tx_effect_def)
  have room: "get_room (the (m_room m2)) d1 = Some r"
    using eff(1) act(1) wf by (simp add: m2 tx_effect_def fetch_def db_wf_def rooms_wf_def)
      (metis fetch_def room_tbl.fetch_distinct)
  have cl: "get_client (m_integration_client m2) d1 = Some c"
    using eff(1) c by (simp add: m2 tx_effect_def fetch_def)
  from configured_True(3)[of E d r c] el obtain cfg where
    cfg: "resolve_config E d c r = Inr cfg" "map_of cfg ''meetingType'' = Some (JStr ''instant'')"
    by (auto simp: eligible_def)
  have cfg1: "resolve_config E d1 c r = Inr cfg"
    using cfg(1) resolve_config_cong[of d1 d] eff(1) by (simp add: tx_effect_def)
  define p where "p = dict_set ''title'' (JStr (m_meeting_title m2)) (dict_pop ''meetingTitle'' cfg)"
  have pf: "payload_for E False m2 r c d1 = Inr p" by (simp add: payload_for_def cfg1 p_def)
  have type: "map_of p ''meetingType'' = Some (JStr ''instant'')" using cfg(2) by (simp add: p_def)
  obtain ct where ct: "encrypt E (dumps (JObj p)) = Inr ct" using encrypt_Inr[OF enc(1)] by blast
  have fits: "text_fits None ct" using encrypt_fits[OF enc(2) ct dumps_no_nul] .
  let ?m3 = "m2\<lparr>m_provider_meeting_type := upper ''instant'', m_encrypted_provider_payload := Some ct,
      m_status := PROVISIONING\<rparr>"
  have "meeting_text_ok m2"
    using wf1 meeting_tbl.fetch_mem[OF eff(2)] by (simp add: db_wf_def meetings_wf_def)
  then have "meeting_text_ok ?m3"
    using fits by (simp add: meeting_text_ok_def opt_fits_def text_fits_def upper_instant)
  then have "save_meeting now ?m3 d1 =
      Inr (?m3\<lparr>m_updated_at := now\<rparr>, store db_meetings set_meetings m_id (?m3\<lparr>m_updated_at := now\<rparr>) d1)"
    using wf1 eff(2) id by (intro save_same_reservation[of _ _ m2])
      (simp_all add: db_wf_def same_class_def m2)
  then have "\<exists>j d'. start_provisioning E now False m2 r p d1 = Inr (Started j, d') \<and>
      j_room j = r \<and> j_payload j = p \<and> m_id (j_meeting j) = pk"
    using ct id by (simp add: start_provisioning_def type m2)
  then show ?thesis
    using m draft times rf room cl pf act
    by (auto simp: provision_begin_def status_guard_def begin_creation_def p_def m2)
qed

text \<open>
  C21, a creation that can start does start: for a draft on its own class date, an interval for which
  the availability snapshot says yes to the meeting's client, and a cipher that works, the reserving
  transaction succeeds and yields a job for an active room.
\<close>

theorem available_draft_starts:
  assumes wf: "db_wf d" and set: "settings_ok (e_settings E)" and enc: "can_encrypt E" "cipher_text_ok E"
    and m: "get_meeting pk d = Some m" and draft: "m_status m = DRAFT"
    and times: "v_start v = Some s" "v_end v = Some e" "dt_date s = m_class_date m"
    and c: "get_client (m_integration_client m) d = Some c"
    and avail: "availability E d c s e = Inr a" "av_available a"
  shows "\<exists>j d'. provision_begin E now pk v d = Inr (Started j, d') \<and> m_id (j_meeting j) = pk \<and>
    r_is_active (j_room j) \<and> map_of (j_payload j) ''title'' = Some (JStr (m_meeting_title m))"
  using assms by (rule begin_progress)

subsection \<open>Failures are recorded\<close>

text \<open>When a failure can be recorded: every column the row gets fits, and the reservation was active.\<close>

definition result_fits :: "provider_meeting_result \<Rightarrow> bool" where
  "result_fits res \<longleftrightarrow> text_fits (Some 200) (calendar_id res) \<and> opt_fits (Some 200) (unique_id res) \<and>
     opt_fits (Some 2000) (meeting_panel_address res)"

definition recordable :: "provider_error \<Rightarrow> bool" where
  "recordable e \<longleftrightarrow> text_fits (Some 100) (pe_code e) \<and>
     (pe_known_created e \<longrightarrow> (\<exists>res. pe_result e = Some res \<and> result_fits res))"

lemma failed_row_text:
  assumes "meeting_text_ok m" and "recordable e"
  obtains m' where "failed_row now e m = Inr m'"
    "meeting_text_ok (m'\<lparr>m_last_provider_error := Some (pe_code e)\<rparr>)"
proof (cases "pe_known_created e")
  case True
  then obtain res where res: "pe_result e = Some res" "result_fits res"
    using assms(2) by (auto simp: recordable_def)
  have r: "failed_row now e m = Inr (m\<lparr>m_status := PROVIDER_RESPONSE_INVALID, m_reservation_active := True,
            m_provider_calendar_id := Some (calendar_id res), m_provider_unique_id := unique_id res,
            m_provider_panel_address := meeting_panel_address res, m_provider_created_at := Some now\<rparr>)"
    using True res by (simp add: failed_row_def)
  show ?thesis
    using assms res(2) by (intro that[OF r])
      (simp add: meeting_text_ok_def opt_fits_def text_fits_def result_fits_def recordable_def)
next
  case False
  have r: "failed_row now e m = Inr (m\<lparr>m_status := failed_status e,
             m_reservation_active := (pe_ambiguous e \<or> failed_status e = RETRYABLE_FAILED)\<rparr>)"
    using False by (simp add: failed_row_def)
  have "text_fits (Some 32) (status_text (failed_status e))"
    by (simp add: failed_status_def text_fits_def)
  then show ?thesis
    using assms by (intro that[OF r]) (simp add: meeting_text_ok_def opt_fits_def recordable_def)
qed

lemma record_failure_progress:
  assumes wf: "db_wf d" and cur: "get_meeting pk d = Some m0" and act: "m_reservation_active m0"
    and e: "recordable e"
  shows "\<exists>m' d'. record_failure E now pk retrying e d = Inr (m', d') \<and> get_meeting pk d' = Some m' \<and>
    (\<forall>k. k \<noteq> pk \<longrightarrow> get_meeting k d' = get_meeting k d)"
proof -
  have mem: "m0 \<in> set (db_meetings d)" using cur by (rule meeting_tbl.fetch_mem)
  have id: "m_id m0 = pk" using cur by (rule get_key)
  have "meeting_text_ok m0" using wf mem by (simp add: db_wf_def meetings_wf_def)
  then obtain m where m: "failed_row now e m0 = Inr m"
      and tx: "meeting_text_ok (m\<lparr>m_last_provider_error := Some (pe_code e)\<rparr>)"
    using failed_row_text e by blast
  note row = failed_row_cases[OF m]
  define d1 where "d1 = audit_if (pe_ambiguous e) E now ''provider_state_unknown'' m
      (audit_if retrying E now ''provider_retry_failed'' m d)"
  have d1: "db_meetings d1 = db_meetings d" by (simp add: d1_def audit_if_def)
  then have get1: "get_meeting k d1 = get_meeting k d" for k by (rule fetch_cong)
  let ?m = "m\<lparr>m_last_provider_error := Some (pe_code e)\<rparr>"
  have "meetings_wf d1" using wf d1 by (simp add: db_wf_def meetings_wf_def)
  then have s: "save_meeting now ?m d1 =
      Inr (?m\<lparr>m_updated_at := now\<rparr>, store db_meetings set_meetings m_id (?m\<lparr>m_updated_at := now\<rparr>) d1)"
    using cur row tx act id get1
    by (intro save_same_reservation[of _ _ m0]) (simp_all add: same_class_def identity_def)
  let ?d2 = "store db_meetings set_meetings m_id (?m\<lparr>m_updated_at := now\<rparr>) d1"
  let ?d3 = "audit E now ''provider_error'' ''meetings.Meeting'' (m_id (?m\<lparr>m_updated_at := now\<rparr>))
      (Some (m_integration_client (?m\<lparr>m_updated_at := now\<rparr>))) None (Some e) ?d2"
  have rec: "record_failure E now pk retrying e d = Inr (?m\<lparr>m_updated_at := now\<rparr>, ?d3)"
    unfolding record_failure_def using cur m s by (simp add: d1_def Let_def)
  have get3: "get_meeting k ?d3 = get_meeting k ?d2" for k by (rule fetch_cong) simp
  have "get_meeting pk ?d2 = Some (?m\<lparr>m_updated_at := now\<rparr>)"
    using save_meeting_get[OF s] cur row id get1 by simp
  then have "get_meeting pk ?d3 = Some (?m\<lparr>m_updated_at := now\<rparr>)" unfolding get3 .
  moreover have "\<forall>k. k \<noteq> pk \<longrightarrow> get_meeting k ?d3 = get_meeting k d"
    unfolding get3 using save_meeting_get_other[OF s] row id get1 by simp
  ultimately show ?thesis using rec by blast
qed

text \<open>
  A failure is recorded: when the meeting still holds its active reservation and the error's
  columns fit, the transaction after a provider error commits, changes only that meeting, and leaves
  it in the status that belongs to the error.
\<close>

theorem failure_is_recorded:
  assumes wf: "db_wf d" and cur: "get_meeting pk d = Some m0" and act: "m_reservation_active m0"
    and e: "recordable e"
  shows "\<exists>m' d'. record_failure E now pk retrying e d = Inr (m', d') \<and> get_meeting pk d' = Some m' \<and>
    m_status m' = (if pe_known_created e then PROVIDER_RESPONSE_INVALID else failed_status e) \<and>
    m_last_provider_error m' = Some (pe_code e) \<and> (\<forall>k. k \<noteq> pk \<longrightarrow> get_meeting k d' = get_meeting k d)"
  using record_failure_progress[OF assms, of E now retrying] record_failure_row by blast

text \<open>
  An oversized partial result is never recorded: when the response proves the meeting was
  created but its panel address is longer than the column, the failure transaction itself fails with
  a database error and rolls back, so the meeting stays \<open>PROVISIONING\<close> and the calendar id is lost.
\<close>

theorem oversized_partial_not_recorded:
  assumes "get_meeting pk d = Some m0" and "pe_known_created e" and "pe_result e = Some res"
    and "meeting_panel_address res = Some p" and "length p > 2000"
  shows "run_tx (record_failure E now pk retrying e) (w\<lparr>w_db := d\<rparr>) = (Inl DataError, w\<lparr>w_db := d\<rparr>)"
proof -
  have "save_meeting now (x\<lparr>m_provider_panel_address := Some p, m_provider_created_at := Some now,
      m_last_provider_error := Some (pe_code e)\<rparr>) d' = Inl DataError" for x d'
    using assms(5) by (simp add: save_meeting_def meeting_violation_def meeting_text_ok_def opt_fits_def
        text_fits_def Let_def)
  then show ?thesis using assms by (simp add: run_tx_def record_failure_def failed_row_def Let_def)
qed

subsection \<open>Witnesses\<close>

definition sample_values :: request_values where
  "sample_values = \<lparr>v_title = ''Maths'', v_class_id = ''c1'', v_class_date = 0, v_teacher_id = ''t'',
     v_teacher_name = ''T'', v_batch_id = ''b'', v_batch_name = ''B'', v_schedule_type = None,
     v_start = Some sample_start, v_end = Some sample_end\<rparr>"

lemma sample_aware [simp]: "aware_values sample_values"
  by (simp add: aware_values_def sample_values_def sample_start_def sample_end_def utc_def is_naive_def)

lemma sample_cipher_text_ok [simp]: "cipher_text_ok sample_env"
  by (simp add: cipher_text_ok_def sample_env_def sample_settings_def sample_fernet_encrypt_def)

lemma sample_availability:
  "\<exists>a. availability sample_env sample_db sample_client sample_start sample_end = Inr a \<and> av_available a"
proof -
  have c: "sample_client \<in> set (db_clients sample_db)" by (simp add: sample_rows)
  have "sample_room_b \<in> set (candidate_rooms sample_env sample_db)"
    by (simp add: set_candidate_rooms) (simp add: sample_rows)
  then have "any_room_free sample_env sample_db sample_client (3 * hour_us, 4 * hour_us)
      (candidate_rooms sample_env sample_db) = Inr True"
    using any_room_free_eq[OF sample_db_wf c] sample_eligible by auto
  then show ?thesis by (simp add: availability_def)
qed

lemma sample_values_times:
  "v_start sample_values = Some sample_start" "v_end sample_values = Some sample_end"
  "dt_date sample_start = m_class_date sample_draft" "m_status sample_draft = DRAFT"
  "get_client (m_integration_client sample_draft) sample_db = Some sample_client"
  by (simp_all add: sample_values_def sample_start_def dt_date_def dt_local_def utc_def hour_us_def day_us_def
      sample_draft_def)

theorem available_draft_starts_witness:
  "\<exists>j d'. provision_begin sample_env 7 (UUID 31) sample_values sample_db = Inr (Started j, d') \<and>
     m_id (j_meeting j) = UUID 31"
proof -
  obtain a where "availability sample_env sample_db sample_client sample_start sample_end = Inr a" "av_available a"
    using sample_availability by blast
  from available_draft_starts[OF sample_db_wf sample_settings_ok sample_env_ok(3) sample_cipher_text_ok
      sample_draft_get sample_values_times(4,1,2,3,5) this]
  show ?thesis by blast
qed

lemma sample_begin:
  obtains j d' where "provision_begin sample_env 7 (UUID 31) sample_values sample_db = Inr (Started j, d')"
proof -
  obtain a where "availability sample_env sample_db sample_client sample_start sample_end = Inr a" "av_available a"
    using sample_availability by blast
  from begin_progress[OF sample_db_wf sample_settings_ok sample_env_ok(3) sample_cipher_text_ok
      sample_draft_get sample_values_times(4,1,2,3,5) this, of 7] that
  show ?thesis by blast
qed

theorem no_second_submission_witness:
  "\<exists>d'. provision_begin sample_env 8 (UUID 31) sample_values d' =
    Inl (conflict ''CREATION_IN_PROGRESS'' ''Meeting creation is already in progress.'')"
proof -
  obtain j d' where "provision_begin sample_env 7 (UUID 31) sample_values sample_db = Inr (Started j, d')"
    by (rule sample_begin)
  then show ?thesis using no_second_submission[OF sample_db_wf] by blast
qed

theorem creation_starts_only_when_allowed_witness:
  "creation_allowed sample_draft sample_values"
proof -
  obtain j d' where b: "provision_begin sample_env 7 (UUID 31) sample_values sample_db = Inr (Started j, d')"
    by (rule sample_begin)
  show ?thesis
    using creation_starts_only_when_allowed[OF sample_db_wf sample_draft_get b] by auto
qed

definition other_values :: request_values where
  "other_values = sample_values\<lparr>v_class_id := ''c9''\<rparr>"

lemma sample_register:
  obtains m d' where "register sample_env 3 (UUID 77) sample_client other_values sample_db = (Inr (m, True), d')"
proof -
  have none: "class_rows sample_client ''c9'' sample_db = []"
    by (simp add: class_rows_def sample_rows)
  have "meeting_violation ((new_meeting (UUID 77) sample_client other_values)\<lparr>m_created_at := 3, m_updated_at := 3\<rparr>)
      sample_db = None"
    by (simp add: meeting_violation_None_iff new_meeting_def other_values_def sample_values_def sample_rows
        meeting_text_ok_def text_fits_def opt_fits_def meeting_checks_def active_reservation_complete_def
        positive_meeting_interval_def reservation_range_valid_def same_class_def room_conflict_def
        sample_start_def sample_end_def utc_def hour_us_def)
  moreover have "get_meeting (UUID 77) sample_db = None" by (simp add: fetch_def sample_rows)
  ultimately show ?thesis
    using that none by (simp add: register_def other_values_def insert_meeting_def Let_def new_meeting_def)
qed

theorem register_idempotent_witness:
  "\<exists>m d'. register sample_env 4 (UUID 78) sample_client other_values d' = (Inr (m, False), d')"
proof -
  obtain m d' where r: "register sample_env 3 (UUID 77) sample_client other_values sample_db = (Inr (m, True), d')"
    by (rule sample_register)
  have "aware_values other_values" using sample_aware by (simp add: other_values_def aware_values_def)
  from register_idempotent[OF sample_db_meetings_wf this r] show ?thesis by blast
qed

theorem register_one_per_class_witness:
  "\<exists>m d'. class_rows sample_client ''c9'' d' = [m] \<and> meetings_wf d'"
proof -
  obtain m d' where r: "register sample_env 3 (UUID 77) sample_client other_values sample_db = (Inr (m, True), d')"
    by (rule sample_register)
  from register_one_per_class[OF sample_db_meetings_wf r] show ?thesis
    by (auto simp: other_values_def)
qed

lemma sample_ready_get: "get_meeting (UUID 32) sample_db = Some sample_ready" "m_reservation_active sample_ready"
  by (simp_all add: fetch_def sample_rows)

lemma sample_503:
  "start_meeting sample_env sample_room_b [] ''t'' (sample_world\<lparr>w_script := (\<lambda>_. (Response 503 [], 1))\<rparr>) =
     (Inl (ProviderExn (status_error True 503)), (sample_world\<lparr>w_script := (\<lambda>_. (Response 503 [], 1))\<rparr>)
       \<lparr>w_sent := [\<lparr>rq_path = CONVAY_START_PATH sample_settings, rq_payload = JObj [], rq_token = Some ''t'',
          rq_room = UUID 12\<rparr>], w_now := 1\<rparr>)"
  by (simp add: start_meeting_def post_def send_def classify_def sample_world_def sample_env_def sample_rows)

lemma sample_failure:
  assumes "recordable e"
  obtains m' d' where "record_failure sample_env 7 (UUID 32) False e sample_db = Inr (m', d')"
  using record_failure_progress[OF sample_db_wf sample_ready_get assms] by blast

lemma recordable_503: "recordable (status_error True 503)"
  by (simp add: recordable_def status_error_def text_fits_def)

theorem released_only_after_rejection_witness:
  "\<exists>m' d'. record_failure sample_env 7 (UUID 32) False (status_error True 503) sample_db = Inr (m', d') \<and>
     m_reservation_active m' \<and> m_status m' \<noteq> RETRYABLE_FAILED"
proof -
  obtain m' d' where r:
      "record_failure sample_env 7 (UUID 32) False (status_error True 503) sample_db = Inr (m', d')"
    using recordable_503 by (rule sample_failure)
  have "\<not> definite_rejection (Response 503 [])" by (simp add: definite_rejection_def)
  then show ?thesis
    using released_only_after_rejection[OF sample_503 refl _ r] r by (auto simp: sample_world_def)
qed

theorem failure_is_recorded_witness:
  "\<exists>m' d'. record_failure sample_env 7 (UUID 32) False (status_error True 503) sample_db = Inr (m', d') \<and>
     m_status m' = PROVIDER_STATE_UNKNOWN"
proof -
  from failure_is_recorded[OF sample_db_wf sample_ready_get recordable_503, of sample_env 7 False]
  show ?thesis by (auto simp: status_error_def failed_status_def)
qed

definition oversized_result :: provider_meeting_result where
  "oversized_result = \<lparr>calendar_id = ''cal-1'', meeting_panel_address = Some (replicate 2001 CHR ''x''),
     start_meeting_url = None, unique_id = None\<rparr>"

theorem oversized_partial_not_recorded_witness:
  "run_tx (record_failure sample_env 7 (UUID 32) False ((ProviderError ''PROVIDER_RESPONSE_INVALID'')
      \<lparr>pe_known_created := True, pe_result := Some oversized_result\<rparr>)) sample_world = (Inl DataError, sample_world)"
proof -
  have w: "sample_world\<lparr>w_db := sample_db\<rparr> = sample_world" by (simp add: sample_world_def)
  show ?thesis
    using oversized_partial_not_recorded[OF sample_ready_get(1), of _ oversized_result _ sample_env 7 False sample_world]
    by (simp add: w oversized_result_def)
qed

end
