(* ===== verification/Outcomes.thy ===== *)
theory Outcomes
  imports Provisioning
begin

text \<open>
  The provider call and what follows it: how many creation requests one call sends and with which
  body, that a retry resends the body and the reservation of the first attempt, what a successful
  creation writes, cancellation, and the sweep of stale provisionings.
\<close>

subsection \<open>The creation requests of one call\<close>

text \<open>
  The outcomes of the creation requests sent between two moments of a world. The two paths of the
  settings must differ for requests to be told apart.
\<close>

definition attempts :: "env \<Rightarrow> world \<Rightarrow> world \<Rightarrow> http_outcome list" where
  "attempts E w w' = map (\<lambda>n. fst (w_script w n))
     (filter (\<lambda>n. rq_path (w_sent w' ! n) = CONVAY_START_PATH (e_settings E)) [length (w_sent w)..<length (w_sent w')])"

definition paths_differ :: "env \<Rightarrow> bool" where
  "paths_differ E \<longleftrightarrow> CONVAY_AUTH_PATH (e_settings E) \<noteq> CONVAY_START_PATH (e_settings E)"

text \<open>Documented behaviour of the HTTP client: it never raises the gateway's own exception class.\<close>

definition foreign_raises :: "world \<Rightarrow> bool" where
  "foreign_raises w \<longleftrightarrow> (\<forall>n x. fst (w_script w n) = PostRaises x \<longrightarrow> (\<forall>e. x \<noteq> ProviderExn e))"

lemma attempts_chain:
  assumes "outside_only w w1" and "outside_only w1 w2"
  shows "attempts E w w2 = attempts E w w1 @ attempts E w1 w2"
proof -
  obtain a b where s: "w_sent w1 = w_sent w @ a" "w_sent w2 = w_sent w1 @ b"
    using assms by (auto simp: outside_only_def)
  have script: "w_script w1 = w_script w" using assms(1) by (simp add: outside_only_def)
  let ?P = "\<lambda>w n. rq_path (w_sent w ! n) = CONVAY_START_PATH (e_settings E)"
  have "[length (w_sent w)..<length (w_sent w2)] =
      [length (w_sent w)..<length (w_sent w1)] @ [length (w_sent w1)..<length (w_sent w2)]"
    using upt_add_eq_append[of "length (w_sent w)" "length (w_sent w1)" "length b"] by (simp add: s add.assoc)
  moreover have "filter (?P w2) [length (w_sent w)..<length (w_sent w1)] =
      filter (?P w1) [length (w_sent w)..<length (w_sent w1)]"
    by (rule filter_cong) (auto simp: s nth_append)
  ultimately show ?thesis by (simp add: attempts_def script)
qed

lemma attempts_none:
  assumes "w_sent w' = w_sent w \<or>
    (\<exists>rq. w_sent w' = w_sent w @ [rq] \<and> rq_path rq = CONVAY_AUTH_PATH (e_settings E))"
    and "paths_differ E"
  shows "attempts E w w' = []"
  using assms by (auto simp: attempts_def paths_differ_def nth_append)

lemma get_token_attempts:
  assumes "get_token E r force w = (res, w')" and "paths_differ E"
  shows "attempts E w w' = []"
  using assms(1)
proof (cases rule: get_token_cases)
  case (asked w1 res1)
  have "w_sent w1 = w_sent w" using asked(1) by auto
  then show ?thesis using fresh_token_sent[OF asked(2)] assms(2) by (intro attempts_none) auto
qed (simp_all add: attempts_def)

lemma invalidate_attempts: "invalidate r w = (res, w') \<Longrightarrow> attempts E w w' = []"
  by (auto simp: invalidate_def attempts_def split: if_splits)

lemma start_meeting_attempt:
  assumes "start_meeting E r p t w = (res, w')" and "out = fst (w_script w (length (w_sent w)))"
  shows "attempts E w w' = [out] \<and> res = classify True (parse_meeting (e_settings E)) out"
  using assms by (auto simp: start_meeting_def post_def send_def attempts_def nth_append split: prod.splits)

text \<open>A status of 401 comes only from a response with that status.\<close>

lemma classify_unauthorized:
  assumes "classify True p out = Inl x" and "is_unauthorized x" and "\<And>e. out \<noteq> PostRaises (ProviderExn e)"
  shows "\<exists>t. out = Response 401 t"
proof -
  obtain e where x: "x = ProviderExn e" "pe_status_code e = Some 401"
    using assms(2) by (cases x) (auto simp: is_unauthorized_def)
  show ?thesis
  proof (cases out)
    case (TransportError t)
    then show ?thesis using assms(1) x by (cases t) (auto simp: classify_def)
  next
    case (PostRaises y)
    then show ?thesis using assms(1) assms(3)[of e] x by (simp add: classify_def)
  next
    case (Response status body_text)
    show ?thesis
    proof (cases "200 \<le> status \<and> status \<le> 299")
      case True
      then have "pe_status_code e = Some status"
        using assms(1) x(1) by (auto simp: Response classify_def Let_def split: option.splits json.splits sum.splits exn.splits if_splits)
      then show ?thesis using x True by simp
    next
      case False
      then show ?thesis using assms(1) x by (auto simp: Response classify_def status_error_sel)
    qed
  qed
qed

definition sends_at_most_two :: "http_outcome list \<Rightarrow> bool" where
  "sends_at_most_two outs \<longleftrightarrow> length outs \<le> 2 \<and> (length outs = 2 \<longrightarrow> (\<exists>t. hd outs = Response 401 t))"

definition unambiguous_failure :: "exn + 'a \<Rightarrow> bool" where
  "unambiguous_failure outcome \<longleftrightarrow>
     (\<exists>e. outcome = Inl (ProviderExn e) \<and> \<not> pe_ambiguous e \<and> \<not> pe_known_created e)"

lemma rejected_401: "definite_rejection (Response 401 t)"
  by (simp add: definite_rejection_def)

lemma provider_create_cases:
  assumes run: "provider_create E j w = (outcome, w')"
  obtains (no_token) x where "get_token E (j_room j) False w = (Inl x, w')" "outcome = Inl x"
  | (first) tok w1 res where "get_token E (j_room j) False w = (Inr tok, w1)"
      "start_meeting E (j_room j) (j_payload j) (access_token tok) w1 = (res, w')"
      "\<forall>x. res = Inl x \<longrightarrow> \<not> is_unauthorized x" "outcome = map_sum id (\<lambda>r. (r, tok)) res"
  | (again) tok w1 x w2 inv w3 where "get_token E (j_room j) False w = (Inr tok, w1)"
      "start_meeting E (j_room j) (j_payload j) (access_token tok) w1 = (Inl x, w2)" "is_unauthorized x"
      "invalidate (j_room j) w2 = (inv, w3)"
      "(outcome, w') = bind_w (inv, w3) (\<lambda>_ w3. bind_w (get_token E (j_room j) True w3) (\<lambda>tok' w4.
         bind_w (start_meeting E (j_room j) (j_payload j) (access_token tok') w4) (\<lambda>res w5.
           (Inr (res, tok'), w5))))"
proof -
  obtain t w1 where t: "get_token E (j_room j) False w = (t, w1)" by fastforce
  show ?thesis
  proof (cases t)
    case (Inl x)
    then show ?thesis using run t no_token by (simp add: provider_create_def)
  next
    case (Inr tok)
    obtain res w2 where s: "start_meeting E (j_room j) (j_payload j) (access_token tok) w1 = (res, w2)"
      by fastforce
    show ?thesis
    proof (cases "\<exists>x. res = Inl x \<and> is_unauthorized x")
      case True
      obtain inv w3 where i: "invalidate (j_room j) w2 = (inv, w3)" by fastforce
      from True obtain x where x: "res = Inl x" "is_unauthorized x" by blast
      show ?thesis
        using run t s x i Inr by (intro again[of tok w1 x w2 inv w3]) (simp_all add: provider_create_def)
    next
      case False
      then show ?thesis using run t s Inr first[of tok w1 res]
        by (cases res) (auto simp: provider_create_def)
    qed
  qed
qed


lemma classify_rejected:
  assumes "classify True (parse_meeting S) out = Inl (ProviderExn e)" and "\<not> pe_ambiguous e" "\<not> pe_known_created e"
    and "\<And>e. out \<noteq> PostRaises (ProviderExn e)"
  shows "definite_rejection out"
proof -
  have "out \<noteq> PostRaises x" for x using assms(1) assms(4)[of e] by (auto simp: classify_def)
  then show ?thesis using creation_verdict_aux[OF assms(1)] assms(2,3) by blast
qed

lemma map_sum_Inr_iff: "map_sum id f r = Inr y \<longleftrightarrow> (\<exists>x. r = Inr x \<and> y = f x)"
  by (cases r) auto

lemma unambiguous_rejected:
  assumes "unambiguous_failure (map_sum id f (classify True (parse_meeting S) out))"
    and "\<And>e. out \<noteq> PostRaises (ProviderExn e)"
  shows "definite_rejection out"
proof (cases "classify True (parse_meeting S) out")
  case (Inl x)
  then obtain e where "x = ProviderExn e" "\<not> pe_ambiguous e" "\<not> pe_known_created e"
    using assms(1) by (auto simp: unambiguous_failure_def)
  then show ?thesis using classify_rejected[of S out e] assms(2) Inl by blast
next
  case (Inr r)
  then show ?thesis using assms(1) by (simp add: unambiguous_failure_def)
qed

lemma start_meeting_appends:
  assumes run: "start_meeting E room payload at w1 = (res, w')" and before: "outside_only w w1" and raises: "foreign_raises w"
  shows "outside_only w w' \<and> (\<exists>out. attempts E w w' = attempts E w w1 @ [out] \<and>
    res = classify True (parse_meeting (e_settings E)) out \<and>
    (unambiguous_failure (map_sum id (\<lambda>r. (r, tok)) res) \<longrightarrow> definite_rejection out))"
proof -
  have after: "outside_only w1 w'" using start_op.outside[of w1 E room payload at] run by simp
  have "fst (w_script w1 n) \<noteq> PostRaises (ProviderExn e)" for n e
    using raises before by (auto simp: foreign_raises_def outside_only_def)
  then obtain out where out: "attempts E w1 w' = [out]" "res = classify True (parse_meeting (e_settings E)) out"
      "\<And>e. out \<noteq> PostRaises (ProviderExn e)"
    using start_meeting_attempt[OF run refl] by blast
  have "definite_rejection out" if "unambiguous_failure (map_sum id (\<lambda>r. (r, tok)) res)"
    using that out(3) unfolding out(2) by (rule unambiguous_rejected)
  then show ?thesis using attempts_chain[OF before after] outside_only_trans[OF before after] out(1,2) by auto
qed

lemma refused_creation:
  assumes "get_token E r False w = (Inr tok, w1)" and "start_meeting E r' payload at w1 = (Inl x, w2)"
    and "is_unauthorized x" and "paths_differ E" and "foreign_raises w"
  shows "outside_only w w2 \<and> (\<exists>t. attempts E w w2 = [Response 401 t])"
proof -
  have o: "outside_only w w1" using token_op.outside[of w E r False] assms(1) by simp
  have "fst (w_script w1 n) \<noteq> PostRaises (ProviderExn e)" for n e
    using assms(5) o by (auto simp: foreign_raises_def outside_only_def)
  then obtain t where "attempts E w1 w2 = [Response 401 t]"
    using start_meeting_attempt[OF assms(2) refl] classify_unauthorized[OF _ assms(3)] by metis
  moreover have o2: "outside_only w1 w2" using start_op.outside[of w1 E r' payload at] assms(2) by simp
  ultimately show ?thesis
    using attempts_chain[OF o o2, of E] outside_only_trans[OF o o2] get_token_attempts[OF assms(1,4)] by simp
qed

lemma provider_create_summary:
  assumes run: "provider_create E j w = (outcome, w')" and paths: "paths_differ E" and raises: "foreign_raises w"
  shows "outside_only w w' \<and> sends_at_most_two (attempts E w w') \<and>
    (unambiguous_failure outcome \<longrightarrow> (\<forall>out \<in> set (attempts E w w'). definite_rejection out)) \<and>
    (\<forall>res tok. outcome = Inr (res, tok) \<longrightarrow> attempts E w w' \<noteq> [] \<and>
       classify True (parse_meeting (e_settings E)) (last (attempts E w w')) = Inr res)"
  using run
proof (cases rule: provider_create_cases)
  case (no_token x)
  then show ?thesis
    using token_op.outside[of w E "j_room j" False] get_token_attempts[OF no_token(1) paths]
    by (simp add: sends_at_most_two_def)
next
  case (first tok w1 res)
  have "outside_only w w1" using token_op.outside[of w E "j_room j" False] first(1) by simp
  from start_meeting_appends[OF first(2) this raises, of tok] get_token_attempts[OF first(1) paths] first(4)
  show ?thesis by (auto simp: sends_at_most_two_def map_sum_Inr_iff)
next
  case (again tok w1 x w2 inv w3)
  obtain t where t: "outside_only w w2" "attempts E w w2 = [Response 401 t]"
    using refused_creation[OF again(1,2,3) paths raises] by blast
  have "outside_only w2 w3" using invalidate_op.outside[of w2 "j_room j"] again(4) by simp
  then have a3: "outside_only w w3" "attempts E w w3 = [Response 401 t]"
    using outside_only_trans[OF t(1)] attempts_chain[OF t(1), of w3 E] t(2) invalidate_attempts[OF again(4)] by simp_all
  show ?thesis
  proof (cases inv)
    case (Inl y)
    then show ?thesis using again(5) a3 by (simp add: sends_at_most_two_def rejected_401)
  next
    case (Inr u)
    obtain tk w4 where tk: "get_token E (j_room j) True w3 = (tk, w4)" by fastforce
    have o4: "outside_only w3 w4" using token_op.outside[of w3 E "j_room j" True] tk by simp
    note a4 = outside_only_trans[OF a3(1) o4] attempts_chain[OF a3(1) o4, of E]
    show ?thesis
    proof (cases tk)
      case (Inl y)
      then show ?thesis
        using again(5) Inr tk a4 a3(2) get_token_attempts[OF tk paths] by (simp add: sends_at_most_two_def rejected_401)
    next
      case tk': (Inr tok')
      obtain res w5 where s: "start_meeting E (j_room j) (j_payload j) (access_token tok') w4 = (res, w5)"
        by fastforce
      have "w' = w5" "outcome = map_sum id (\<lambda>r. (r, tok')) res"
        using again(5) Inr tk tk' s by (cases res; simp)+
      then show ?thesis
        using start_meeting_appends[OF s a4(1) raises, of tok'] a4(2) a3(2) get_token_attempts[OF tk paths]
        by (auto simp: sends_at_most_two_def rejected_401 map_sum_Inr_iff)
    qed
  qed
qed

subsection \<open>What a retry resends\<close>

lemma record_failure_get:
  assumes "record_failure E now pk retrying e d = Inr (m', d')"
  shows "get_meeting pk d' = Some m'"
  using assms
proof (cases rule: record_failureD)
  case (1 current x d1 d2)
  have id: "m_id x = pk" using failed_row_cases[OF 1(2)] get_key[OF 1(1)] by simp
  have g: "get_meeting pk d1 = get_meeting pk d" by (rule fetch_cong) (simp add: 1(3) audit_if_def)
  have "get_meeting pk d2 = Some m'" using save_meeting_get[OF 1(4)] g 1(1) id by simp
  moreover have "get_meeting pk d' = get_meeting pk d2" by (rule fetch_cong) (simp add: 1(5))
  ultimately show ?thesis by simp
qed

lemma record_success_status:
  assumes "record_success E now pk retrying res d = Inr (m', d')"
  shows "get_meeting pk d' = Some m' \<and> m_status m' = READY"
  using assms
proof (cases rule: record_successD)
  case (1 current url d1)
  have "get_meeting pk d1 = Some m'" using save_meeting_get[OF 1(4)] 1(1) get_key[OF 1(1)] by simp
  moreover have "get_meeting pk d' = get_meeting pk d1" by (rule fetch_cong) (simp add: 1(5) audit_if_def)
  ultimately show ?thesis using save_meetingD(1)[OF 1(4)] by simp
qed

lemma encrypt_nonempty: "encrypt E v = Inr c \<Longrightarrow> c \<noteq> []"
  by (auto simp: encrypt_def Let_def split: if_splits)

text \<open>Reserving a room and starting the provisioning leave the columns the provider filled alone.\<close>

definition provider_fields :: "meeting \<Rightarrow> string option list" where
  "provider_fields m = [m_provider_calendar_id m, m_provider_unique_id m, m_provider_panel_address m,
     m_encrypted_provider_start_url m]"

lemma has_provider_fields_iff: "has_provider_fields m \<longleftrightarrow> list_ex truthy (provider_fields m)"
  by (simp add: has_provider_fields_def provider_fields_def)

lemma try_rooms_provider_fields:
  assumes "get_meeting pk d = Some m0" and "try_rooms E now pk ids s e d = Inr (m, d')"
  shows "provider_fields m = provider_fields m0"
  using assms(2)
proof (induction ids)
  case (Cons i ids)
  show ?case
  proof (cases "reserve_specific_room E now pk i s e d")
    case (Inl x)
    then have "try_rooms E now pk ids s e d = Inr (m, d')"
      using Cons.prems by (cases x) (auto split: if_splits)
    then show ?thesis by (rule Cons.IH)
  next
    case (Inr p)
    then have "reserve_specific_room E now pk i s e d = Inr (m, d')" using Cons.prems by (cases p) simp
    then show ?thesis using reserveD assms(1) by (fastforce simp: provider_fields_def reserved_row_def)
  qed
qed simp

lemma reserve_for_provider_fields:
  assumes l: "get_meeting pk d = Some locked" and r: "reserve_for E now locked s e d = Inr (m, d1)"
  shows "provider_fields m = provider_fields locked"
proof (cases "m_status locked = RETRYABLE_FAILED \<and> m_reservation_active locked \<and> m_room locked \<noteq> None")
  case True
  then show ?thesis using r by (simp add: reserve_for_def)
next
  case False
  then obtain m1 d0 e' where s: "save_meeting now (locked\<lparr>m_status := DRAFT\<rparr>) d = Inr (m1, d0)"
      and a: "allocate_any_room E now (m_id m1) s e' d0 = Inr (m, d1)"
    using r by (auto simp: reserve_for_def bind_r_Inr_iff split: option.splits)
  have "get_meeting (m_id m1) d0 = Some m1"
    using save_meeting_get[OF s] l get_key[OF l] save_meetingD(1)[OF s] by simp
  then have "provider_fields m = provider_fields m1"
    using try_rooms_provider_fields a by (simp add: allocate_any_room_def)
  then show ?thesis using save_meetingD(1)[OF s] by (simp add: provider_fields_def)
qed

text \<open>The row and the job that the reserving transaction leaves.\<close>

lemma begun_job:
  assumes wf: "db_wf d" and m: "get_meeting pk d = Some m"
    and b: "provision_begin E now pk v d = Inr (Started j, d')"
  obtains enc kind where "get_meeting pk d' = Some (j_meeting j)" "tx_effect {pk} d d'"
    "m_status (j_meeting j) = PROVISIONING" "m_encrypted_provider_payload (j_meeting j) = Some enc"
    "encrypt E (dumps (JObj (j_payload j))) = Inr enc" "get_room (the (m_room (j_meeting j))) d = Some (j_room j)"
    "m_room (j_meeting j) = Some (r_id (j_room j))" "map_of (j_payload j) ''title'' = Some (JStr (m_meeting_title (j_meeting j)))"
    "map_of (j_payload j) ''meetingTitle'' = None"
    "map_of (j_payload j) ''meetingType'' = Some (JStr kind)" "kind \<noteq> ''scheduled''"
    "m_provider_meeting_type (j_meeting j) = upper kind" "provider_fields (j_meeting j) = provider_fields m"
    "m_status m = DRAFT \<Longrightarrow> json_columns_wf d \<Longrightarrow> json_ok (JObj (j_payload j))"
proof -
  from b obtain locked where l: "get_meeting pk d = Some locked"
      "m_status locked = DRAFT \<or> m_status locked = RETRYABLE_FAILED" "begin_creation E now locked v d = Inr (Started j, d')"
    by (cases rule: provision_begin_cases) auto
  have [simp]: "locked = m" using l(1) m by simp
  note eff = begin_creation_effect[OF wf l]
  from l(3) show ?thesis
  proof (cases rule: begin_creationD)
    case (1 s m1 d1 rm c p)
    from reserve_for_effect[OF wf m _ 1(4)[simplified]] l(2)
    have r: "tx_effect {pk} d d1" "get_meeting pk d1 = Some m1" "m_room m1 \<noteq> None" by auto
    from start_provisioningD[OF 1(8)] obtain kind enc m' d2 where
      sp: "map_of p ''meetingType'' = Some (JStr kind)" "kind \<noteq> ''scheduled''" "encrypt E (dumps (JObj p)) = Inr enc"
        "save_meeting now (m1\<lparr>m_provider_meeting_type := upper kind, m_encrypted_provider_payload := Some enc,
           m_status := PROVISIONING\<rparr>) d1 = Inr (m', d2)"
      and j: "j = \<lparr>j_meeting = m', j_room = rm, j_payload = p, j_retrying = (m_status locked = RETRYABLE_FAILED)\<rparr>"
      by blast
    note m' = save_meetingD(1)[OF sp(4)]
    have pf: "provider_fields m' = provider_fields m"
      using reserve_for_provider_fields[OF l(1) 1(4)] by (simp add: m' provider_fields_def)
    obtain p0 where p: "p = dict_set ''title'' (JStr (m_meeting_title m1)) (dict_pop ''meetingTitle'' p0)"
        and src: "(if m_status m = RETRYABLE_FAILED \<and> truthy (m_encrypted_provider_payload m1)
             then stored_payload E (the (m_encrypted_provider_payload m1)) else resolve_config E d1 c rm) = Inr p0"
      using 1(7) by (auto simp: payload_for_def bind_r_Inr_iff)
    have p0: "resolve_config E d1 c rm = Inr p0" if "m_status m = DRAFT" using src that by simp
    have rooms: "db_rooms d1 = db_rooms d" "db_presets d1 = db_presets d" using r(1) by (simp_all add: tx_effect_def)
    have room: "get_room (the (m_room m1)) d = Some rm" using 1(5) by (simp add: fetch_def rooms)
    have "json_ok (JObj p)" if "m_status m = DRAFT" "json_columns_wf d"
    proof -
      have "rm \<in> set (db_rooms d1)" using 1(5) by (rule room_tbl.fetch_mem)
      then have "json_ok (JObj p0)"
        using resolve_config_json_ok[of d1 rm E c p0] p0 that by (simp add: json_columns_wf_def rooms)
      then have "keys_distinct p0" "\<forall>kv \<in> set p0. json_ok (snd kv)" by (simp_all add: members_ok_iff)
      moreover have "set p \<subseteq> insert (''title'', JStr (m_meeting_title m1)) (set p0)"
        unfolding p using set_dict_set_subset dict_pop_subset by (rule subset_trans[OF _ insert_mono])
      ultimately have "\<forall>kv \<in> set p. json_ok (snd kv)" by auto
      then show ?thesis using \<open>keys_distinct p0\<close> by (simp add: members_ok_iff p)
    qed
    then show ?thesis
      using eff sp(1,2,3) room pf that[of enc kind] by (auto simp: j m' p)
  qed
qed

lemma failed_row_keeps:
  "failed_row now e m = Inr m' \<Longrightarrow> (pe_known_created e \<or> provider_fields m' = provider_fields m) \<and> m_encrypted_provider_payload m' = m_encrypted_provider_payload m \<and>
     m_meeting_title m' = m_meeting_title m \<and> m_provider_meeting_type m' = m_provider_meeting_type m"
  by (auto simp: failed_row_def provider_fields_def split: if_splits option.splits)

lemma record_failure_keeps:
  assumes wf: "db_wf d" and m: "get_meeting pk d = Some m"
    and r: "record_failure E now pk retrying e d = Inr (m', d')"
  shows "get_meeting pk d' = Some m' \<and> (pe_known_created e \<or> provider_fields m' = provider_fields m) \<and> m_encrypted_provider_payload m' = m_encrypted_provider_payload m \<and>
    m_meeting_title m' = m_meeting_title m \<and> m_provider_meeting_type m' = m_provider_meeting_type m \<and>
    identity m' = identity m \<and> m_room m' = m_room m \<and> m_reservation m' = m_reservation m"
  using r
proof (cases rule: record_failureD)
  case (1 current x d1 d2)
  have [simp]: "current = m" using 1(1) m by simp
  show ?thesis
    using record_failure_get[OF r] failed_row_keeps[OF 1(2)] failed_row_cases[OF 1(2)] save_meetingD(1)[OF 1(4)]
    by (auto simp: identity_def provider_fields_def)
qed

lemma retry_resumes_aux:
  assumes wf: "db_wf d" and cipher: "fernet_ok E" "can_encrypt E" "cipher_text_ok E"
    and m: "get_meeting pk d = Some m" and json: "json_ok (JObj (j_payload j))"
    and first: "provision_begin E now pk v d = Inr (Started j, d1)"
    and failed: "record_failure E now1 pk retrying e d1 = Inr (m1, d2)" "m_status m1 = RETRYABLE_FAILED"
    and none: "\<not> has_provider_fields m"
    and again: "v_start v' = Some s" "dt_date s = m_class_date m"
  shows "\<exists>j' d3. provision_begin E now2 pk v' d2 = Inr (Started j', d3) \<and>
    j_payload j' = j_payload j \<and> j_room j' = j_room j \<and> j_retrying j' \<and>
    m_reservation (j_meeting j') = m_reservation (j_meeting j) \<and> m_reservation_active (j_meeting j')"
proof -
  from begun_job[OF wf m first] obtain enc kind where b: "get_meeting pk d1 = Some (j_meeting j)" "tx_effect {pk} d d1"
      "m_encrypted_provider_payload (j_meeting j) = Some enc" "encrypt E (dumps (JObj (j_payload j))) = Inr enc"
      "get_room (the (m_room (j_meeting j))) d = Some (j_room j)" "m_room (j_meeting j) = Some (r_id (j_room j))"
      "map_of (j_payload j) ''title'' = Some (JStr (m_meeting_title (j_meeting j)))"
      "map_of (j_payload j) ''meetingTitle'' = None"
      "map_of (j_payload j) ''meetingType'' = Some (JStr kind)" "kind \<noteq> ''scheduled''"
      "m_provider_meeting_type (j_meeting j) = upper kind" "provider_fields (j_meeting j) = provider_fields m"
    by metis
  have wf1: "db_wf d1" using b(2) by (simp add: tx_effect_def)
  note f = record_failure_keeps[OF wf1 b(1) failed(1)]
  then have get: "get_meeting pk d2 = Some m1" by simp
  have eff2: "tx_effect {pk} d1 d2" using record_failure_effect[OF wf1 failed(1)] .
  then have wf2: "db_wf d2" by (simp add: tx_effect_def)
  have act: "m_reservation_active m1" and "\<not> pe_known_created e" using record_failure_row[OF failed(1)] failed(2)
    by (auto simp: failed_status_def split: if_splits)
  then have nopf: "\<not> has_provider_fields m1" using f b(12) none by (simp add: has_provider_fields_iff)
  have "identity (j_meeting j) = identity m" using b(1,2) m unfolding tx_effect_def by force
  then have date: "m_class_date m1 = m_class_date m" using f by (simp add: identity_def)
  have "db_rooms d2 = db_rooms d" using b(2) eff2 by (simp add: tx_effect_def)
  then have room: "get_room (the (m_room m1)) d2 = Some (j_room j)" using b(5) f by (simp add: fetch_def)
  obtain c where c: "get_client (m_integration_client m1) d2 = Some c"
    using wf2 meeting_tbl.fetch_mem[OF get] by (auto simp: db_wf_def refs_wf_def)
  have "stored_payload E enc = Inr (j_payload j)"
    using decrypt_encrypt[OF cipher(1,2) b(4)] loads_dumps[OF json] by (simp add: stored_payload_def)
  moreover have "truthy (Some enc)" using encrypt_nonempty[OF b(4)] by (simp add: truthy_def)
  ultimately have pf: "payload_for E True m1 (j_room j) c d2 = Inr (j_payload j)"
    using f b(3,7,8) by (simp add: payload_for_def dict_pop_fresh dict_set_same)
  let ?m = "m1\<lparr>m_provider_meeting_type := upper kind, m_encrypted_provider_payload := Some enc, m_status := PROVISIONING\<rparr>"
  have "meeting_text_ok m1" using wf2 meeting_tbl.fetch_mem[OF get] by (simp add: db_wf_def meetings_wf_def)
  then have "meeting_text_ok ?m"
    using encrypt_fits[OF cipher(3) b(4) dumps_no_nul] f b(11) by (simp add: meeting_text_ok_def opt_fits_def text_fits_def)
  then have sv: "save_meeting now2 ?m d2 =
      Inr (?m\<lparr>m_updated_at := now2\<rparr>, store db_meetings set_meetings m_id (?m\<lparr>m_updated_at := now2\<rparr>) d2)"
    using wf2 get get_key[OF get] by (intro save_same_reservation[of _ _ m1]) (simp_all add: db_wf_def same_class_def)
  have rf: "reserve_for E now2 m1 s (v_end v') d2 = Inr (m1, d2)"
    using failed(2) act f b(6) by (simp add: reserve_for_def)
  have "provision_begin E now2 pk v' d2 = start_provisioning E now2 True m1 (j_room j) (j_payload j) d2"
    using get failed(2) nopf again date rf room c pf
    by (simp add: provision_begin_def status_guard_def begin_creation_def)
  then show ?thesis using sv b(4,9,10) f act by (simp add: start_provisioning_def)
qed

subsection \<open>Cancellation and the sweep\<close>

lemma text_ok_status:
  "meeting_text_ok m \<Longrightarrow> text_fits (Some 32) (status_text s) \<Longrightarrow> meeting_text_ok (m\<lparr>m_status := s\<rparr>)"
  by (simp add: meeting_text_ok_def)

lemma cancel_succeeds:
  assumes wf: "db_wf d" and m: "get_meeting pk d = Some m" and s: "cancellable (m_status m)"
  shows "\<exists>d'. cancel E now pk d = Inr (m\<lparr>m_status := CANCELLED, m_reservation_active := False,
      m_cancelled_at := Some now, m_updated_at := now\<rparr>, d') \<and>
    get_meeting pk d' = Some (m\<lparr>m_status := CANCELLED, m_reservation_active := False,
      m_cancelled_at := Some now, m_updated_at := now\<rparr>)"
proof -
  let ?m = "m\<lparr>m_status := CANCELLED, m_reservation_active := False, m_cancelled_at := Some now\<rparr>"
  have id: "m_id m = pk" using m by (rule get_key)
  have "meeting_text_ok m" using wf meeting_tbl.fetch_mem[OF m] by (simp add: db_wf_def meetings_wf_def)
  then have "meeting_text_ok ?m" by (simp add: meeting_text_ok_def text_fits_def)
  then have sv: "save_meeting now ?m d = Inr (?m\<lparr>m_updated_at := now\<rparr>,
      store db_meetings set_meetings m_id (?m\<lparr>m_updated_at := now\<rparr>) d)"
    using wf m id by (intro save_same_reservation[of _ _ m]) (simp_all add: db_wf_def same_class_def)
  have "get_meeting pk (audit_meeting E now ''meeting_cancelled'' (?m\<lparr>m_updated_at := now\<rparr>)
      (store db_meetings set_meetings m_id (?m\<lparr>m_updated_at := now\<rparr>) d)) =
      get_meeting pk (store db_meetings set_meetings m_id (?m\<lparr>m_updated_at := now\<rparr>) d)"
    by (rule fetch_cong) simp
  also have "\<dots> = Some (?m\<lparr>m_updated_at := now\<rparr>)"
    using save_meeting_get[OF sv] m id by simp
  finally show ?thesis
    using m s sv by (auto simp: cancel_def cancellable_def)
qed

definition flagged :: "int \<Rightarrow> meeting \<Rightarrow> meeting" where
  "flagged now m = m\<lparr>m_status := PROVIDER_STATE_UNKNOWN,
     m_last_provider_error := Some ''PROVISIONING_INTERRUPTED'', m_updated_at := now\<rparr>"

lemma flag_rows_effect:
  assumes "db_wf d" and "distinct (map m_id ms)" and "\<forall>m \<in> set ms. get_meeting (m_id m) d = Some m"
  shows "\<exists>d'. flag_rows E now ms d = Inr d' \<and> tx_effect (m_id ` set ms) d d' \<and>
    (\<forall>m \<in> set ms. get_meeting (m_id m) d' = Some (flagged now m)) \<and>
    length (db_audit d') = length (db_audit d) + length ms"
  using assms
proof (induction ms arbitrary: d)
  case Nil
  then show ?case by (simp add: tx_effect_refl)
next
  case (Cons m ms)
  let ?m = "m\<lparr>m_status := PROVIDER_STATE_UNKNOWN, m_last_provider_error := Some ''PROVISIONING_INTERRUPTED''\<rparr>"
  have cur: "get_meeting (m_id m) d = Some m" using Cons.prems(3) by simp
  have "meeting_text_ok m" using Cons.prems(1) meeting_tbl.fetch_mem[OF cur] by (simp add: db_wf_def meetings_wf_def)
  then have tx: "meeting_text_ok ?m" by (simp add: meeting_text_ok_def text_fits_def opt_fits_def)
  obtain d0 where sv: "save_meeting now ?m d = Inr (flagged now m, d0)"
    using save_same_reservation[of d ?m m now] Cons.prems(1) cur tx
    by (simp add: db_wf_def same_class_def flagged_def)
  let ?d1 = "audit E now ''provider_state_unknown'' ''meetings.Meeting'' (m_id m) None None None d0"
  have e0: "tx_effect {m_id m} d d0"
    using save_effect[OF Cons.prems(1) _ _ _ sv, of m] cur by (simp add: identity_def)
  then have e1: "tx_effect {m_id m} d ?d1" by (rule tx_effect_audit)
  have get1: "get_meeting k ?d1 = get_meeting k d0" for k by (rule fetch_cong) simp
  have "get_meeting (m_id x) ?d1 = Some x" if "x \<in> set ms" for x
    unfolding get1 using that Cons.prems(2,3) e0 by (auto simp: tx_effect_def image_iff)
  then obtain d' where d': "flag_rows E now ms ?d1 = Inr d'" "tx_effect (m_id ` set ms) ?d1 d'"
      "\<forall>m \<in> set ms. get_meeting (m_id m) d' = Some (flagged now m)" "length (db_audit d') = length (db_audit ?d1) + length ms"
    using Cons.IH[of ?d1] Cons.prems(2) e1 by (auto simp: tx_effect_def)
  have self: "get_meeting (m_id m) d' = Some (flagged now m)"
    using d'(2) Cons.prems(2) save_meeting_get[OF sv] cur by (auto simp: tx_effect_def get1)
  have "tx_effect (m_id ` set (m # ms)) d d'"
    using tx_effect_trans[OF tx_effect_mono[OF e1] tx_effect_mono[OF d'(2)], of "m_id ` set (m # ms)"] by auto
  moreover have "length (db_audit d') = length (db_audit d) + length (m # ms)"
    using d'(4) save_meeting_frame(4)[OF sv] by (simp add: audit_def audit_record_def)
  moreover have "flag_rows E now (m # ms) d = Inr d'" using sv d'(1) by (simp add: flagged_def)
  ultimately show ?case using d'(3) self by auto
qed

lemma stale_rows:
  assumes "meetings_wf d"
  shows "distinct (map m_id (filter P (db_meetings d)))"
    and "\<forall>m \<in> set (filter P (db_meetings d)). get_meeting (m_id m) d = Some m"
  using assms meeting_tbl.fetch_distinct by (auto simp: meetings_wf_def distinct_map_filter)

lemma sweep_effect:
  assumes wf: "db_wf d"
  shows "\<exists>d'. flag_stale_provisioning E now locked d = Inr d' \<and>
    tx_effect {k. \<exists>m. get_meeting k d = Some m \<and> is_stale now m \<and> k \<notin> set locked} d d' \<and>
    (\<forall>k m. get_meeting k d = Some m \<and> is_stale now m \<and> k \<notin> set locked \<longrightarrow>
       get_meeting k d' = Some (flagged now m))"
proof -
  let ?ms = "filter (\<lambda>m. is_stale now m \<and> m_id m \<notin> set locked) (db_meetings d)"
  have mwf: "meetings_wf d" using wf by (simp add: db_wf_def)
  from flag_rows_effect[OF wf stale_rows[OF mwf]] obtain d' where
    d': "flag_rows E now ?ms d = Inr d'" "tx_effect (m_id ` set ?ms) d d'"
      "\<forall>m \<in> set ?ms. get_meeting (m_id m) d' = Some (flagged now m)" by blast
  have mem: "m \<in> set ?ms" if "get_meeting k d = Some m" "is_stale now m" "k \<notin> set locked" for k m
    using that meeting_tbl.fetch_mem get_key by fastforce
  have "m_id ` set ?ms \<subseteq> {k. \<exists>m. get_meeting k d = Some m \<and> is_stale now m \<and> k \<notin> set locked}"
    using stale_rows(2)[OF mwf] by auto
  then have "tx_effect {k. \<exists>m. get_meeting k d = Some m \<and> is_stale now m \<and> k \<notin> set locked} d d'"
    using d'(2) tx_effect_mono by blast
  moreover have "get_meeting k d' = Some (flagged now m)"
    if "get_meeting k d = Some m" "is_stale now m" "k \<notin> set locked" for k m
    using d'(3) mem[OF that] get_key[OF that(1)] by auto
  ultimately show ?thesis using d'(1) by (auto simp: flag_stale_provisioning_def)
qed

subsection \<open>Recording a creation\<close>

lemma record_success_progress:
  assumes wf: "db_wf d" and m: "get_meeting pk d = Some m"
    and st: "m_status m = PROVISIONING \<or> m_status m = PROVIDER_STATE_UNKNOWN"
    and new: "\<not> has_provider_fields m" and fits: "result_fits res"
    and cipher: "can_encrypt E" "cipher_text_ok E"
    and url: "start_meeting_url res = Some u" "u \<noteq> []" "CHR 0x00 \<notin> set u"
  shows "\<exists>m' d' enc. record_success E now pk retrying res d = Inr (m', d') \<and> get_meeting pk d' = Some m' \<and>
    encrypt E u = Inr enc \<and>
    m' = m\<lparr>m_provider_calendar_id := Some (calendar_id res),
      m_provider_unique_id := or_else (m_provider_unique_id m) (unique_id res),
      m_provider_panel_address := or_else (m_provider_panel_address m) (meeting_panel_address res),
      m_encrypted_provider_start_url := Some enc, m_provider_created_at := Some now, m_status := READY,
      m_last_provider_error := None, m_updated_at := now\<rparr>"
proof -
  obtain enc where enc: "encrypt E u = Inr enc" using encrypt_Inr[OF cipher(1)] by blast
  have none: "\<not> truthy (m_provider_calendar_id m)" "\<not> truthy (m_provider_unique_id m)"
      "\<not> truthy (m_provider_panel_address m)" "\<not> truthy (m_encrypted_provider_start_url m)"
    using new by (simp_all add: has_provider_fields_def)
  then have col: "start_url_column E m res = Inr (Some enc)"
    using url enc by (simp add: start_url_column_def)
  let ?m = "m\<lparr>m_provider_calendar_id := Some (calendar_id res),
      m_provider_unique_id := or_else (m_provider_unique_id m) (unique_id res),
      m_provider_panel_address := or_else (m_provider_panel_address m) (meeting_panel_address res),
      m_encrypted_provider_start_url := Some enc, m_provider_created_at := Some now, m_status := READY,
      m_last_provider_error := None\<rparr>"
  have "meeting_text_ok m" using wf meeting_tbl.fetch_mem[OF m] by (simp add: db_wf_def meetings_wf_def)
  then have "meeting_text_ok ?m"
    using encrypt_fits[OF cipher(2) enc url(3)] fits none
    by (simp add: meeting_text_ok_def opt_fits_def text_fits_def result_fits_def or_else_def)
  then have sv: "save_meeting now ?m d =
      Inr (?m\<lparr>m_updated_at := now\<rparr>, store db_meetings set_meetings m_id (?m\<lparr>m_updated_at := now\<rparr>) d)"
    using wf m get_key[OF m] by (intro save_same_reservation[of _ _ m]) (simp_all add: db_wf_def same_class_def)
  let ?d = "audit_if retrying E now ''provider_retry_succeeded'' (?m\<lparr>m_updated_at := now\<rparr>)
      (audit_meeting E now ''meeting_created'' (?m\<lparr>m_updated_at := now\<rparr>)
        (store db_meetings set_meetings m_id (?m\<lparr>m_updated_at := now\<rparr>) d))"
  have "get_meeting pk ?d = get_meeting pk (store db_meetings set_meetings m_id (?m\<lparr>m_updated_at := now\<rparr>) d)"
    by (rule fetch_cong) (simp add: audit_if_def)
  also have "\<dots> = Some (?m\<lparr>m_updated_at := now\<rparr>)" using save_meeting_get[OF sv] m get_key[OF m] by simp
  finally have get: "get_meeting pk ?d = Some (?m\<lparr>m_updated_at := now\<rparr>)" .
  have "record_success E now pk retrying res d = Inr (?m\<lparr>m_updated_at := now\<rparr>, ?d)"
    using m st none col sv by (auto simp: record_success_def or_else_def)
  then show ?thesis using get enc by blast
qed

subsection \<open>Properties\<close>

text \<open>
  Creation requests are bounded: one provider call sends at most two creation requests, the
  second only after the first was answered with 401; when it ends in an unambiguous failure, every
  request it sent was definitely rejected, and when it ends in a result, that is the parsed answer
  to the last one.
\<close>

theorem creation_requests_bounded:
  assumes "provider_create E j w = (outcome, w')" and "paths_differ E" and "foreign_raises w"
  shows "sends_at_most_two (attempts E w w') \<and>
    (unambiguous_failure outcome \<longrightarrow> (\<forall>out \<in> set (attempts E w w'). definite_rejection out)) \<and>
    (\<forall>res tok. outcome = Inr (res, tok) \<longrightarrow> attempts E w w' \<noteq> [] \<and>
       classify True (parse_meeting (e_settings E)) (last (attempts E w w')) = Inr res)"
  using provider_create_summary[OF assms] by blast

text \<open>
  C19, a retry resumes the same creation: after a creation that started from a draft failed
  retryably, a request on the class's date starts it again, with the body that was stored and
  therefore sent the first time, in the same room and under the same reservation, whatever the
  presets and the room's configuration say by then.
\<close>

theorem retry_resumes:
  assumes wf: "db_wf d" and json: "json_columns_wf d"
    and cipher: "fernet_ok E" "can_encrypt E" "cipher_text_ok E"
    and m: "get_meeting pk d = Some m" "m_status m = DRAFT"
    and first: "provision_begin E now pk v d = Inr (Started j, d1)"
    and failed: "record_failure E now1 pk retrying e d1 = Inr (m1, d2)" "m_status m1 = RETRYABLE_FAILED"
    and none: "\<not> has_provider_fields m"
    and again: "v_start v' = Some s" "dt_date s = m_class_date m"
  shows "\<exists>j' d3. provision_begin E now2 pk v' d2 = Inr (Started j', d3) \<and>
    j_payload j' = j_payload j \<and> j_room j' = j_room j \<and> j_retrying j' \<and>
    m_reservation (j_meeting j') = m_reservation (j_meeting j) \<and> m_reservation_active (j_meeting j')"
proof -
  have "json_ok (JObj (j_payload j))" using begun_job[OF wf m(1) first] m(2) json by metis
  then show ?thesis by (rule retry_resumes_aux[OF wf cipher m(1) _ first failed none again])
qed

text \<open>
  C20, a created meeting is recorded and handed out: when the provider's result fits the columns and
  the meeting still waits for it, the success transaction commits, the meeting is \<open>READY\<close> with its
  reservation as it was, and the representation for a client with the token scope returns the very
  calendar id, start URL and token the provider sent, although the URL is stored encrypted.
\<close>

theorem created_meeting_handed_out:
  assumes wf: "db_wf d" and m: "get_meeting pk d = Some m"
    and st: "m_status m = PROVISIONING \<or> m_status m = PROVIDER_STATE_UNKNOWN"
    and new: "\<not> has_provider_fields m" and fits: "result_fits res"
    and cipher: "fernet_ok E" "can_encrypt E" "cipher_text_ok E"
    and url: "start_meeting_url res = Some u" "u \<noteq> []" "CHR 0x00 \<notin> set u"
  shows "\<exists>m' d' v. record_success E now pk retrying res d = Inr (m', d') \<and> get_meeting pk d' = Some m' \<and>
    m_status m' = READY \<and> m_reservation m' = m_reservation m \<and> m_reservation_active m' = m_reservation_active m \<and>
    representation E m' (Some tok) = Inr v \<and>
    obj_get (obj_get v ''convay'') ''calendarId'' = JStr (calendar_id res) \<and>
    obj_get (obj_get v ''convay'') ''startMeetingUrl'' = JStr u \<and>
    obj_get (obj_get (obj_get v ''convay'') ''authorization'') ''accessToken'' = JStr (access_token tok)"
proof -
  from record_success_progress[OF wf m st new fits cipher(2,3) url, of now retrying] obtain m' d' enc where
    r: "record_success E now pk retrying res d = Inr (m', d')" "get_meeting pk d' = Some m'" "encrypt E u = Inr enc"
      "m_encrypted_provider_start_url m' = Some enc" "m_provider_calendar_id m' = Some (calendar_id res)"
      "m_status m' = READY" "m_reservation m' = m_reservation m" "m_reservation_active m' = m_reservation_active m"
    by auto
  have "start_url_member E m' = Inr (JStr u)"
    using r(4) encrypt_nonempty[OF r(3)] decrypt_encrypt[OF cipher(1,2) r(3)]
    by (simp add: start_url_member_def truthy_def)
  then show ?thesis
    using r by (simp add: representation_def Let_def obj_get_def opt_str_def authorization_def)
qed

text \<open>
  A late answer leaves no trace: when an operator changed the meeting's status while the
  provider call ran, a successful answer ends in a conflict and the world is exactly as before; the
  calendar id is not kept, and the audit record \<open>late_provider_response\<close> that the code writes is
  rolled back with the transaction that the conflict aborts.
\<close>

theorem late_answer_leaves_no_trace:
  assumes "get_meeting (m_id (j_meeting j)) (w_db w) = Some m"
    and "m_status m \<noteq> PROVISIONING" and "m_status m \<noteq> PROVIDER_STATE_UNKNOWN"
  shows "provision_finish E j (Inr (res, tok)) w =
    (Inl (conflict ''PROVIDER_RECONCILIATION_REQUIRED''
       ''An operator changed the meeting during creation; review provider state.''), w)"
  using assms by (simp add: provision_finish_def run_tx_def record_success_def Let_def)

text \<open>
  Cancellation: a meeting that may exist at the provider or has ended is never cancelled; a
  cancellable one always is, which releases its reservation and changes nothing else; and
  cancelling again, by anyone, returns the same row and changes nothing.
\<close>

theorem cancel_contract:
  assumes wf: "db_wf d" and m: "get_meeting pk d = Some m"
  shows "(\<not> cancellable (m_status m) \<and> m_status m \<noteq> CANCELLED \<longrightarrow> cancel E now pk d =
      Inl (conflict ''PROVIDER_RECONCILIATION_REQUIRED''
        ''Confirm provider termination through operations before releasing this reservation.'')) \<and>
    (cancellable (m_status m) \<longrightarrow> (\<exists>d'. cancel E now pk d = Inr (m\<lparr>m_status := CANCELLED,
        m_reservation_active := False, m_cancelled_at := Some now, m_updated_at := now\<rparr>, d'))) \<and>
    (\<forall>m' d'. cancel E now pk d = Inr (m', d') \<longrightarrow> cancel E' now' pk d' = Inr (m', d'))"
proof -
  have "cancel E' now' pk d' = Inr (m', d')" if c: "cancel E now pk d = Inr (m', d')" for m' d'
  proof (cases "m_status m = CANCELLED")
    case True
    then show ?thesis using c m by (simp add: cancel_def)
  next
    case False
    then have "cancellable (m_status m)" using c m by (simp add: cancel_def split: if_splits)
    from cancel_succeeds[OF wf m this, of E now] obtain d1 where
      x: "cancel E now pk d = Inr (m\<lparr>m_status := CANCELLED, m_reservation_active := False,
        m_cancelled_at := Some now, m_updated_at := now\<rparr>, d1)" (is "_ = Inr (?row, d1)")
      and g: "get_meeting pk d1 = Some (m\<lparr>m_status := CANCELLED, m_reservation_active := False,
        m_cancelled_at := Some now, m_updated_at := now\<rparr>)"
      by blast
    have "m' = ?row \<and> d' = d1" using trans[OF x[symmetric] c] by simp
    moreover have "cancel E' now' pk d1 = Inr (?row, d1)" using g by (simp add: cancel_def)
    ultimately show ?thesis by simp
  qed
  moreover have "cancel E now pk d = Inl (conflict ''PROVIDER_RECONCILIATION_REQUIRED''
        ''Confirm provider termination through operations before releasing this reservation.'')"
    if "\<not> cancellable (m_status m) \<and> m_status m \<noteq> CANCELLED"
    using m that by (simp add: cancel_def)
  ultimately show ?thesis using cancel_succeeds[OF wf m, of E now] by blast
qed

text \<open>
  The sweep: flagging stale provisionings never fails, turns exactly the unlocked meetings that
  have been \<open>PROVISIONING\<close> for more than ten minutes into \<open>PROVIDER_STATE_UNKNOWN\<close> with their
  reservations kept, and leaves every other meeting alone.
\<close>

theorem sweep_flags_exactly_stale:
  assumes wf: "db_wf d" and m: "get_meeting k d = Some m"
  shows "\<exists>d'. flag_stale_provisioning E now locked d = Inr d' \<and> db_wf d' \<and>
    get_meeting k d' = Some (if m_status m = PROVISIONING \<and> m_updated_at m < now - 10 * minute_us \<and> k \<notin> set locked
      then m\<lparr>m_status := PROVIDER_STATE_UNKNOWN, m_last_provider_error := Some ''PROVISIONING_INTERRUPTED'',
             m_updated_at := now\<rparr> else m)"
proof -
  from sweep_effect[OF wf, of E now locked] obtain d' where
    d': "flag_stale_provisioning E now locked d = Inr d'"
      "tx_effect {k. \<exists>m. get_meeting k d = Some m \<and> is_stale now m \<and> k \<notin> set locked} d d'"
      "\<And>k m. get_meeting k d = Some m \<Longrightarrow> is_stale now m \<Longrightarrow> k \<notin> set locked \<Longrightarrow>
         get_meeting k d' = Some (flagged now m)"
    by blast
  show ?thesis
  proof (cases "is_stale now m \<and> k \<notin> set locked")
    case True
    then show ?thesis using d' m
      by (intro exI[of _ d']) (auto simp: is_stale_def stale_after_us_def flagged_def tx_effect_def)
  next
    case False
    then have "get_meeting k d' = Some m" using d'(2) m unfolding tx_effect_def by auto
    then show ?thesis using False d'(1,2)
      by (intro exI[of _ d']) (auto simp: is_stale_def stale_after_us_def tx_effect_def)
  qed
qed

text \<open>
  What a client without the token scope sees: the representation without a token always
  succeeds and does not depend on the encrypted columns, the room, the reservation or the last error.
\<close>

theorem representation_hides_internals:
  "representation E (m\<lparr>m_encrypted_provider_start_url := url, m_encrypted_provider_payload := payload,
      m_room := room, m_reservation := res, m_reservation_active := act, m_last_provider_error := err,
      m_provider_unique_id := uid\<rparr>) None = representation E m None \<and>
   (\<exists>v. representation E m None = Inr v \<and> obj_get (obj_get v ''convay'') ''startMeetingUrl'' = JNull \<and>
      obj_get (obj_get v ''convay'') ''authorization'' = JNull)"
  by (simp add: representation_def Let_def obj_get_def)

subsection \<open>Witnesses\<close>

lemma sample_paths [simp]: "paths_differ sample_env"
  by (simp add: paths_differ_def sample_env_def sample_settings_def)

definition sample_job :: job where
  "sample_job = \<lparr>j_meeting = sample_draft\<lparr>m_status := PROVISIONING\<rparr>, j_room = sample_room_b, j_payload = [],
     j_retrying = False\<rparr>"

theorem creation_requests_bounded_witness:
  "\<exists>outcome w'. provider_create sample_env sample_job sample_world = (outcome, w') \<and>
     length (attempts sample_env sample_world w') \<le> 2"
proof -
  obtain outcome w' where r: "provider_create sample_env sample_job sample_world = (outcome, w')" by fastforce
  have "foreign_raises sample_world" by (simp add: foreign_raises_def sample_world_def)
  from creation_requests_bounded[OF r sample_paths this] show ?thesis
    using r by (auto simp: sends_at_most_two_def)
qed

lemma sample_json_columns: "json_columns_wf sample_db"
  by (simp add: json_columns_wf_def layer_wf_def sample_rows)

theorem retry_resumes_witness:
  "\<exists>j d1 m1 d2 j' d3. provision_begin sample_env 7 (UUID 31) sample_values sample_db = Inr (Started j, d1) \<and>
     record_failure sample_env 8 (UUID 31) False (status_error True 429) d1 = Inr (m1, d2) \<and>
     provision_begin sample_env 9 (UUID 31) sample_values d2 = Inr (Started j', d3) \<and> j_payload j' = j_payload j"
proof -
  obtain j d1 where b: "provision_begin sample_env 7 (UUID 31) sample_values sample_db = Inr (Started j, d1)"
    by (rule sample_begin)
  have b2: "begin_creation sample_env 7 sample_draft sample_values sample_db = Inr (Started j, d1)"
    using b by (simp add: provision_begin_def sample_values_times(4) status_guard_def)
  note eff = begin_creation_effect[OF sample_db_wf sample_draft_get disjI1[OF sample_values_times(4)] b2]
  then have get: "get_meeting (UUID 31) d1 = Some (j_meeting j)" and act: "m_reservation_active (j_meeting j)"
      and wf1: "db_wf d1" by (auto simp: tx_effect_def)
  have rec: "recordable (status_error True 429)" by (simp add: recordable_def status_error_def text_fits_def)
  obtain m1 d2 where f: "record_failure sample_env 8 (UUID 31) False (status_error True 429) d1 = Inr (m1, d2)"
    using record_failure_progress[OF wf1 get act rec] by blast
  have st: "m_status m1 = RETRYABLE_FAILED"
    using record_failure_row[OF f] by (simp add: failed_status_def status_error_def retryable_code_def)
  have "\<not> has_provider_fields sample_draft" by (simp add: has_provider_fields_def truthy_def sample_draft_def)
  from retry_resumes[OF sample_db_wf sample_json_columns sample_env_ok(1,3) sample_cipher_text_ok sample_draft_get
      sample_values_times(4) b f st this sample_values_times(1,3)]
  show ?thesis using b f by blast
qed

definition sample_result :: provider_meeting_result where
  "sample_result = \<lparr>calendar_id = ''cal-1'', meeting_panel_address = Some ''panel'',
     start_meeting_url = Some ''https://m.convay.com/x'', unique_id = None\<rparr>"

theorem created_meeting_handed_out_witness:
  "\<exists>j d m' d' v. provision_begin sample_env 7 (UUID 31) sample_values sample_db = Inr (Started j, d) \<and>
     record_success sample_env 9 (UUID 31) False sample_result d = Inr (m', d') \<and>
     representation sample_env m' (Some sample_token) = Inr v \<and>
     obj_get (obj_get v ''convay'') ''startMeetingUrl'' = JStr ''https://m.convay.com/x''"
proof -
  obtain j d where b: "provision_begin sample_env 7 (UUID 31) sample_values sample_db = Inr (Started j, d)"
    by (rule sample_begin)
  from begun_job[OF sample_db_wf sample_draft_get b] have j: "get_meeting (UUID 31) d = Some (j_meeting j)"
      "tx_effect {UUID 31} sample_db d" "m_status (j_meeting j) = PROVISIONING"
      "provider_fields (j_meeting j) = provider_fields sample_draft" by metis+
  have nopf: "\<not> has_provider_fields (j_meeting j)"
    using j(4) by (simp add: has_provider_fields_iff) (simp add: provider_fields_def truthy_def sample_draft_def)
  have wf: "db_wf d" using j(2) by (simp add: tx_effect_def)
  have fits: "result_fits sample_result"
    by (simp add: result_fits_def sample_result_def text_fits_def opt_fits_def)
  have url: "start_meeting_url sample_result = Some ''https://m.convay.com/x''" by (simp add: sample_result_def)
  from created_meeting_handed_out[OF wf j(1) disjI1[OF j(3)] nopf fits sample_env_ok(1,3) sample_cipher_text_ok url,
      of 9 False sample_token]
  show ?thesis using b by auto
qed

theorem late_answer_leaves_no_trace_witness:
  "provision_finish sample_env (sample_job\<lparr>j_meeting := sample_ready\<rparr>) (Inr (sample_result, sample_token)) sample_world =
    (Inl (conflict ''PROVIDER_RECONCILIATION_REQUIRED''
       ''An operator changed the meeting during creation; review provider state.''), sample_world)"
  by (rule late_answer_leaves_no_trace[of _ _ sample_ready])
    (simp_all add: sample_world_def sample_ready_get(1)[unfolded sample_rows] sample_rows fetch_def)

theorem cancel_contract_witness:
  "\<exists>d'. cancel sample_env 9 (UUID 31) sample_db = Inr (sample_draft\<lparr>m_status := CANCELLED,
      m_reservation_active := False, m_cancelled_at := Some 9, m_updated_at := 9\<rparr>, d')"
proof -
  have "cancellable (m_status sample_draft)" by (simp add: cancellable_def sample_draft_def)
  then show ?thesis using cancel_contract[OF sample_db_wf sample_draft_get, of sample_env 9] by blast
qed

definition stale_meeting :: meeting where
  "stale_meeting = sample_ready\<lparr>m_status := PROVISIONING\<rparr>"

definition stale_db :: db where
  "stale_db = sample_db\<lparr>db_meetings := [sample_draft, stale_meeting, sample_failed]\<rparr>"

lemma stale_db_wf: "db_wf stale_db"
proof -
  have "meetings_wf stale_db"
    by (simp add: meetings_wf_def stale_db_def stale_meeting_def sample_rows meeting_text_ok_def text_fits_def
        opt_fits_def meeting_checks_def active_reservation_complete_def positive_meeting_interval_def
        reservation_range_valid_def same_class_def room_conflict_def opt_overlap_def range_overlap_def hour_us_def)
  moreover have "rooms_wf stale_db" "refs_wf stale_db" "clients_wf stale_db"
    by (simp_all add: rooms_wf_def room_row_ok_def refs_wf_def clients_wf_def stale_db_def stale_meeting_def
        sample_rows fetch_def)
  ultimately show ?thesis by (simp add: db_wf_def)
qed

theorem sweep_flags_exactly_stale_witness:
  "\<exists>d' m. flag_stale_provisioning sample_env (11 * minute_us) [] stale_db = Inr d' \<and>
     get_meeting (UUID 32) d' = Some m \<and> m_status m = PROVIDER_STATE_UNKNOWN \<and> m_reservation_active m"
proof -
  have m: "get_meeting (UUID 32) stale_db = Some stale_meeting"
    by (simp add: fetch_def stale_db_def stale_meeting_def sample_rows)
  have "m_status stale_meeting = PROVISIONING" "m_updated_at stale_meeting = 0" "m_reservation_active stale_meeting"
    by (simp_all add: stale_meeting_def sample_rows)
  then show ?thesis
    using sweep_flags_exactly_stale[OF stale_db_wf m, of sample_env "11 * minute_us" "[]"]
    by (auto simp: minute_us_def)
qed

subsection \<open>The provider limit and retries\<close>

text \<open>Room b has room for one more counted meeting; a retryable failure of the same room waits.\<close>

definition limited_room :: room where
  "limited_room = sample_room_b\<lparr>r_provider_active_meeting_limit := Some 1\<rparr>"

definition waiting_meeting :: meeting where
  "waiting_meeting = sample_failed\<lparr>m_room := Some (UUID 12)\<rparr>"

definition limited_db :: db where
  "limited_db = sample_db\<lparr>db_rooms := [sample_room_a, limited_room],
     db_meetings := [sample_draft, sample_ready, waiting_meeting]\<rparr>"

definition waiting_values :: request_values where
  "waiting_values = sample_values\<lparr>v_class_id := ''c3'', v_start := Some (utc (5 * hour_us)),
     v_end := Some (utc (6 * hour_us))\<rparr>"

lemma limited_db_wf: "db_wf limited_db"
proof -
  have "meetings_wf limited_db"
    by (simp add: meetings_wf_def limited_db_def waiting_meeting_def sample_rows meeting_text_ok_def text_fits_def
        opt_fits_def meeting_checks_def active_reservation_complete_def positive_meeting_interval_def
        reservation_range_valid_def same_class_def room_conflict_def opt_overlap_def range_overlap_def hour_us_def)
  moreover have "rooms_wf limited_db" "refs_wf limited_db" "clients_wf limited_db"
    by (simp_all add: rooms_wf_def room_row_ok_def refs_wf_def clients_wf_def limited_db_def limited_room_def
        waiting_meeting_def sample_rows fetch_def)
  ultimately show ?thesis by (simp add: db_wf_def)
qed

lemma waiting_begin:
  "\<exists>j d'. provision_begin sample_env 7 (UUID 33) waiting_values limited_db = Inr (Started j, d') \<and>
     db_meetings d' = row_put m_id (j_meeting j) (db_meetings limited_db) \<and> m_id (j_meeting j) = UUID 33 \<and>
     m_room (j_meeting j) = Some (UUID 12) \<and> m_status (j_meeting j) = PROVISIONING"
proof -
  let ?cfg = "[(''meetingType'', JStr ''instant''), (''bigMeeting'', JBool False),
      (''config'', JObj [(''MIC_OFF'', JBool True), (''CAMERA_OFF'', JBool True)])]"
  let ?p = "?cfg @ [(''title'', JStr ''Maths'')]"
  have cfg: "resolve_config sample_env limited_db sample_client limited_room = Inr ?cfg"
    using sample_config by (simp add: resolve_config_def config_layers_def client_preset_def default_preset_def
        limited_db_def limited_room_def sample_rows)
  have get: "get_meeting (UUID 33) limited_db = Some waiting_meeting"
      "get_room (UUID 12) limited_db = Some limited_room" "get_client (UUID 21) limited_db = Some sample_client"
    by (simp_all add: fetch_def limited_db_def limited_room_def waiting_meeting_def sample_rows)
  have row: "m_status waiting_meeting = RETRYABLE_FAILED" "m_reservation_active waiting_meeting"
      "m_room waiting_meeting = Some (UUID 12)" "m_integration_client waiting_meeting = UUID 21"
      "m_encrypted_provider_payload waiting_meeting = None" "m_meeting_title waiting_meeting = ''Maths''"
      "\<not> has_provider_fields waiting_meeting" "m_id waiting_meeting = UUID 33" "m_class_date waiting_meeting = 0"
    by (simp_all add: waiting_meeting_def sample_rows has_provider_fields_def truthy_def)
  have date: "v_start waiting_values = Some (utc (5 * hour_us))" "dt_date (utc (5 * hour_us)) = 0"
    by (simp_all add: waiting_values_def dt_date_def dt_local_def utc_def hour_us_def day_us_def)
  have pf: "payload_for sample_env True waiting_meeting limited_room sample_client limited_db = Inr ?p"
    using row(5,6) cfg by (simp add: payload_for_def truthy_def dict_pop_def)
  have step: "provision_begin sample_env 7 (UUID 33) waiting_values limited_db =
      start_provisioning sample_env 7 True waiting_meeting limited_room ?p limited_db"
    using get row date pf by (simp add: provision_begin_def status_guard_def begin_creation_def reserve_for_def)
  obtain ct where ct: "encrypt sample_env (dumps (JObj ?p)) = Inr ct"
    using encrypt_Inr[OF sample_env_ok(3)] by blast
  let ?m = "waiting_meeting\<lparr>m_provider_meeting_type := upper ''instant'', m_encrypted_provider_payload := Some ct,
      m_status := PROVISIONING\<rparr>"
  have "meeting_text_ok waiting_meeting"
    using limited_db_wf meeting_tbl.fetch_mem[OF get(1)] by (simp add: db_wf_def meetings_wf_def)
  then have "meeting_text_ok ?m"
    using encrypt_fits[OF sample_cipher_text_ok ct dumps_no_nul]
    by (simp add: meeting_text_ok_def opt_fits_def text_fits_def upper_instant)
  then have "save_meeting 7 ?m limited_db = Inr (?m\<lparr>m_updated_at := 7\<rparr>,
      store db_meetings set_meetings m_id (?m\<lparr>m_updated_at := 7\<rparr>) limited_db)"
    using limited_db_wf get(1) row(8)
    by (intro save_same_reservation[of _ _ waiting_meeting]) (simp_all add: db_wf_def same_class_def)
  then show ?thesis using ct row by (simp add: step start_provisioning_def meeting_tbl.rows_of_store)
qed

text \<open>
  A retry bypasses the provider limit: there is a database that satisfies every constraint, with a
  room at its limit of active provider meetings, and a retryable failure whose retry is started in that
  room all the same; the reserved slot skips the capacity check, so the limit is exceeded by one.
\<close>

theorem retry_exceeds_provider_limit:
  "db_wf limited_db \<and> capacity_error limited_room (9 * hour_us, 10 * hour_us) limited_db = Some ''PROVIDER_CAPACITY'' \<and>
   (\<exists>j d'. provision_begin sample_env 7 (UUID 33) waiting_values limited_db = Inr (Started j, d') \<and>
      r_provider_active_meeting_limit limited_room = Some 1 \<and> length (active_meetings limited_room d') = 2)"
proof -
  have cap: "capacity_error limited_room (9 * hour_us, 10 * hour_us) limited_db = Some ''PROVIDER_CAPACITY''"
    by (simp add: capacity_error_def active_meetings_def counted_def limited_db_def limited_room_def
        waiting_meeting_def sample_rows opt_overlap_def range_overlap_def hour_us_def)
  obtain j d' where b: "provision_begin sample_env 7 (UUID 33) waiting_values limited_db = Inr (Started j, d')"
      "db_meetings d' = row_put m_id (j_meeting j) (db_meetings limited_db)" "m_id (j_meeting j) = UUID 33"
      "m_room (j_meeting j) = Some (UUID 12)" "m_status (j_meeting j) = PROVISIONING"
    using waiting_begin by blast
  have "length (active_meetings limited_room d') = 2"
    unfolding active_meetings_def b(2)
    by (simp add: counted_def limited_db_def limited_room_def waiting_meeting_def sample_rows b(3))
      (simp add: b(4,5))
  then show ?thesis using limited_db_wf cap b(1) by (auto simp: limited_room_def)
qed

end
