(* ===== verification/Administration.thy ===== *)
theory Administration
  imports Outcomes
begin

text \<open>
  The administration site: \<open>apps/meetings/admin.py\<close> (the recovery form, its save and the action that
  confirms a provider meeting ended) and \<open>apps/rooms/admin.py\<close> (credential changes, activation, the
  credential test) with the parts of \<open>apps/rooms/models.py\<close> and of migration 0002 they meet. A form's
  cleaned values and the object it edits are arguments; the object may be older than the row.
\<close>

record admin_user =
  au_id :: int
  au_superuser :: bool

subsection \<open>Meetings\<close>

record recovery_values =
  rv_calendar :: "string option"
  rv_panel :: "string option"
  rv_url :: "string option"

text \<open>\<open>(v or "").strip()\<close>.\<close>

definition or_blank :: "string option \<Rightarrow> string" where
  "or_blank v = strip (case v of None \<Rightarrow> [] | Some s \<Rightarrow> s)"

definition recovery_clean :: "env \<Rightarrow> uuid \<Rightarrow> recovery_values \<Rightarrow> db \<Rightarrow> exn + unit" where
  "recovery_clean E pk v d =
     (case get_meeting pk d of
        None \<Rightarrow> Inl DoesNotExist
      | Some original \<Rightarrow>
          if m_status original \<noteq> PROVIDER_STATE_UNKNOWN then Inr ()
          else
            (let calendar_id = or_blank (rv_calendar v); panel = or_blank (rv_panel v); start_url = or_blank (rv_url v) in
             if calendar_id = [] \<or> panel = [] \<or> start_url = []
             then Inl (ValidationError ''Recovery requires calendarId, meetingPanelAddress, and startMeetingUrl.'')
             else if truthy (m_provider_calendar_id original) \<and> m_provider_calendar_id original \<noteq> Some calendar_id
             then Inl (ValidationError ''Recovery cannot overwrite a different existing calendarId.'')
             else (case urlsplit start_url of
                 None \<Rightarrow> Inl ValueError
               | Some parsed \<Rightarrow>
                   if lower (sr_scheme parsed) \<noteq> ''https'' \<or> sr_netloc parsed = [] \<or> has_username parsed \<or>
                      has_password parsed \<or> \<not> trusted_host (e_settings E) (hostname parsed)
                   then Inl (ValidationError ''startMeetingUrl must be HTTPS on a trusted Convay domain.'')
                   else Inr ())))"

text \<open>The fields of the change form that may be edited, as a function of the status it was built for.\<close>

definition editable_fields :: "status \<Rightarrow> string list" where
  "editable_fields s =
     (if s = PROVIDER_STATE_UNKNOWN
      then [''provider_calendar_id'', ''provider_panel_address'', ''recovery_start_meeting_url''] else [])"

text \<open>The cleaned values of the form: a field that is not on it has no value.\<close>

definition form_values :: "meeting \<Rightarrow> recovery_values \<Rightarrow> recovery_values" where
  "form_values obj v =
     (if editable_fields (m_status obj) = [] then \<lparr>rv_calendar = None, rv_panel = None, rv_url = None\<rparr> else v)"

text \<open>The instance the form hands to \<open>save_model\<close>: the object it was built from with the edited columns.\<close>

definition form_instance :: "meeting \<Rightarrow> recovery_values \<Rightarrow> meeting" where
  "form_instance obj v =
     (if editable_fields (m_status obj) = [] then obj
      else obj\<lparr>m_provider_calendar_id := rv_calendar v, m_provider_panel_address := rv_panel v\<rparr>)"

text \<open>
  \<open>save_model\<close> of a change (adding is forbidden); \<open>url\<close> is the form's cleaned URL, absent when the
  form was built without the field. Every column of the object is written.
\<close>

definition save_meeting_admin ::
    "env \<Rightarrow> int \<Rightarrow> admin_user \<Rightarrow> meeting \<Rightarrow> string option \<Rightarrow> db \<Rightarrow> exn + db" where
  "save_meeting_admin E now user obj url d =
     (case get_meeting (m_id obj) d of
        None \<Rightarrow> Inl DoesNotExist
      | Some original \<Rightarrow>
          if m_status original = PROVIDER_STATE_UNKNOWN
          then
            (if truthy (m_provider_calendar_id original) \<and>
                m_provider_calendar_id original \<noteq> m_provider_calendar_id obj
             then Inl (ValidationError ''Recovery cannot overwrite a different existing calendarId.'')
             else (case url of
                 None \<Rightarrow> Inl KeyError
               | Some u \<Rightarrow>
                   bind_r (encrypt E u) (\<lambda>enc.
                   bind_r (save_meeting now (obj\<lparr>m_encrypted_provider_start_url := Some enc,
                       m_provider_created_at :=
                         (case m_provider_created_at obj of None \<Rightarrow> Some now | Some t \<Rightarrow> Some t),
                       m_status := READY, m_reservation_active := True, m_last_provider_error := None\<rparr>) d) (\<lambda>(m, d1).
                     Inr (audit E now ''admin_recovered_provider_meeting'' ''meetings.Meeting'' (m_id m)
                            None (Some (au_id user)) None d1)))))
          else bind_r (save_meeting now obj d) (\<lambda>(_, d1). Inr d1))"

text \<open>
  The change form of one meeting. Django loads the object \<open>obj\<close> without a lock, the form's \<open>clean\<close>
  reads the row again (\<open>checked\<close> is the database then), and only \<open>save_model\<close> locks it, in the
  database \<open>d\<close>: other transactions may commit in between.
\<close>

definition recover_meeting ::
    "env \<Rightarrow> int \<Rightarrow> admin_user \<Rightarrow> meeting \<Rightarrow> recovery_values \<Rightarrow> db \<Rightarrow> db \<Rightarrow> exn + db" where
  "recover_meeting E now user obj v checked d =
     bind_r (recovery_clean E (m_id obj) (form_values obj v) checked) (\<lambda>_.
       save_meeting_admin E now user (form_instance obj v) (rv_url (form_values obj v)) d)"

definition provider_held :: "status \<Rightarrow> bool" where
  "provider_held s \<longleftrightarrow> s \<in> {READY, LIVE, PROVIDER_RESPONSE_INVALID, PROVIDER_STATE_UNKNOWN}"

fun confirm_provider_ended :: "env \<Rightarrow> int \<Rightarrow> admin_user \<Rightarrow> meeting list \<Rightarrow> db \<Rightarrow> exn + db" where
  "confirm_provider_ended E now user [] d = Inr d"
| "confirm_provider_ended E now user (m # ms) d =
     (if \<not> provider_held (m_status m) then confirm_provider_ended E now user ms d
      else bind_r (save_meeting now (m\<lparr>m_status := ENDED, m_reservation_active := False\<rparr>) d) (\<lambda>(m', d1).
        confirm_provider_ended E now user ms
          (audit E now ''admin_confirmed_provider_ended'' ''meetings.Meeting'' (m_id m') None (Some (au_id user)) None d1)))"

definition confirm_ended_action :: "env \<Rightarrow> int \<Rightarrow> admin_user \<Rightarrow> uuid list \<Rightarrow> db \<Rightarrow> exn + (unit \<times> db)" where
  "confirm_ended_action E now user selected d =
     bind_r (confirm_provider_ended E now user (filter (\<lambda>m. m_id m \<in> set selected) (db_meetings d)) d)
       (\<lambda>d1. Inr ((), d1))"

subsection \<open>Rooms\<close>

definition room_history :: "uuid \<Rightarrow> db \<Rightarrow> bool" where
  "room_history k d \<longleftrightarrow> list_ex (\<lambda>m. m_room m = Some k) (db_meetings d)"

definition room_text_ok :: "room \<Rightarrow> bool" where
  "room_text_ok r \<longleftrightarrow> text_fits (Some 64) (r_public_id r) \<and> text_fits (Some 160) (r_name r) \<and>
     text_fits (Some 254) (r_username r) \<and> text_fits None (r_encrypted_password r) \<and> text_fits (Some 100) (r_last_error r)"

text \<open>The trigger of migration 0002, before an update of \<open>old\<close> to \<open>new\<close>.\<close>

definition room_identity_guard :: "room \<Rightarrow> room \<Rightarrow> db \<Rightarrow> exn option" where
  "room_identity_guard old new d =
     (if r_username new \<noteq> r_username old \<and> room_history (r_id old) d then Some (IntegrityError ''23514'') else None)"

definition room_violation :: "room \<Rightarrow> db \<Rightarrow> exn option" where
  "room_violation r d =
     (let others = filter (\<lambda>x. r_id x \<noteq> r_id r) (db_rooms d) in
      if \<not> room_text_ok r then Some DataError
      else if \<not> room_row_ok r then Some (IntegrityError ''23514'')
      else if list_ex (\<lambda>x. r_public_id x = r_public_id r \<or> r_username x = r_username r) others
      then Some (IntegrityError ''23505'')
      else None)"

text \<open>\<open>room.save()\<close>: an update when the row exists, an insert otherwise.\<close>

definition save_room :: "int \<Rightarrow> room \<Rightarrow> db \<Rightarrow> exn + (room \<times> db)" where
  "save_room now r d =
     (case get_room (r_id r) d of
        Some old \<Rightarrow>
          (let r' = r\<lparr>r_updated_at := now\<rparr> in
           case room_identity_guard old r' d of
             Some x \<Rightarrow> Inl x
           | None \<Rightarrow> (case room_violation r' d of
                 Some x \<Rightarrow> Inl x | None \<Rightarrow> Inr (r', store db_rooms set_rooms r_id r' d)))
      | None \<Rightarrow>
          (let r' = r\<lparr>r_created_at := now, r_updated_at := now\<rparr> in
           case room_violation r' d of
             Some x \<Rightarrow> Inl x | None \<Rightarrow> Inr (r', d\<lparr>db_rooms := db_rooms d @ [r']\<rparr>)))"

definition set_password :: "env \<Rightarrow> string \<Rightarrow> room \<Rightarrow> exn + room" where
  "set_password E value r =
     bind_r (encrypt E value) (\<lambda>c.
       Inr (r\<lparr>r_encrypted_password := c, r_credential_version := r_credential_version r + 1\<rparr>))"

text \<open>\<open>RoomForm.clean\<close>: the messages added to the form; \<open>Inr\<close> is the empty list.\<close>

definition room_form_clean :: "room option \<Rightarrow> string \<Rightarrow> string option \<Rightarrow> db \<Rightarrow> string list" where
  "room_form_clean instance_row username password d =
     (if (case instance_row of None \<Rightarrow> True | Some r \<Rightarrow> r_encrypted_password r = []) \<and> \<not> truthy password
      then [''A password is required for a new room.''] else []) @
     (case instance_row of
        None \<Rightarrow> []
      | Some r \<Rightarrow>
          (case get_room (r_id r) d of
             Some previous \<Rightarrow>
               if r_username previous \<noteq> username \<and> room_history (r_id previous) d
               then [''Accounts with meeting history cannot be reassigned. Create a new room.''] else []
           | None \<Rightarrow> []))"

definition room_clean :: "room \<Rightarrow> exn + unit" where
  "room_clean r =
     (if r_max_concurrent_bookings r \<noteq> 1
      then Inl (ValidationError ''This release supports exactly one concurrent booking per room.'') else Inr ())"

definition save_room_admin ::
    "env \<Rightarrow> int \<Rightarrow> admin_user \<Rightarrow> room \<Rightarrow> string option \<Rightarrow> bool \<Rightarrow> db \<Rightarrow> exn + (room \<times> db)" where
  "save_room_admin E now user obj password change d =
     (let previous = get_room (r_id obj) d;
          given = (if au_superuser user then password else None) in
      if (case previous of None \<Rightarrow> False
          | Some p \<Rightarrow> r_username p \<noteq> r_username obj \<and> room_history (r_id p) d)
      then Inl (ValidationError ''An account with meeting history cannot be reassigned; create a new room.'')
      else
        bind_r (if truthy given
                then set_password E (the given)
                  (obj\<lparr>r_credential_version := (case previous of None \<Rightarrow> 1 | Some p \<Rightarrow> r_credential_version p)\<rparr>)
                else Inr obj) (\<lambda>obj1.
        bind_r (save_room now obj1 d) (\<lambda>(r, d1).
          Inr (r, audit E now (if truthy given then ''credential_changed''
                  else if change then ''room_updated'' else ''room_created'')
                ''rooms.Room'' (r_id r) None (Some (au_id user)) None d1))))"

fun set_active :: "env \<Rightarrow> int \<Rightarrow> admin_user \<Rightarrow> room list \<Rightarrow> bool \<Rightarrow> db \<Rightarrow> db" where
  "set_active E now user [] b d = d"
| "set_active E now user (r # rs) b d =
     set_active E now user rs b
       (audit E now (if b then ''room_activated'' else ''room_deactivated'') ''rooms.Room'' (r_id r) None
          (Some (au_id user)) None
          (store db_rooms set_rooms r_id (r\<lparr>r_is_active := b, r_updated_at := now\<rparr>) d))"

text \<open>The credential test of the selected rooms, with the messages shown; only a \<open>ProviderError\<close> is caught.\<close>

fun test_credential :: "env \<Rightarrow> admin_user \<Rightarrow> room list \<Rightarrow> world \<Rightarrow> (exn + string list) \<times> world" where
  "test_credential E user [] w = (Inr [], w)"
| "test_credential E user (r # rs) w =
     (case get_token E r True w of
        (res, w1) \<Rightarrow>
          (case (case res of
                   Inr _ \<Rightarrow> Inr (r_public_id r @ '': authentication succeeded.'')
                 | Inl (ProviderExn _) \<Rightarrow> Inr (r_public_id r @ '': authentication failed.'')
                 | Inl x \<Rightarrow> Inl x) of
             Inl x \<Rightarrow> (Inl x, w1)
           | Inr msg \<Rightarrow>
               bind_w (test_credential E user rs (w1\<lparr>w_db := audit E (w_now w1) ''credential_tested'' ''rooms.Room''
                   (r_id r) None (Some (au_id user)) None (w_db w1)\<rparr>))
                 (\<lambda>msgs w2. (Inr (msg # msgs), w2))))"

subsection \<open>The meeting forms as transactions\<close>

lemma form_instance_id [simp]: "m_id (form_instance obj v) = m_id obj"
  by (simp add: form_instance_def)

text \<open>What a save of the change form writes: a recovery, or the columns of the object as it was loaded.\<close>

lemma save_meeting_adminD:
  assumes "save_meeting_admin E now user (form_instance obj v) (rv_url (form_values obj v)) d = Inr d'"
  obtains (recovered) original url enc m d1 where "get_meeting (m_id obj) d = Some original"
      "m_status original = PROVIDER_STATE_UNKNOWN" "m_status obj = PROVIDER_STATE_UNKNOWN"
      "rv_url v = Some url" "encrypt E url = Inr enc"
      "truthy (m_provider_calendar_id original) \<longrightarrow> m_provider_calendar_id original = rv_calendar v"
      "save_meeting now (obj\<lparr>m_provider_calendar_id := rv_calendar v, m_provider_panel_address := rv_panel v,
         m_encrypted_provider_start_url := Some enc,
         m_provider_created_at := (case m_provider_created_at obj of None \<Rightarrow> Some now | Some t \<Rightarrow> Some t),
         m_status := READY, m_reservation_active := True, m_last_provider_error := None\<rparr>) d = Inr (m, d1)"
      "d' = audit E now ''admin_recovered_provider_meeting'' ''meetings.Meeting'' (m_id m) None (Some (au_id user)) None d1"
  | (rewritten) original m where "get_meeting (m_id obj) d = Some original" "m_status original \<noteq> PROVIDER_STATE_UNKNOWN"
      "save_meeting now (form_instance obj v) d = Inr (m, d')"
proof -
  obtain original where o: "get_meeting (m_id obj) d = Some original"
    using assms by (cases "get_meeting (m_id obj) d") (simp_all add: save_meeting_admin_def)
  show ?thesis
  proof (cases "m_status original = PROVIDER_STATE_UNKNOWN")
    case False
    then show ?thesis using rewritten o assms by (auto simp: save_meeting_admin_def bind_r_Inr_iff)
  next
    case True
    then obtain url where url: "rv_url (form_values obj v) = Some url"
      using assms o by (auto simp: save_meeting_admin_def split: if_splits option.splits)
    then have e: "m_status obj = PROVIDER_STATE_UNKNOWN" "rv_url v = Some url"
      by (auto simp: form_values_def editable_fields_def split: if_splits)
    then have "truthy (m_provider_calendar_id original) \<longrightarrow> m_provider_calendar_id original = rv_calendar v"
      using assms o True by (auto simp: save_meeting_admin_def form_instance_def editable_fields_def split: if_splits)
    moreover from this obtain enc m d1 where "encrypt E url = Inr enc"
      "save_meeting now (obj\<lparr>m_provider_calendar_id := rv_calendar v, m_provider_panel_address := rv_panel v,
         m_encrypted_provider_start_url := Some enc,
         m_provider_created_at := (case m_provider_created_at obj of None \<Rightarrow> Some now | Some t \<Rightarrow> Some t),
         m_status := READY, m_reservation_active := True, m_last_provider_error := None\<rparr>) d = Inr (m, d1)"
      "d' = audit E now ''admin_recovered_provider_meeting'' ''meetings.Meeting'' (m_id m) None (Some (au_id user)) None d1"
      using assms o True url e(1)
      by (auto simp: save_meeting_admin_def form_instance_def editable_fields_def bind_r_Inr_iff split: if_splits)
    ultimately show ?thesis using recovered o True e by blast
  qed
qed

text \<open>The object may be old, but it has the row's identity, and rooms are never deleted.\<close>

lemma form_effect:
  assumes wf: "db_wf d" and cur: "get_meeting (m_id obj) d = Some original" "identity obj = identity original"
    and room: "\<And>r. m_room obj = Some r \<Longrightarrow> get_room r d \<noteq> None"
    and s: "save_meeting_admin E now user (form_instance obj v) (rv_url (form_values obj v)) d = Inr d'"
  shows "tx_effect {m_id obj} d d'"
  using s
proof (cases rule: save_meeting_adminD)
  case (recovered original' url enc m d1)
  have "tx_effect {m_id obj} d d1"
    using save_effect[OF wf _ _ _ recovered(7), of original] cur room by (simp add: identity_def)
  then show ?thesis unfolding recovered(8) by (rule tx_effect_audit)
next
  case (rewritten original' m)
  then show ?thesis
    using save_effect[OF wf _ _ _ rewritten(3), of original] cur room by (simp add: form_instance_def identity_def split: if_splits)
qed

text \<open>The row afterwards: \<open>READY\<close> if it needed recovery, else in the status the form was loaded with.\<close>

lemma form_row:
  assumes s: "save_meeting_admin E now user (form_instance obj v) (rv_url (form_values obj v)) d = Inr d'"
    and m': "get_meeting (m_id obj) d' = Some m'"
  shows "m_status m' = READY \<or> m_status m' = m_status obj"
    and "m_reservation m' = m_reservation obj" "m_start_at m' = m_start_at obj" "m_end_at m' = m_end_at obj"
proof -
  have "(m_status m' = READY \<or> m_status m' = m_status obj) \<and> m_reservation m' = m_reservation obj \<and>
      m_start_at m' = m_start_at obj \<and> m_end_at m' = m_end_at obj"
    using s
  proof (cases rule: save_meeting_adminD)
    case (recovered original url enc m d1)
    have "get_meeting (m_id obj) d1 = Some m" using save_meeting_get[OF recovered(7)] recovered(1) by simp
    moreover have "get_meeting (m_id obj) d' = get_meeting (m_id obj) d1" by (rule fetch_cong) (simp add: recovered(8))
    ultimately show ?thesis using m' save_meetingD(1)[OF recovered(7)] by simp
  next
    case (rewritten original m)
    have "get_meeting (m_id obj) d' = Some m" using save_meeting_get[OF rewritten(3)] rewritten(1) by simp
    then show ?thesis using m' save_meetingD(1)[OF rewritten(3)] by (simp add: form_instance_def)
  qed
  then show "m_status m' = READY \<or> m_status m' = m_status obj" "m_reservation m' = m_reservation obj"
    "m_start_at m' = m_start_at obj" "m_end_at m' = m_end_at obj" by blast+
qed

definition ended :: "int \<Rightarrow> meeting \<Rightarrow> meeting" where
  "ended now m = m\<lparr>m_status := ENDED, m_reservation_active := False, m_updated_at := now\<rparr>"

lemma confirm_ended_effect:
  assumes "db_wf d" and "distinct (map m_id ms)" and "\<forall>m \<in> set ms. get_meeting (m_id m) d = Some m"
  shows "\<exists>d'. confirm_provider_ended E now user ms d = Inr d' \<and> tx_effect (m_id ` set ms) d d' \<and>
    (\<forall>m \<in> set ms. get_meeting (m_id m) d' = Some (if provider_held (m_status m) then ended now m else m))"
  using assms
proof (induction ms arbitrary: d)
  case Nil
  then show ?case by (simp add: tx_effect_refl)
next
  case (Cons m ms)
  have cur: "get_meeting (m_id m) d = Some m" using Cons.prems(3) by simp
  let ?m' = "if provider_held (m_status m) then ended now m else m"
  have "\<exists>d1. confirm_provider_ended E now user (m # ms) d = confirm_provider_ended E now user ms d1 \<and>
      tx_effect {m_id m} d d1 \<and> get_meeting (m_id m) d1 = Some ?m'"
  proof (cases "provider_held (m_status m)")
    case False
    then show ?thesis using tx_effect_refl[OF Cons.prems(1)] cur by auto
  next
    case True
    let ?m = "m\<lparr>m_status := ENDED, m_reservation_active := False\<rparr>"
    have "meeting_text_ok m" using Cons.prems(1) meeting_tbl.fetch_mem[OF cur] by (simp add: db_wf_def meetings_wf_def)
    then have tx: "meeting_text_ok ?m" by (simp add: meeting_text_ok_def text_fits_def)
    obtain d0 where sv: "save_meeting now ?m d = Inr (ended now m, d0)"
      using save_same_reservation[of d ?m m now] Cons.prems(1) cur tx
      by (simp add: db_wf_def same_class_def ended_def)
    let ?d1 = "audit E now ''admin_confirmed_provider_ended'' ''meetings.Meeting'' (m_id m) None (Some (au_id user)) None d0"
    have "tx_effect {m_id m} d d0"
      using save_effect[OF Cons.prems(1) _ _ _ sv, of m] cur by (simp add: identity_def)
    then have "tx_effect {m_id m} d ?d1" by (rule tx_effect_audit)
    moreover have "get_meeting (m_id m) ?d1 = get_meeting (m_id m) d0" by (rule fetch_cong) simp
    moreover have "get_meeting (m_id m) d0 = Some (ended now m)" using save_meeting_get[OF sv] cur by simp
    moreover have "confirm_provider_ended E now user (m # ms) d = confirm_provider_ended E now user ms ?d1"
      using True sv by (simp add: ended_def)
    ultimately show ?thesis using True by auto
  qed
  then obtain d1 where d1: "confirm_provider_ended E now user (m # ms) d = confirm_provider_ended E now user ms d1"
      "tx_effect {m_id m} d d1" "get_meeting (m_id m) d1 = Some ?m'" by blast
  have "get_meeting (m_id x) d1 = Some x" if "x \<in> set ms" for x
    using that Cons.prems(2,3) d1(2) by (auto simp: tx_effect_def image_iff)
  then obtain d' where d': "confirm_provider_ended E now user ms d1 = Inr d'" "tx_effect (m_id ` set ms) d1 d'"
      "\<forall>m \<in> set ms. get_meeting (m_id m) d' = Some (if provider_held (m_status m) then ended now m else m)"
    using Cons.IH[of d1] Cons.prems(2) d1(2) by (auto simp: tx_effect_def)
  have "get_meeting (m_id m) d' = Some ?m'"
    using d'(2) Cons.prems(2) d1(3) by (auto simp: tx_effect_def)
  moreover have "tx_effect (m_id ` set (m # ms)) d d'"
    using tx_effect_trans[OF tx_effect_mono[OF d1(2)] tx_effect_mono[OF d'(2)], of "m_id ` set (m # ms)"] by auto
  ultimately show ?case using d1(1) d'(1,3) by auto
qed

lemma confirm_action_effect:
  assumes wf: "db_wf d"
  shows "\<exists>d'. confirm_ended_action E now user selected d = Inr ((), d') \<and> tx_effect (set selected) d d' \<and>
    (\<forall>k m. get_meeting k d = Some m \<and> k \<in> set selected \<longrightarrow>
       get_meeting k d' = Some (if provider_held (m_status m) then ended now m else m))"
proof -
  let ?ms = "filter (\<lambda>m. m_id m \<in> set selected) (db_meetings d)"
  have mwf: "meetings_wf d" using wf by (simp add: db_wf_def)
  from confirm_ended_effect[OF wf stale_rows[OF mwf]] obtain d' where
    d': "confirm_provider_ended E now user ?ms d = Inr d'" "tx_effect (m_id ` set ?ms) d d'"
      "\<forall>m \<in> set ?ms. get_meeting (m_id m) d' = Some (if provider_held (m_status m) then ended now m else m)"
    by blast
  have "m_id ` set ?ms \<subseteq> set selected" by auto
  then have "tx_effect (set selected) d d'" using d'(2) tx_effect_mono by blast
  moreover have "get_meeting k d' = Some (if provider_held (m_status m) then ended now m else m)"
    if "get_meeting k d = Some m" "k \<in> set selected" for k m
    using that d'(3) meeting_tbl.fetch_mem[OF that(1)] get_key[OF that(1)] by auto
  ultimately show ?thesis using d'(1) by (auto simp: confirm_ended_action_def)
qed

interpretation confirm_tx: meeting_transaction "confirm_ended_action E now user selected" "set selected"
  by unfold_locales (metis confirm_action_effect Inr_inject prod.inject)

subsection \<open>Properties\<close>

lemma save_room_update:
  assumes "save_room now r d = Inr (r', d')" and "get_room (r_id r) d = Some p"
  shows "r' = r\<lparr>r_updated_at := now\<rparr> \<and> d' = store db_rooms set_rooms r_id r' d \<and> room_violation r' d = None \<and>
    get_room (r_id r) d' = Some r' \<and> (r_username r' = r_username p \<or> \<not> room_history (r_id p) d)"
proof -
  from assms have r: "r' = r\<lparr>r_updated_at := now\<rparr>" "d' = store db_rooms set_rooms r_id r' d"
      "room_violation r' d = None" "room_identity_guard p r' d = None"
    by (auto simp: save_room_def Let_def split: option.splits)
  have "get_room (r_id r') d' = Some r'"
    using room_tbl.fetch_store_same[of r' d] assms(2) by (simp add: r(1,2))
  then show ?thesis using r by (auto simp: room_identity_guard_def split: if_splits)
qed

lemma save_room_rooms_wf:
  assumes wf: "rooms_wf d" and s: "save_room now r d = Inr (r', d')" and p: "get_room (r_id r) d = Some p"
  shows "rooms_wf d'"
proof -
  note u = save_room_update[OF s p]
  have v: "room_row_ok r'" "\<forall>x \<in> set (db_rooms d). r_id x \<noteq> r_id r' \<longrightarrow> r_public_id x \<noteq> r_public_id r'"
    using u by (auto simp: room_violation_def Let_def list_ex_iff split: if_splits)
  have rows: "x = r' \<or> x \<in> set (db_rooms d) \<and> r_id x \<noteq> r_id r'" if "x \<in> set (db_rooms d')" for x
    using that u by (auto simp: room_tbl.rows_of_store dest: set_row_put_subset')
  have ids: "map r_id (db_rooms d') = map r_id (db_rooms d)" using u by (simp add: room_tbl.rows_of_store)
  have d_ids: "distinct (map r_id (db_rooms d'))" using wf by (simp add: ids rooms_wf_def)
  have "inj_on r_public_id (set (db_rooms d'))"
  proof (rule inj_onI)
    fix x y assume xy: "x \<in> set (db_rooms d')" "y \<in> set (db_rooms d')" "r_public_id x = r_public_id y"
    have "inj_on r_public_id (set (db_rooms d))" using wf by (simp add: rooms_wf_def distinct_map)
    then show "x = y" using rows[OF xy(1)] rows[OF xy(2)] xy(3) v(2) by (metis inj_onD)
  qed
  then have "distinct (map r_public_id (db_rooms d'))" using d_ids by (simp add: distinct_map)
  then show ?thesis using rows v(1) wf d_ids by (auto simp: rooms_wf_def)
qed

lemma token_key_version:
  assumes "r_id r = r_id p" and "r_credential_version r \<noteq> r_credential_version p"
  shows "token_key r \<noteq> token_key p"
proof
  assume "token_key r = token_key p"
  then have "show_nat (r_credential_version r) = show_nat (r_credential_version p)"
    by (simp add: token_key_def assms(1))
  then show False using assms(2) nat_of_digits_show_nat by metis
qed

text \<open>
  C38, a credential change takes effect at once: when a superuser saves an existing room with a
  password, the stored text decrypts to it, the credential version is one above the stored row's
  whatever the form's object says, and a token cached for the old credential can no longer be found,
  because the room's cache key is a new one; the room's schema constraints still hold.
\<close>

theorem credential_change_orphans_tokens:
  assumes wf: "rooms_wf d" and cipher: "fernet_ok E" "can_encrypt E"
    and su: "au_superuser user" "pw \<noteq> []" and p: "get_room (r_id obj) d = Some p"
    and s: "save_room_admin E now user obj (Some pw) change d = Inr (r, d')"
  shows "decrypt E (r_encrypted_password r) = Inr pw \<and> r_credential_version r = r_credential_version p + 1 \<and>
    get_room (r_id p) d' = Some r \<and> token_key r \<noteq> token_key p \<and> rooms_wf d' \<and>
    (room_history (r_id p) d \<longrightarrow> r_username r = r_username p)"
proof -
  obtain c d1 where enc: "encrypt E pw = Inr c"
    and sv: "save_room now (obj\<lparr>r_encrypted_password := c, r_credential_version := r_credential_version p + 1\<rparr>) d = Inr (r, d1)"
    and d': "d' = audit E now ''credential_changed'' ''rooms.Room'' (r_id r) None (Some (au_id user)) None d1"
    using s su p by (auto simp: save_room_admin_def truthy_def set_password_def bind_r_Inr_iff Let_def split: if_splits)
  have id: "r_id p = r_id obj" using room_tbl.fetch_keyD[OF p] .
  note u = save_room_update[OF sv, of p] save_room_rooms_wf[OF wf sv, of p]
  have r: "r = obj\<lparr>r_encrypted_password := c, r_credential_version := r_credential_version p + 1, r_updated_at := now\<rparr>"
    using u(1) p by simp
  have get: "get_room k d' = get_room k d1" for k unfolding d' by (rule fetch_cong) simp
  have "rooms_wf d' = rooms_wf d1" by (simp add: d' rooms_wf_def)
  moreover have "token_key r \<noteq> token_key p" by (rule token_key_version) (simp_all add: r id)
  ultimately show ?thesis
    using u p decrypt_encrypt[OF cipher enc] by (auto simp: get id r)
qed


subsection \<open>Witnesses\<close>

definition sample_admin :: admin_user where
  "sample_admin = \<lparr>au_id = 1, au_superuser = True\<rparr>"

lemma sample_save_room:
  "\<exists>r d'. save_room_admin sample_env 5 sample_admin sample_room_a (Some ''new'') True sample_db = Inr (r, d')"
proof -
  obtain c where c: "encrypt sample_env ''new'' = Inr c" using encrypt_Inr[OF sample_env_ok(3)] by blast
  have fits: "text_fits None c" using encrypt_fits[OF sample_cipher_text_ok c] by simp
  have get: "get_room (UUID 11) sample_db = Some sample_room_a" "r_id sample_room_a = UUID 11"
    by (simp_all add: fetch_def sample_rows)
  let ?r = "sample_room_a\<lparr>r_encrypted_password := c, r_credential_version := Suc (Suc 0), r_updated_at := 5\<rparr>"
  have "room_violation ?r sample_db = None"
    using fits by (simp add: room_violation_def room_text_ok_def room_row_ok_def text_fits_def sample_rows)
  moreover have "room_identity_guard sample_room_a ?r sample_db = None" by (simp add: room_identity_guard_def)
  ultimately show ?thesis
    using get c by (simp add: save_room_admin_def sample_admin_def truthy_def set_password_def save_room_def Let_def)
      (simp add: sample_room_a_def)
qed

theorem credential_change_orphans_tokens_witness:
  "\<exists>r d'. save_room_admin sample_env 5 sample_admin sample_room_a (Some ''new'') True sample_db = Inr (r, d') \<and>
     decrypt sample_env (r_encrypted_password r) = Inr ''new'' \<and> token_key r \<noteq> token_key sample_room_a"
proof -
  obtain r d' where s: "save_room_admin sample_env 5 sample_admin sample_room_a (Some ''new'') True sample_db = Inr (r, d')"
    using sample_save_room by blast
  have "rooms_wf sample_db" using sample_db_wf by (simp add: db_wf_def)
  moreover have "get_room (r_id sample_room_a) sample_db = Some sample_room_a" by (simp add: fetch_def sample_rows)
  moreover have "au_superuser sample_admin" by (simp add: sample_admin_def)
  ultimately show ?thesis
    using credential_change_orphans_tokens[OF _ sample_env_ok(1,3) _ _ _ s] s by auto
qed

definition unknown_meeting :: meeting where
  "unknown_meeting = sample_ready\<lparr>m_status := PROVIDER_STATE_UNKNOWN\<rparr>"

definition unknown_db :: db where
  "unknown_db = sample_db\<lparr>db_meetings := [sample_draft, unknown_meeting, sample_failed]\<rparr>"

definition sample_recovery :: recovery_values where
  "sample_recovery = \<lparr>rv_calendar = Some ''cal-9'', rv_panel = Some ''p'', rv_url = Some ''https://m.convay.com/x''\<rparr>"

lemma unknown_db_wf: "db_wf unknown_db"
proof -
  have "meetings_wf unknown_db"
    by (simp add: meetings_wf_def unknown_db_def unknown_meeting_def sample_rows meeting_text_ok_def text_fits_def
        opt_fits_def meeting_checks_def active_reservation_complete_def positive_meeting_interval_def
        reservation_range_valid_def same_class_def room_conflict_def opt_overlap_def range_overlap_def hour_us_def)
  moreover have "rooms_wf unknown_db" "refs_wf unknown_db" "clients_wf unknown_db"
    by (simp_all add: rooms_wf_def room_row_ok_def refs_wf_def clients_wf_def unknown_db_def unknown_meeting_def
        sample_rows fetch_def)
  ultimately show ?thesis by (simp add: db_wf_def)
qed

lemma sample_recover:
  "\<exists>d'. recover_meeting sample_env 5 sample_admin unknown_meeting sample_recovery unknown_db unknown_db = Inr d'"
proof -
  have get: "get_meeting (UUID 32) unknown_db = Some unknown_meeting" "m_id unknown_meeting = UUID 32"
    by (simp_all add: fetch_def unknown_db_def unknown_meeting_def sample_rows)
  have row: "m_status unknown_meeting = PROVIDER_STATE_UNKNOWN" "m_provider_calendar_id unknown_meeting = Some ''cal-9''"
      "m_reservation_active unknown_meeting" by (simp_all add: unknown_meeting_def sample_rows)
  have url: "urlsplit ''https://m.convay.com/x'' = Some \<lparr>sr_scheme = ''https'', sr_netloc = ''m.convay.com''\<rparr>"
    by (simp add: url_simps)
  have clean: "recovery_clean sample_env (UUID 32) sample_recovery unknown_db = Inr ()"
    using get row url by (simp add: recovery_clean_def sample_recovery_def or_blank_def strip_def lstrip_def py_space_def
        truthy_def) (simp add: url_simps sample_env_def sample_settings_def)
  obtain c where c: "encrypt sample_env ''https://m.convay.com/x'' = Inr c"
    using encrypt_Inr[OF sample_env_ok(3)] by blast
  have fits: "text_fits None c" using encrypt_fits[OF sample_cipher_text_ok c] by simp
  let ?m = "(form_instance unknown_meeting sample_recovery)\<lparr>m_encrypted_provider_start_url := Some c,
     m_provider_created_at := Some 5, m_status := READY, m_reservation_active := True, m_last_provider_error := None\<rparr>"
  have "meeting_text_ok ?m"
    using fits by (simp add: form_instance_def editable_fields_def sample_recovery_def unknown_meeting_def
        sample_rows meeting_text_ok_def text_fits_def opt_fits_def)
  then have "save_meeting 5 ?m unknown_db = Inr (?m\<lparr>m_updated_at := 5\<rparr>,
      store db_meetings set_meetings m_id (?m\<lparr>m_updated_at := 5\<rparr>) unknown_db)"
    using unknown_db_wf get row
    by (intro save_same_reservation[of _ _ unknown_meeting])
      (simp_all add: db_wf_def same_class_def form_instance_def)
  moreover have "m_provider_created_at unknown_meeting = None" by (simp add: unknown_meeting_def sample_rows)
  ultimately show ?thesis
    using get row clean c
    by (simp add: recover_meeting_def save_meeting_admin_def form_instance_def form_values_def editable_fields_def
        sample_recovery_def)
qed


end
