(* ===== verification/Workflow.thy ===== *)
theory Workflow
  imports Administration
begin

text \<open>
  Many processes at once: requests that register, start, call the provider and record, operators
  that cancel, confirm the end of meetings or edit them in the admin, and the periodic sweep, all on
  one database. A step is one committed transaction or one provider call; a process may die between
  any two of its steps, or in the middle of its provider call. An admin form takes three steps, as
  Django does: the object is loaded without a lock, the form is checked against the row of that moment,
  and the object is saved; any other step may come in between. Each step has its own request context,
  with the service's settings. A transaction elsewhere writes clients, rooms, presets or audit records,
  and no meeting; it deletes no room.

  Two fields are ghosts that no code reads. The history logs, for every creation request ever sent,
  the meeting it was for and the outcome. The list of reopened meetings grows when a form that was
  loaded while its meeting could be started is saved when the meeting can no longer be started: the save
  writes every column of the object, so it puts the row back to the old status.
\<close>

type_synonym admin_form = "meeting \<times> recovery_values"

record system =
  s_db :: db
  s_calls :: "job list"
  s_done :: "(job \<times> (exn + provider_meeting_result \<times> provider_auth_result)) list"
  s_forms :: "admin_form list"
  s_checked :: "admin_form list"
  s_history :: "(uuid \<times> http_outcome) list"
  s_reopened :: "uuid list"

definition system_on :: "db \<Rightarrow> system" where
  "system_on d = \<lparr>s_db = d, s_calls = [], s_done = [], s_forms = [], s_checked = [], s_history = [], s_reopened = []\<rparr>"

definition job_id :: "job \<Rightarrow> uuid" where
  "job_id j = m_id (j_meeting j)"

definition in_flight :: "system \<Rightarrow> job list" where
  "in_flight s = s_calls s @ map fst (s_done s)"

definition open_status :: "status \<Rightarrow> bool" where
  "open_status s \<longleftrightarrow> s = DRAFT \<or> s = RETRYABLE_FAILED"

definition open_meeting :: "uuid \<Rightarrow> db \<Rightarrow> bool" where
  "open_meeting k d \<longleftrightarrow> (case get_meeting k d of None \<Rightarrow> False | Some m \<Rightarrow> open_status (m_status m))"

definition stale_reopen :: "meeting \<Rightarrow> db \<Rightarrow> bool" where
  "stale_reopen obj d \<longleftrightarrow> open_status (m_status obj) \<and> \<not> open_meeting (m_id obj) d"

definition same_settings :: "env \<Rightarrow> env \<Rightarrow> bool" where
  "same_settings F E \<longleftrightarrow> e_settings F = e_settings E"

inductive step :: "env \<Rightarrow> system \<Rightarrow> system \<Rightarrow> bool" for E where
  registered: "same_settings F E \<Longrightarrow> c \<in> set (db_clients (s_db s)) \<Longrightarrow>
     register F now pk c v (s_db s) = (res, d) \<Longrightarrow> step E s (s\<lparr>s_db := d\<rparr>)"
| started: "same_settings F E \<Longrightarrow> provision_begin F now pk v (s_db s) = Inr (Started j, d) \<Longrightarrow>
     step E s (s\<lparr>s_db := d, s_calls := s_calls s @ [j]\<rparr>)"
| replayed: "same_settings F E \<Longrightarrow> provision_begin F now pk v (s_db s) = Inr (Replayed m, d) \<Longrightarrow>
     step E s (s\<lparr>s_db := d\<rparr>)"
| authenticated: "outside_only w w' \<Longrightarrow> w_db w = s_db s \<Longrightarrow> step E s (s\<lparr>s_db := w_db w'\<rparr>)"
| called: "same_settings F E \<Longrightarrow> s_calls s = xs @ j # ys \<Longrightarrow> foreign_raises w \<Longrightarrow>
     provider_create F j w = (outcome, w') \<Longrightarrow>
     step E s (s\<lparr>s_calls := xs @ ys, s_done := s_done s @ [(j, outcome)],
       s_history := s_history s @ map (Pair (job_id j)) (attempts F w w')\<rparr>)"
| died_calling: "same_settings F E \<Longrightarrow> s_calls s = xs @ j # ys \<Longrightarrow> foreign_raises w \<Longrightarrow>
     provider_create F j w = (outcome, w') \<Longrightarrow>
     step E s (s\<lparr>s_calls := xs @ ys,
       s_history := s_history s @ map (Pair (job_id j)) (take n (attempts F w w'))\<rparr>)"
| recorded: "same_settings F E \<Longrightarrow> s_done s = xs @ (j, outcome) # ys \<Longrightarrow> w_db w = s_db s \<Longrightarrow>
     provision_finish F j outcome w = (res, w') \<Longrightarrow>
     step E s (s\<lparr>s_db := w_db w', s_done := xs @ ys\<rparr>)"
| died_recording: "s_done s = xs @ (j, outcome) # ys \<Longrightarrow> step E s (s\<lparr>s_done := xs @ ys\<rparr>)"
| cancelled: "same_settings F E \<Longrightarrow> cancel F now pk (s_db s) = Inr (m, d) \<Longrightarrow> step E s (s\<lparr>s_db := d\<rparr>)"
| swept: "same_settings F E \<Longrightarrow> flag_stale_provisioning F now locked (s_db s) = Inr d \<Longrightarrow>
     step E s (s\<lparr>s_db := d\<rparr>)"
| form_loaded: "get_meeting pk (s_db s) = Some obj \<Longrightarrow> step E s (s\<lparr>s_forms := s_forms s @ [(obj, v)]\<rparr>)"
| form_checked: "same_settings F E \<Longrightarrow> s_forms s = xs @ (obj, v) # ys \<Longrightarrow>
     recovery_clean F (m_id obj) (form_values obj v) (s_db s) = Inr () \<Longrightarrow>
     step E s (s\<lparr>s_forms := xs @ ys, s_checked := s_checked s @ [(obj, v)]\<rparr>)"
| form_saved: "same_settings F E \<Longrightarrow> s_checked s = xs @ (obj, v) # ys \<Longrightarrow>
     save_meeting_admin F now user (form_instance obj v) (rv_url (form_values obj v)) (s_db s) = Inr d \<Longrightarrow>
     step E s (s\<lparr>s_db := d, s_checked := xs @ ys,
       s_reopened := s_reopened s @ (if stale_reopen obj (s_db s) then [m_id obj] else [])\<rparr>)"
| confirmed: "same_settings F E \<Longrightarrow> confirm_ended_action F now user selected (s_db s) = Inr (u, d) \<Longrightarrow>
     step E s (s\<lparr>s_db := d\<rparr>)"
| elsewhere: "db_wf d \<Longrightarrow> db_meetings d = db_meetings (s_db s) \<Longrightarrow> db_audit d = db_audit (s_db s) @ records \<Longrightarrow>
     \<forall>k. get_room k (s_db s) \<noteq> None \<longrightarrow> get_room k d \<noteq> None \<Longrightarrow> step E s (s\<lparr>s_db := d\<rparr>)"

inductive reachable :: "env \<Rightarrow> system \<Rightarrow> bool" for E where
  start: "db_wf d \<Longrightarrow> reachable E (system_on d)"
| step: "reachable E s \<Longrightarrow> step E s s' \<Longrightarrow> reachable E s'"

subsection \<open>What every step keeps of the database\<close>

text \<open>
  The frame of a run: constraints kept, no meeting deleted or given another identity, the audit
  trail only extended.
\<close>

definition run_frame :: "db \<Rightarrow> db \<Rightarrow> bool" where
  "run_frame d d' \<longleftrightarrow> db_wf d' \<and> (\<exists>records. db_audit d' = db_audit d @ records) \<and>
     (\<forall>k m. get_meeting k d = Some m \<longrightarrow> (\<exists>m'. get_meeting k d' = Some m' \<and> identity m' = identity m))"

lemma run_frame_trans: "run_frame d d1 \<Longrightarrow> run_frame d1 d2 \<Longrightarrow> run_frame d d2"
  unfolding run_frame_def by (metis append_assoc)

lemma tx_frame: "tx_effect K d d' \<Longrightarrow> run_frame d d'"
  by (simp add: tx_effect_def run_frame_def)

text \<open>A change after which no meeting may be created that could not be created before.\<close>

definition no_reopen :: "db \<Rightarrow> db \<Rightarrow> bool" where
  "no_reopen d d' \<longleftrightarrow> (\<forall>k m'. get_meeting k d' = Some m' \<and> open_status (m_status m') \<longrightarrow>
     (\<exists>m. get_meeting k d = Some m \<and> open_status (m_status m)))"

lemma tx_no_reopen:
  assumes "tx_effect K d d'"
    and "\<And>k m'. k \<in> K \<Longrightarrow> get_meeting k d' = Some m' \<Longrightarrow> open_status (m_status m') \<Longrightarrow>
      \<exists>m. get_meeting k d = Some m \<and> open_status (m_status m)"
  shows "no_reopen d d'"
  unfolding no_reopen_def using assms unfolding tx_effect_def by metis

lemma outside_frame:
  assumes o: "outside_only w w'" and wf: "db_wf (w_db w)"
  shows "run_frame (w_db w) (w_db w') \<and> no_reopen (w_db w) (w_db w')"
proof -
  have "db_audit (w_db w') = db_audit (w_db w)" using o by (simp add: outside_only_def)
  then show ?thesis
    using outside_only_wf[OF o] outside_only_get[OF o] wf by (simp add: run_frame_def no_reopen_def)
qed

lemma elsewhere_frame:
  assumes "db_wf d'" and ms: "db_meetings d' = db_meetings d" and "db_audit d' = db_audit d @ records"
  shows "run_frame d d' \<and> no_reopen d d'"
proof -
  have "get_meeting k d' = get_meeting k d" for k by (rule fetch_cong) (rule ms)
  then show ?thesis using assms by (simp add: run_frame_def no_reopen_def)
qed

lemma register_frame:
  assumes wf: "db_wf d" and c: "c \<in> set (db_clients d)" and r: "register F now pk c v d = (res, d')"
  shows "run_frame d d' \<and> (no_reopen d d' \<or>
    get_meeting pk d = None \<and> get_meeting pk d' \<noteq> None \<and> (\<forall>k. k \<noteq> pk \<longrightarrow> get_meeting k d' = get_meeting k d))"
  using wf[unfolded db_wf_def, THEN conjunct1] r
proof (cases rule: register_cases)
  case (fresh m d1)
  note ins = insert_meetingD[OF fresh(2)]
  have id: "m_id m = pk" by (simp add: ins(1) new_meeting_def)
  have get: "get_meeting k d' = (if k = pk \<and> get_meeting k d = None then Some m else get_meeting k d)" for k
    using ins(4) by (auto simp: fresh(4) ins(2) fetch_def row_get_append id new_meeting_def split: option.split)
  have "get_client (m_integration_client m) d \<noteq> None"
    using wf c client_tbl.fetch_distinct[of d c]
    by (simp add: ins(1) new_meeting_def db_wf_def clients_wf_def)
  then have "refs_wf d1" using wf by (auto simp: refs_wf_def ins(2) db_wf_def fetch_def ins(1) new_meeting_def)
  moreover have "meetings_wf d1" using insert_meeting_wf[OF _ fresh(2)] wf by (simp add: db_wf_def)
  moreover have "rooms_wf d1" "clients_wf d1" using wf by (simp_all add: db_wf_def rooms_wf_def clients_wf_def ins(2))
  ultimately have "db_wf d'" by (simp add: fresh(4) db_wf_def[of d1])
  moreover have "get_meeting pk d = None" using ins(4) by (simp add: new_meeting_def)
  ultimately show ?thesis
    using get by (auto simp: run_frame_def fresh(4) audit_meeting_def audit_def audit_record_def ins(2))
next
  case (mismatch m)
  then have "tx_effect {} d d'" using tx_effect_audit(2)[OF tx_effect_refl[OF wf]] by simp
  then show ?thesis using tx_frame tx_no_reopen[of "{}"] by blast
qed (use wf tx_effect_refl[OF wf, of "{}"] tx_frame tx_no_reopen[of "{}"] in blast)+

lemma begin_frame:
  assumes wf: "db_wf d" and b: "provision_begin F now pk v d = Inr (b', d')"
  shows "run_frame d d' \<and> no_reopen d d' \<and> (\<forall>j. b' = Started j \<longrightarrow> job_id j = pk \<and>
    (\<exists>m. get_meeting pk d = Some m \<and> open_status (m_status m)) \<and>
    (\<exists>m. get_meeting pk d' = Some m \<and> \<not> open_status (m_status m)))"
  using b
proof (cases rule: provision_begin_cases)
  case (replay m)
  then have "tx_effect {} d d'" using tx_effect_audit(2)[OF tx_effect_refl[OF wf]] by simp
  then show ?thesis using tx_frame tx_no_reopen[of "{}"] replay(3) by blast
next
  case (begun locked)
  from begin_creation_effect[OF wf begun] obtain j where
    j: "b' = Started j" "tx_effect {pk} d d'" "get_meeting pk d' = Some (j_meeting j)" "m_id (j_meeting j) = pk"
      "m_status (j_meeting j) = PROVISIONING" by blast
  have "no_reopen d d'" using j(2,3,5) by (intro tx_no_reopen[OF j(2)]) (simp add: open_status_def)
  then show ?thesis using tx_frame[OF j(2)] j begun(1,2) by (auto simp: job_id_def open_status_def)
qed

lemma frame_refl: "db_wf d \<Longrightarrow> run_frame d d \<and> no_reopen d d"
  by (auto simp: run_frame_def no_reopen_def)

text \<open>What the recording of an outcome does to the database: nothing, or one of the two transactions.\<close>

lemma provision_finishD:
  assumes f: "provision_finish F j outcome w = (res, w')"
  obtains (unchanged) "w_db w' = w_db w"
  | (success) r tok m where "outcome = Inr (r, tok)"
      "record_success F (w_now w) (job_id j) (j_retrying j) r (w_db w) = Inr (m, w_db w')"
  | (failure) e now m where "outcome = Inl (ProviderExn e)"
      "record_failure F now (job_id j) (j_retrying j) e (w_db w) = Inr (m, w_db w')"
proof (cases outcome)
  case (Inr rt)
  obtain r tok where rt: "rt = (r, tok)" by (cases rt)
  show ?thesis
    using f Inr rt unchanged success
    by (cases "record_success F (w_now w) (job_id j) (j_retrying j) r (w_db w)")
      (auto simp: provision_finish_def run_tx_def job_id_def)
next
  case (Inl x)
  show ?thesis
  proof (cases "\<exists>e. x = ProviderExn e")
    case False
    then show ?thesis using f Inl unchanged by (cases x) (simp_all add: provision_finish_def)
  next
    case True
    then obtain e where e: "x = ProviderExn e" by blast
    obtain i w1 where i: "(if pe_status_code e = Some 401 then invalidate (j_room j) w else (Inr (), w)) = (i, w1)"
      by fastforce
    have db1: "w_db w1 = w_db w" using i by (auto simp: invalidate_def cache_delete_def split: if_splits)
    show ?thesis
    proof (cases "\<exists>u p. i = Inr u \<and> record_failure F (w_now w1) (job_id j) (j_retrying j) e (w_db w) = Inr p")
      case False
      then have "w_db w' = w_db w"
        using f Inl e i db1 by (cases i; cases "record_failure F (w_now w1) (job_id j) (j_retrying j) e (w_db w)")
          (auto simp: provision_finish_def run_tx_def job_id_def)
      then show ?thesis by (rule unchanged)
    next
      case True
      then obtain u m d1 where r: "i = Inr u" "record_failure F (w_now w1) (job_id j) (j_retrying j) e (w_db w) = Inr (m, d1)"
        by auto
      have "w_db w' = d1" using f Inl e i db1 r by (auto simp: provision_finish_def run_tx_def job_id_def)
      then show ?thesis using failure r(2) Inl e by simp
    qed
  qed
qed

lemma record_failure_frame:
  assumes wf: "db_wf d" and r: "record_failure F now k retrying e d = Inr (m, d1)"
  shows "run_frame d d1 \<and> (no_reopen d d1 \<or>
    unambiguous_failure (Inl (ProviderExn e) :: exn + 'a) \<and> (\<forall>k'. k' \<noteq> k \<longrightarrow> get_meeting k' d1 = get_meeting k' d))"
proof -
  have eff: "tx_effect {k} d d1" using wf r by (rule record_failure_effect)
  have get: "get_meeting k d1 = Some m" using record_failure_get[OF r] .
  show ?thesis
  proof (cases "open_status (m_status m)")
    case False
    then have "no_reopen d d1" using get by (intro tx_no_reopen[OF eff]) simp
    then show ?thesis using tx_frame[OF eff] by simp
  next
    case True
    then have "unambiguous_failure (Inl (ProviderExn e) :: exn + 'a)"
      using record_failure_row[OF r]
      by (auto simp: open_status_def unambiguous_failure_def failed_status_def split: if_splits)
    then show ?thesis using tx_frame[OF eff] eff by (auto simp: tx_effect_def)
  qed
qed

lemma finish_frame:
  assumes wf: "db_wf (w_db w)" and f: "provision_finish F j outcome w = (res, w')"
  shows "run_frame (w_db w) (w_db w') \<and> (no_reopen (w_db w) (w_db w') \<or>
    unambiguous_failure outcome \<and> (\<forall>k. k \<noteq> job_id j \<longrightarrow> get_meeting k (w_db w') = get_meeting k (w_db w)))"
  using f
proof (cases rule: provision_finishD)
  case unchanged
  then show ?thesis using frame_refl[OF wf] by simp
next
  case (success r tok m)
  have eff: "tx_effect {job_id j} (w_db w) (w_db w')" using wf success(2) by (rule record_success_effect)
  have "\<not> open_status (m_status m')" if "get_meeting (job_id j) (w_db w') = Some m'" for m'
    using record_success_status[OF success(2)] that by (simp add: open_status_def)
  then have "no_reopen (w_db w) (w_db w')" by (intro tx_no_reopen[OF eff]) blast
  then show ?thesis using tx_frame[OF eff] by simp
next
  case (failure e now m)
  then show ?thesis using record_failure_frame[OF wf failure(2)] by simp
qed

lemma finish_rooms:
  assumes wf: "db_wf (w_db w)" and f: "provision_finish F j outcome w = (res, w')"
  shows "db_rooms (w_db w') = db_rooms (w_db w)"
  using f
proof (cases rule: provision_finishD)
  case (success r tok m)
  show ?thesis using record_success_effect[OF wf success(2)] by (simp add: tx_effect_def)
next
  case (failure e now m)
  show ?thesis using record_failure_effect[OF wf failure(2)] by (simp add: tx_effect_def)
qed simp

lemma no_reopenD: "no_reopen d d' \<Longrightarrow> open_meeting k d' \<Longrightarrow> open_meeting k d"
  unfolding no_reopen_def open_meeting_def by (fastforce split: option.splits)

subsection \<open>The invariant\<close>

definition outcomes_of :: "uuid \<Rightarrow> system \<Rightarrow> http_outcome list" where
  "outcomes_of k s = map snd (filter (\<lambda>p. fst p = k) (s_history s))"

definition jobs_of :: "uuid \<Rightarrow> system \<Rightarrow> job list" where
  "jobs_of k s = filter (\<lambda>j. job_id j = k) (in_flight s)"

definition all_rejected :: "uuid \<Rightarrow> system \<Rightarrow> bool" where
  "all_rejected k s \<longleftrightarrow> (\<forall>out \<in> set (outcomes_of k s). definite_rejection out)"

definition earlier_rejected :: "uuid \<Rightarrow> system \<Rightarrow> bool" where
  "earlier_rejected k s \<longleftrightarrow> (\<forall>out \<in> set (butlast (outcomes_of k s)). definite_rejection out)"

text \<open>A form's object may be old, but it is an object of its row, and its room still exists.\<close>

definition form_fits :: "db \<Rightarrow> meeting \<Rightarrow> bool" where
  "form_fits d obj \<longleftrightarrow> (\<exists>m. get_meeting (m_id obj) d = Some m \<and> identity obj = identity m) \<and>
     (\<forall>r. m_room obj = Some r \<longrightarrow> get_room r d \<noteq> None)"

text \<open>What holds of every state.\<close>

definition system_wf :: "system \<Rightarrow> bool" where
  "system_wf s \<longleftrightarrow> db_wf (s_db s) \<and>
     (\<forall>p \<in> set (s_history s). get_meeting (fst p) (s_db s) \<noteq> None) \<and>
     (\<forall>j \<in> set (in_flight s). get_meeting (job_id j) (s_db s) \<noteq> None) \<and>
     (\<forall>p \<in> set (s_forms s @ s_checked s). form_fits (s_db s) (fst p))"

text \<open>What holds of a meeting that no stale form has reopened.\<close>

definition meeting_inv :: "uuid \<Rightarrow> system \<Rightarrow> bool" where
  "meeting_inv k s \<longleftrightarrow>
     length (jobs_of k s) \<le> 1 \<and> (jobs_of k s \<noteq> [] \<longrightarrow> \<not> open_meeting k (s_db s)) \<and>
     (open_meeting k (s_db s) \<longrightarrow> all_rejected k s) \<and>
     (\<forall>j \<in> set (s_calls s). job_id j = k \<longrightarrow> all_rejected k s) \<and>
     (\<forall>(j, outcome) \<in> set (s_done s). job_id j = k \<and> unambiguous_failure outcome \<longrightarrow> all_rejected k s) \<and>
     earlier_rejected k s"

definition workflow_inv :: "system \<Rightarrow> bool" where
  "workflow_inv s \<longleftrightarrow> system_wf s \<and> (\<forall>k. k \<notin> set (s_reopened s) \<longrightarrow> meeting_inv k s)"

text \<open>The reopened meetings and the forms do not enter the invariant of a meeting.\<close>

lemma meeting_inv_cong:
  assumes "s_calls t = s_calls s" and "s_done t = s_done s" and "s_history t = s_history s"
    and "open_meeting k (s_db t) \<longrightarrow> open_meeting k (s_db s)" and "meeting_inv k s"
  shows "meeting_inv k t"
  using assms by (auto simp: meeting_inv_def jobs_of_def in_flight_def all_rejected_def earlier_rejected_def outcomes_of_def)

text \<open>A meeting that did not exist has no job and no history.\<close>

lemma meeting_inv_fresh:
  assumes wf: "system_wf s" and new: "get_meeting k (s_db s) = None"
    and t: "s_calls t = s_calls s" "s_done t = s_done s" "s_history t = s_history s"
  shows "meeting_inv k t"
proof -
  have "job_id j \<noteq> k" if "j \<in> set (in_flight s)" for j using wf new that by (auto simp: system_wf_def)
  then have "jobs_of k s = []" by (simp add: jobs_of_def filter_empty_conv)
  moreover have "fst p \<noteq> k" if "p \<in> set (s_history s)" for p using wf new that by (auto simp: system_wf_def)
  then have "outcomes_of k s = []" by (simp add: outcomes_of_def filter_empty_conv)
  ultimately show ?thesis
    using t by (simp add: meeting_inv_def jobs_of_def in_flight_def all_rejected_def earlier_rejected_def outcomes_of_def)
qed

lemma meeting_inv_started:
  assumes inv: "meeting_inv k s" and t: "s_calls t = s_calls s @ [j]" "s_done t = s_done s" "s_history t = s_history s"
    and n: "open_meeting k (s_db t) \<longrightarrow> open_meeting k (s_db s)"
    and was: "open_meeting (job_id j) (s_db s)" and closed: "\<not> open_meeting (job_id j) (s_db t)"
  shows "meeting_inv k t"
proof (cases "k = job_id j")
  case True
  have "jobs_of k s = []" "all_rejected k s" using inv was by (auto simp: meeting_inv_def True)
  then show ?thesis
    using inv closed t by (auto simp: meeting_inv_def jobs_of_def in_flight_def True all_rejected_def earlier_rejected_def
        outcomes_of_def filter_empty_conv)
next
  case False
  then show ?thesis
    using inv n t by (auto simp: meeting_inv_def jobs_of_def in_flight_def all_rejected_def earlier_rejected_def outcomes_of_def)
qed

lemma one_job:
  assumes "length (jobs_of k s) \<le> 1" and "in_flight s = as @ j # bs" and "job_id j = k"
  shows "\<forall>i \<in> set (as @ bs). job_id i \<noteq> k"
proof -
  have "filter (\<lambda>j. job_id j = k) as = [] \<and> filter (\<lambda>j. job_id j = k) bs = []"
    using assms by (simp add: jobs_of_def)
  then show ?thesis by (auto simp: filter_empty_conv)
qed

lemma outcomes_of_append:
  "s_history t = s_history s @ map (Pair i) outs \<Longrightarrow> outcomes_of k t = outcomes_of k s @ (if k = i then outs else [])"
  by (simp add: outcomes_of_def filter_map comp_def)

text \<open>A provider call of \<open>j\<close> that got as far as the outcomes \<open>outs\<close>, and returned \<open>zs\<close> or died.\<close>

lemma meeting_inv_call:
  assumes inv: "meeting_inv k s" and j: "s_calls s = xs @ j # ys"
    and outs: "\<forall>out \<in> set (butlast outs). definite_rejection out"
    and zs: "zs = [] \<or> (\<exists>outcome. zs = [(j, outcome)] \<and>
      (unambiguous_failure outcome \<longrightarrow> (\<forall>out \<in> set outs. definite_rejection out)))"
    and t: "s_db t = s_db s" "s_calls t = xs @ ys" "s_done t = s_done s @ zs"
      "s_history t = s_history s @ map (Pair (job_id j)) outs"
  shows "meeting_inv k t"
proof (cases "k = job_id j")
  case False
  then have "outcomes_of k t = outcomes_of k s" "jobs_of k t = jobs_of k s"
    using outcomes_of_append[OF t(4)] zs by (auto simp: jobs_of_def in_flight_def j t)
  then show ?thesis
    using inv False zs j t by (auto simp: meeting_inv_def all_rejected_def earlier_rejected_def)
next
  case True
  have flight: "in_flight s = xs @ j # (ys @ map fst (s_done s))" by (simp add: in_flight_def j)
  have others: "\<forall>i \<in> set (xs @ ys @ map fst (s_done s)). job_id i \<noteq> k"
    using one_job[OF _ flight True[symmetric]] inv by (simp add: meeting_inv_def)
  then have done_others: "job_id (fst p) \<noteq> k" if "p \<in> set (s_done s)" for p using that by auto
  have "jobs_of k s \<noteq> []" using True by (simp add: jobs_of_def flight)
  then have closed: "\<not> open_meeting k (s_db s)" and rej: "all_rejected k s"
    using inv j True by (auto simp: meeting_inv_def)
  have "jobs_of k t = filter (\<lambda>j. job_id j = k) (map fst zs)"
    using others by (auto simp: jobs_of_def in_flight_def t filter_empty_conv)
  then have 1: "length (jobs_of k t) \<le> 1" using zs by auto
  have out: "outcomes_of k t = outcomes_of k s @ outs" using outcomes_of_append[OF t(4)] True by simp
  have 2: "\<not> open_meeting k (s_db t)" using closed t by simp
  have 3: "\<forall>i \<in> set (s_calls t). job_id i = k \<longrightarrow> all_rejected k t" using others t by auto
  have 4: "unambiguous_failure o' \<longrightarrow> all_rejected k t" if "(i, o') \<in> set (s_done t)" "job_id i = k" for i o'
  proof -
    have "(i, o') \<in> set zs" using that t(3) done_others[of "(i, o')"] by auto
    then show ?thesis using zs rej out by (auto simp: all_rejected_def)
  qed
  have 5: "earlier_rejected k t"
    using rej outs inv by (cases "outs = []") (auto simp: earlier_rejected_def out butlast_append all_rejected_def meeting_inv_def)
  show ?thesis
    unfolding meeting_inv_def using 1 2 3 4 5 by blast
qed

lemma meeting_inv_recorded:
  assumes inv: "meeting_inv k s" and j: "s_done s = xs @ (j, outcome) # ys"
    and n: "no_reopen (s_db s) (s_db t) \<or> unambiguous_failure outcome \<and>
      (\<forall>k. k \<noteq> job_id j \<longrightarrow> get_meeting k (s_db t) = get_meeting k (s_db s))"
    and t: "s_calls t = s_calls s" "s_done t = xs @ ys" "s_history t = s_history s"
  shows "meeting_inv k t"
proof (cases "k = job_id j")
  case False
  then have "open_meeting k (s_db t) \<longrightarrow> open_meeting k (s_db s)"
    using n no_reopenD by (auto simp: open_meeting_def)
  then show ?thesis
    using inv False t j by (auto simp: meeting_inv_def jobs_of_def in_flight_def all_rejected_def earlier_rejected_def
        outcomes_of_def)
next
  case True
  have flight: "in_flight s = (s_calls s @ map fst xs) @ j # map fst ys" by (simp add: in_flight_def j)
  have others: "\<forall>i \<in> set (s_calls s @ map fst (xs @ ys)). job_id i \<noteq> k"
    using one_job[OF _ flight True[symmetric]] inv by (simp add: meeting_inv_def)
  have none: "jobs_of k t = []" using others by (auto simp: jobs_of_def in_flight_def t filter_empty_conv)
  have rej: "all_rejected k s" if "open_meeting k (s_db t)"
  proof (cases "no_reopen (s_db s) (s_db t)")
    case True
    then show ?thesis using no_reopenD[OF True that] inv by (simp add: meeting_inv_def)
  next
    case False
    then have "unambiguous_failure outcome" using n by blast
    then show ?thesis using inv j True by (auto simp: meeting_inv_def)
  qed
  have "job_id (fst p) \<noteq> k" if "p \<in> set (xs @ ys)" for p using others that by auto
  then have "\<forall>(i, o') \<in> set (s_done t). job_id i = k \<and> unambiguous_failure o' \<longrightarrow> all_rejected k t"
    by (fastforce simp: t)
  then show ?thesis
    using inv none rej others t by (auto simp: meeting_inv_def all_rejected_def earlier_rejected_def outcomes_of_def)
qed

lemma same_attempts: "same_settings F E \<Longrightarrow> attempts F w w' = attempts E w w'"
  by (simp add: same_settings_def attempts_def)

lemma butlast_two:
  "sends_at_most_two outs \<Longrightarrow> \<forall>out \<in> set (butlast (take n outs)). definite_rejection out"
proof -
  assume a: "sends_at_most_two outs"
  then consider "outs = []" | x where "outs = [x]" | t y where "outs = [Response 401 t, y]"
    by (cases outs; cases "tl outs") (auto simp: sends_at_most_two_def)
  then show ?thesis
    by cases (auto simp: rejected_401 take_Cons' split: if_splits)
qed

subsection \<open>One step\<close>

lemma forget_ids: "map r_id (map forget_auth rs) = map r_id rs"
  by (simp add: comp_def forget_auth_def)

lemma outside_rooms:
  assumes "outside_only w w'"
  shows "get_room k (w_db w') = None \<longleftrightarrow> get_room k (w_db w) = None"
proof -
  have "map r_id (db_rooms (w_db w')) = map r_id (db_rooms (w_db w))"
    using assms forget_ids unfolding outside_only_def by metis
  then have "r_id ` set (db_rooms (w_db w')) = r_id ` set (db_rooms (w_db w))" by (metis list.set_map)
  then show ?thesis by (simp add: fetch_def row_get_None_iff)
qed

text \<open>Meetings and rooms stay, so a form goes on fitting its row.\<close>

lemma form_fits_kept:
  assumes "form_fits d obj" and "run_frame d d'" and "\<And>r. get_room r d \<noteq> None \<Longrightarrow> get_room r d' \<noteq> None"
  shows "form_fits d' obj"
  using assms unfolding form_fits_def run_frame_def by metis

lemma form_saved_effect:
  assumes wf: "system_wf s" and c: "(obj, v) \<in> set (s_checked s)"
    and sv: "save_meeting_admin F now user (form_instance obj v) (rv_url (form_values obj v)) (s_db s) = Inr d"
  shows "tx_effect {m_id obj} (s_db s) d"
proof -
  have "form_fits (s_db s) obj" using wf c by (force simp: system_wf_def)
  then show ?thesis using form_effect[OF _ _ _ _ sv] wf by (auto simp: form_fits_def system_wf_def)
qed

lemma tx_effect_keys:
  assumes "tx_effect K d d'"
  shows "get_meeting k d' = None \<longleftrightarrow> get_meeting k d = None"
proof -
  have "m_id ` set (db_meetings d') = m_id ` set (db_meetings d)"
    using assms unfolding tx_effect_def by (metis list.set_map)
  then show ?thesis by (simp add: fetch_def row_get_None_iff)
qed

lemma cancel_result:
  assumes wf: "db_wf d" and c: "cancel F now pk d = Inr (m', d')"
  shows "m_status m' = CANCELLED \<and> get_meeting pk d' = Some m'"
proof -
  obtain m where m: "get_meeting pk d = Some m"
    using c by (cases "get_meeting pk d") (simp_all add: cancel_def)
  show ?thesis
  proof (cases "m_status m = CANCELLED")
    case True
    then show ?thesis using c m by (simp add: cancel_def)
  next
    case False
    then have "cancellable (m_status m)" using c m by (simp add: cancel_def split: if_splits)
    from cancel_succeeds[OF wf m this, of F now] obtain d1 where
      x: "cancel F now pk d = Inr (m\<lparr>m_status := CANCELLED, m_reservation_active := False,
        m_cancelled_at := Some now, m_updated_at := now\<rparr>, d1)" (is "_ = Inr (?row, d1)")
      and g: "get_meeting pk d1 = Some (m\<lparr>m_status := CANCELLED, m_reservation_active := False,
        m_cancelled_at := Some now, m_updated_at := now\<rparr>)"
      by blast
    have "m' = ?row \<and> d' = d1" using trans[OF x[symmetric] c] by simp
    then show ?thesis using g by simp
  qed
qed

lemma step_frame:
  assumes "step E s s'" and wf: "system_wf s"
  shows "run_frame (s_db s) (s_db s')"
proof -
  have d: "db_wf (s_db s)" using wf by (simp add: system_wf_def)
  from assms(1) show ?thesis
  proof cases
    case (registered F c now pk v res d')
    then show ?thesis using register_frame[OF d registered(3,4)] by simp
  next
    case (started F now pk v j d')
    then show ?thesis using begin_frame[OF d started(3)] by simp
  next
    case (replayed F now pk v m d')
    then show ?thesis using begin_frame[OF d replayed(3)] by simp
  next
    case (authenticated w w')
    then show ?thesis using outside_frame[OF authenticated(2)] d by simp
  next
    case (recorded F xs j outcome ys w res w')
    then show ?thesis using finish_frame[of w F j outcome res w'] d by simp
  next
    case (cancelled F now pk m d')
    then show ?thesis using tx_frame[OF cancel_effect[OF d cancelled(3)]] by simp
  next
    case (swept F now locked d')
    then show ?thesis using sweep_effect[OF d, of F now locked] tx_frame by fastforce
  next
    case (form_saved F xs obj v ys now user d')
    have "tx_effect {m_id obj} (s_db s) d'" by (rule form_saved_effect[OF wf _ form_saved(4)]) (simp add: form_saved(3))
    then show ?thesis using tx_frame form_saved(1) by simp
  next
    case (confirmed F now user selected u d')
    then show ?thesis using tx_frame[OF confirm_tx.effect[OF d confirmed(3)]] by simp
  next
    case (elsewhere d' records)
    then show ?thesis using elsewhere_frame[OF elsewhere(2-4)] by simp
  qed (use d in \<open>simp_all add: run_frame_def\<close>)
qed

lemma register_rooms: "db_wf d \<Longrightarrow> register F now pk c v d = (res, d') \<Longrightarrow> db_rooms d' = db_rooms d"
proof (unfold db_wf_def, elim conjE)
  assume "meetings_wf d" and r: "register F now pk c v d = (res, d')"
  then show ?thesis
  proof (cases rule: register_cases)
    case (fresh m d1)
    then show ?thesis using insert_meetingD(2)[OF fresh(2)] by simp
  qed simp_all
qed

lemma step_rooms:
  assumes "step E s s'" and wf: "system_wf s" and k: "get_room k (s_db s) \<noteq> None"
  shows "get_room k (s_db s') \<noteq> None"
proof -
  have d: "db_wf (s_db s)" using wf by (simp add: system_wf_def)
  have same: "get_room k d' \<noteq> None" if "db_rooms d' = db_rooms (s_db s)" for d'
  proof -
    have "get_room k d' = get_room k (s_db s)" by (rule fetch_cong) (rule that)
    then show ?thesis using k by simp
  qed
  have tx: "get_room k d' \<noteq> None" if "tx_effect K (s_db s) d'" for K d'
    by (rule same) (use that in \<open>simp add: tx_effect_def\<close>)
  from assms(1) show ?thesis
  proof cases
    case (registered F c now pk v res d')
    then show ?thesis using same register_rooms[OF d registered(4)] by simp
  next
    case (started F now pk v j d')
    then show ?thesis using tx[OF begin_tx.effect[OF d started(3)]] by simp
  next
    case (replayed F now pk v m d')
    then show ?thesis using tx[OF begin_tx.effect[OF d replayed(3)]] by simp
  next
    case (authenticated w w')
    then show ?thesis using outside_rooms[OF authenticated(2), of k] k by simp
  next
    case (recorded F xs j outcome ys w res w')
    then show ?thesis using same finish_rooms[of w F j outcome res w'] d by simp
  next
    case (cancelled F now pk m d')
    then show ?thesis using tx[OF cancel_effect[OF d cancelled(3)]] by simp
  next
    case (swept F now locked d')
    then show ?thesis using sweep_effect[OF d, of F now locked] tx by fastforce
  next
    case (form_saved F xs obj v ys now user d')
    have "tx_effect {m_id obj} (s_db s) d'" by (rule form_saved_effect[OF wf _ form_saved(4)]) (simp add: form_saved(3))
    then show ?thesis using tx form_saved(1) by simp
  next
    case (confirmed F now user selected u d')
    then show ?thesis using tx[OF confirm_tx.effect[OF d confirmed(3)]] by simp
  next
    case (elsewhere d' records)
    then show ?thesis using k by simp
  qed (use k in simp_all)
qed

lemma loaded_form_fits: "db_wf d \<Longrightarrow> get_meeting pk d = Some obj \<Longrightarrow> form_fits d obj"
  using get_key[of pk d obj] meeting_tbl.fetch_mem[of pk d obj]
  by (auto simp: form_fits_def db_wf_def refs_wf_def)

lemma step_system_wf:
  assumes st: "step E s s'" and wf: "system_wf s"
  shows "system_wf s'"
proof -
  have f: "run_frame (s_db s) (s_db s')" using st wf by (rule step_frame)
  have rows: "get_meeting k (s_db s') \<noteq> None" if "get_meeting k (s_db s) \<noteq> None" for k
    using f that unfolding run_frame_def by (metis not_None_eq)
  have fits: "form_fits (s_db s') obj" if "form_fits (s_db s) obj" for obj
    using that f step_rooms[OF st wf] by (rule form_fits_kept)
  have d: "db_wf (s_db s)" using wf by (simp add: system_wf_def)
  have "db_wf (s_db s')" using f by (simp add: run_frame_def)
  moreover have "\<forall>p \<in> set (s_history s'). get_meeting (fst p) (s_db s) \<noteq> None \<or> get_meeting (fst p) (s_db s') \<noteq> None"
    using st
  proof cases
    case (called F xs j ys w outcome w')
    have "j \<in> set (in_flight s)" by (simp add: in_flight_def called(3))
    then show ?thesis using wf called(1) by (auto simp: system_wf_def)
  next
    case (died_calling F xs j ys w outcome w' n)
    have "j \<in> set (in_flight s)" by (simp add: in_flight_def died_calling(3))
    then show ?thesis using wf died_calling(1) by (auto simp: system_wf_def)
  qed (use wf in \<open>auto simp: system_wf_def\<close>)
  moreover have "\<forall>j \<in> set (in_flight s'). get_meeting (job_id j) (s_db s) \<noteq> None \<or> get_meeting (job_id j) (s_db s') \<noteq> None"
    using st
  proof cases
    case (started F now pk v j d')
    have "get_meeting (job_id j) (s_db s') \<noteq> None" using begin_frame[OF d started(3)] started(1) by auto
    then show ?thesis using wf started(1) by (auto simp: system_wf_def in_flight_def)
  qed (use wf in \<open>auto simp: system_wf_def in_flight_def\<close>)
  moreover have "\<forall>p \<in> set (s_forms s' @ s_checked s'). form_fits (s_db s) (fst p) \<or> form_fits (s_db s') (fst p)"
    using st
  proof cases
    case (form_loaded pk obj v)
    then show ?thesis using wf loaded_form_fits[OF d form_loaded(2)] by (auto simp: system_wf_def)
  qed (use wf in \<open>auto simp: system_wf_def\<close>)
  ultimately show ?thesis using rows fits unfolding system_wf_def by blast
qed

text \<open>A transaction on the rows of \<open>K\<close> that opens none of them.\<close>

lemma tx_closed:
  assumes "tx_effect K d d'"
    and "\<And>m'. k \<in> K \<Longrightarrow> get_meeting k d' = Some m' \<Longrightarrow> open_status (m_status m') \<Longrightarrow> open_meeting k d"
  shows "open_meeting k d' \<longrightarrow> open_meeting k d"
proof (cases "k \<in> K")
  case True
  then show ?thesis using assms(2) by (auto simp: open_meeting_def split: option.splits)
next
  case False
  then show ?thesis using assms(1) by (simp add: tx_effect_def open_meeting_def)
qed

lemma swept_closed:
  assumes wf: "db_wf d" and sw: "flag_stale_provisioning F now locked d = Inr d'"
  shows "open_meeting k d' \<longrightarrow> open_meeting k d"
proof -
  from sweep_effect[OF wf, of F now locked] sw have
    e: "tx_effect {k. \<exists>m. get_meeting k d = Some m \<and> is_stale now m \<and> k \<notin> set locked} d d'"
      "\<And>k m. get_meeting k d = Some m \<Longrightarrow> is_stale now m \<Longrightarrow> k \<notin> set locked \<Longrightarrow>
         get_meeting k d' = Some (flagged now m)" by auto
  have f: "\<not> open_status (m_status (flagged now m))" for m by (simp add: flagged_def open_status_def)
  show ?thesis
  proof (rule tx_closed[OF e(1)])
    fix m'
    assume "k \<in> {k. \<exists>m. get_meeting k d = Some m \<and> is_stale now m \<and> k \<notin> set locked}"
      and "get_meeting k d' = Some m'" and "open_status (m_status m')"
    then show "open_meeting k d" using e(2) f by fastforce
  qed
qed

lemma confirmed_closed:
  assumes wf: "db_wf d" and co: "confirm_ended_action F now user selected d = Inr (u, d')"
  shows "open_meeting k d' \<longrightarrow> open_meeting k d"
proof -
  from confirm_action_effect[OF wf, of F now user selected] co have
    e: "tx_effect (set selected) d d'"
      "\<And>k m. get_meeting k d = Some m \<Longrightarrow> k \<in> set selected \<Longrightarrow>
         get_meeting k d' = Some (if provider_held (m_status m) then ended now m else m)" by auto
  show ?thesis
  proof (rule tx_closed[OF e(1)])
    fix m'
    assume k: "k \<in> set selected" "get_meeting k d' = Some m'" "open_status (m_status m')"
    have "get_meeting k d \<noteq> None" using tx_effect_keys[OF e(1), of k] k(2) by auto
    then obtain m where m: "get_meeting k d = Some m" by blast
    then show "open_meeting k d" using e(2)[OF m k(1)] k(2,3)
      by (auto simp: ended_def open_status_def open_meeting_def split: if_splits)
  qed
qed

lemma cancelled_closed:
  assumes wf: "db_wf d" and c: "cancel F now pk d = Inr (m, d')"
  shows "open_meeting k d' \<longrightarrow> open_meeting k d"
proof (rule tx_closed[OF cancel_effect[OF wf c]])
  fix m'
  assume "k \<in> {pk}" "get_meeting k d' = Some m'" "open_status (m_status m')"
  then show "open_meeting k d" using cancel_result[OF wf c] by (simp add: open_status_def)
qed

lemma form_saved_closed:
  assumes eff: "tx_effect {m_id obj} d d'"
    and sv: "save_meeting_admin F now user (form_instance obj v) (rv_url (form_values obj v)) d = Inr d'"
    and k: "k = m_id obj \<longrightarrow> \<not> stale_reopen obj d"
  shows "open_meeting k d' \<longrightarrow> open_meeting k d"
proof (rule tx_closed[OF eff])
  fix m'
  assume m': "k \<in> {m_id obj}" "get_meeting k d' = Some m'" "open_status (m_status m')"
  then have "open_status (m_status obj)" using form_row(1)[OF sv, of m'] by (auto simp: open_status_def)
  then show "open_meeting k d" using k m'(1) by (simp add: stale_reopen_def)
qed

lemma step_meeting_inv:
  assumes st: "step E s s'" and paths: "paths_differ E" and wf: "system_wf s" and inv: "meeting_inv k s"
    and k: "k \<notin> set (s_reopened s')"
  shows "meeting_inv k s'"
proof -
  have d: "db_wf (s_db s)" using wf by (simp add: system_wf_def)
  have same: ?thesis if "s_calls s' = s_calls s" "s_done s' = s_done s" "s_history s' = s_history s"
      "open_meeting k (s_db s') \<longrightarrow> open_meeting k (s_db s)"
    using meeting_inv_cong[OF that inv] .
  from st show ?thesis
  proof cases
    case (registered F c now pk v res d')
    show ?thesis
    proof (cases "get_meeting k (s_db s) = None")
      case True
      show ?thesis by (rule meeting_inv_fresh[OF wf True]) (simp_all add: registered(1))
    next
      case False
      then have "no_reopen (s_db s) d' \<or> get_meeting k d' = get_meeting k (s_db s)"
        using register_frame[OF d registered(3,4)] by (cases "k = pk") auto
      then have "open_meeting k d' \<longrightarrow> open_meeting k (s_db s)"
        using no_reopenD[of "s_db s" d' k] by (auto simp: open_meeting_def)
      then show ?thesis using same registered(1) by simp
    qed
  next
    case (started F now pk v j d')
    note b = begin_frame[OF d started(3)]
    show ?thesis
      by (rule meeting_inv_started[OF inv, of _ j])
        (use b no_reopenD[of "s_db s" d' k] in \<open>auto simp: started(1) open_meeting_def\<close>)
  next
    case (replayed F now pk v m d')
    then show ?thesis using begin_frame[OF d replayed(3)] same no_reopenD[of "s_db s" d' k] by simp
  next
    case (authenticated w w')
    then show ?thesis using outside_frame[OF authenticated(2)] d same no_reopenD[of "s_db s" "w_db w'" k] by simp
  next
    case (called F xs j ys w outcome w')
    have "paths_differ F" using paths called(2) by (simp add: paths_differ_def same_settings_def)
    note sum = provider_create_summary[OF called(5) this called(4)]
    have "\<forall>out \<in> set (butlast (attempts F w w')). definite_rejection out"
      using butlast_two[of "attempts F w w'" "length (attempts F w w')"] sum by simp
    then show ?thesis
      by (rule meeting_inv_call[OF inv called(3), where zs = "[(j, outcome)]"]) (use sum in \<open>simp_all add: called(1)\<close>)
  next
    case (died_calling F xs j ys w outcome w' n)
    have "paths_differ F" using paths died_calling(2) by (simp add: paths_differ_def same_settings_def)
    then have "\<forall>out \<in> set (butlast (take n (attempts F w w'))). definite_rejection out"
      using butlast_two provider_create_summary[OF died_calling(5) _ died_calling(4)] by blast
    then show ?thesis
      by (rule meeting_inv_call[OF inv died_calling(3), where zs = "[]"]) (simp_all add: died_calling(1))
  next
    case (recorded F xs j outcome ys w res w')
    show ?thesis
      by (rule meeting_inv_recorded[OF inv recorded(3)])
        (use finish_frame[of w F j outcome res w'] d in \<open>simp_all add: recorded\<close>)
  next
    case (died_recording xs j outcome ys)
    show ?thesis
      by (rule meeting_inv_recorded[OF inv died_recording(2)]) (simp_all add: died_recording(1) no_reopen_def)
  next
    case (cancelled F now pk m d')
    then show ?thesis using same cancelled_closed[OF d cancelled(3)] by simp
  next
    case (swept F now locked d')
    then show ?thesis using same swept_closed[OF d swept(3)] by simp
  next
    case (form_saved F xs obj v ys now user d')
    have eff: "tx_effect {m_id obj} (s_db s) d'" by (rule form_saved_effect[OF wf _ form_saved(4)]) (simp add: form_saved(3))
    have "k = m_id obj \<longrightarrow> \<not> stale_reopen obj (s_db s)" using k by (auto simp: form_saved(1))
    then show ?thesis using same form_saved_closed[OF eff form_saved(4)] by (simp add: form_saved(1))
  next
    case (confirmed F now user selected u d')
    then show ?thesis using same confirmed_closed[OF d confirmed(3)] by simp
  next
    case (elsewhere d' records)
    then show ?thesis using elsewhere_frame[OF elsewhere(2-4)] same no_reopenD[of "s_db s" d' k] by simp
  qed (use same in simp_all)
qed

lemma step_reopened:
  assumes "step E s s'"
  shows "set (s_reopened s) \<subseteq> set (s_reopened s')"
  using assms by cases auto

lemma system_on_inv: "db_wf d \<Longrightarrow> workflow_inv (system_on d)"
  by (simp add: workflow_inv_def system_wf_def meeting_inv_def jobs_of_def system_on_def in_flight_def all_rejected_def
      earlier_rejected_def outcomes_of_def)

lemma step_inv:
  assumes st: "step E s s'" and paths: "paths_differ E" and inv: "workflow_inv s"
  shows "workflow_inv s'"
  using step_system_wf[OF st] step_meeting_inv[OF st paths] step_reopened[OF st] inv
  unfolding workflow_inv_def by blast

lemma reachable_inv:
  assumes "reachable E s" and "paths_differ E"
  shows "workflow_inv s"
  using assms(1)
proof induction
  case (start d)
  then show ?case by (rule system_on_inv)
next
  case (step s s')
  then show ?case using step_inv assms(2) by blast
qed

lemma reachable_wf: "reachable E s \<Longrightarrow> system_wf s"
  by (induction rule: reachable.induct) (use system_on_inv step_system_wf in \<open>auto simp: workflow_inv_def\<close>)

subsection \<open>Properties\<close>

text \<open>
  C1, no duplicate provider meetings: in every reachable state of any interleaving of requests,
  operators, admin forms, sweeps and process deaths, every creation request that was ever sent for a
  meeting that no stale form has reopened was definitely rejected, except perhaps the last one; so at
  most one request can have created such a meeting at the provider.
\<close>

theorem at_most_one_creation:
  assumes "reachable E s" and "paths_differ E" and "k \<notin> set (s_reopened s)"
  shows "\<forall>out \<in> set (butlast (outcomes_of k s)). definite_rejection out"
  using reachable_inv[OF assms(1,2)] assms(3) by (simp add: workflow_inv_def meeting_inv_def earlier_rejected_def)

text \<open>
  C2, one creation in flight: in every reachable state at most one process works on the creation of a
  meeting that no stale form has reopened; the meeting then exists in a status from which no other
  process can start one, and if it may be (re)started it has only definitely rejected requests behind it.
\<close>

theorem one_creation_in_flight:
  assumes "reachable E s" and "paths_differ E" and "k \<notin> set (s_reopened s)"
  shows "length (filter (\<lambda>j. m_id (j_meeting j) = k) (in_flight s)) \<le> 1 \<and>
    (\<forall>j \<in> set (in_flight s). m_id (j_meeting j) = k \<longrightarrow> (\<exists>m. get_meeting k (s_db s) = Some m \<and>
       m_status m \<noteq> DRAFT \<and> m_status m \<noteq> RETRYABLE_FAILED)) \<and>
    (\<forall>m. get_meeting k (s_db s) = Some m \<and> (m_status m = DRAFT \<or> m_status m = RETRYABLE_FAILED) \<longrightarrow>
       (\<forall>out \<in> set (outcomes_of k s). definite_rejection out))"
proof -
  have inv: "system_wf s" "meeting_inv k s" using reachable_inv[OF assms(1,2)] assms(3) by (simp_all add: workflow_inv_def)
  have "\<exists>m. get_meeting k (s_db s) = Some m \<and> m_status m \<noteq> DRAFT \<and> m_status m \<noteq> RETRYABLE_FAILED"
    if j: "j \<in> set (in_flight s)" "m_id (j_meeting j) = k" for j
  proof -
    have "j \<in> set (jobs_of k s)" using j by (simp add: jobs_of_def job_id_def)
    then have "\<not> open_meeting k (s_db s)" using inv(2) by (auto simp: meeting_inv_def)
    moreover have "get_meeting k (s_db s) \<noteq> None" using inv(1) j by (auto simp: system_wf_def job_id_def)
    ultimately show ?thesis by (auto simp: open_meeting_def open_status_def)
  qed
  then show ?thesis
    using inv(2) by (auto simp: meeting_inv_def jobs_of_def job_id_def open_meeting_def open_status_def all_rejected_def)
qed

text \<open>
  What a run never changes: from any reachable state, whatever steps follow, every meeting keeps its
  row and its identity (client, class, people, title, date), and the audit trail so far stays as a
  prefix of the later one.
\<close>

theorem runs_keep_identity_and_audit:
  assumes "(step E)\<^sup>*\<^sup>* s s'" and "reachable E s" and "get_meeting k (s_db s) = Some m"
  shows "\<exists>m' records. get_meeting k (s_db s') = Some m' \<and> identity m' = identity m \<and>
    db_audit (s_db s') = db_audit (s_db s) @ records"
proof -
  from assms(1) have "run_frame (s_db s) (s_db s') \<and> system_wf s'"
  proof induction
    case base
    then show ?case using reachable_wf[OF assms(2)] by (simp add: run_frame_def system_wf_def)
  next
    case (step s1 s2)
    then show ?case using step_frame[OF step.hyps(2)] step_system_wf[OF step.hyps(2)] run_frame_trans by blast
  qed
  then show ?thesis using assms(3) unfolding run_frame_def by blast
qed

text \<open>
  A stale admin form reopens a meeting: the change form writes every column of the object it was
  built from, so a form that was opened on a draft and saved after a creation had started puts the row
  back to \<open>DRAFT\<close> without reservation while the provider call is under way.
\<close>

theorem stale_form_reopens:
  assumes wf: "db_wf d" and m: "get_meeting pk d = Some m" "m_status m = DRAFT" "\<not> m_reservation_active m"
    and b: "provision_begin E now pk v d = Inr (Started j, d1)"
  shows "\<exists>d2. save_meeting_admin E now' user (form_instance m rv) (rv_url (form_values m rv)) d1 = Inr d2 \<and>
    get_meeting pk d2 = Some (m\<lparr>m_updated_at := now'\<rparr>)"
proof -
  from begun_job[OF wf m(1) b] have j: "get_meeting pk d1 = Some (j_meeting j)" "tx_effect {pk} d d1"
      "m_status (j_meeting j) = PROVISIONING" by metis+
  have id: "m_id m = pk" using m(1) by (rule get_key)
  have wf1: "meetings_wf d1" using j(2) by (simp add: tx_effect_def db_wf_def)
  have ok: "meeting_text_ok m" "meeting_checks m"
    using wf meeting_tbl.fetch_mem[OF m(1)] by (simp_all add: db_wf_def meetings_wf_def)
  have "identity (j_meeting j) = identity m" using j(1,2) m(1) unfolding tx_effect_def by force
  then have "same_class m (j_meeting j)" by (simp add: identity_def same_class_def)
  then have s: "save_meeting now' m d1 = Inr (m\<lparr>m_updated_at := now'\<rparr>,
      store db_meetings set_meetings m_id (m\<lparr>m_updated_at := now'\<rparr>) d1)"
    using save_meeting_succeeds[OF wf1 _ ok, of "j_meeting j" now'] j(1) id m(3) by simp
  have "form_instance m rv = m" using m(2) by (simp add: form_instance_def editable_fields_def)
  then show ?thesis
    using s j id save_meeting_get[OF s] by (simp add: save_meeting_admin_def)
qed

subsection \<open>Witnesses\<close>

lemma sample_run:
  obtains j d where "provision_begin sample_env 7 (UUID 31) sample_values sample_db = Inr (Started j, d)"
    "step sample_env (system_on sample_db) ((system_on d)\<lparr>s_calls := [j]\<rparr>)"
proof -
  obtain j d where b: "provision_begin sample_env 7 (UUID 31) sample_values sample_db = Inr (Started j, d)"
    by (rule sample_begin)
  then show ?thesis
    using that started[of sample_env sample_env 7 "UUID 31" sample_values "system_on sample_db" j d]
    by (simp add: same_settings_def system_on_def)
qed

lemma sample_reached:
  obtains j d outcome w' where "job_id j = UUID 31"
    "reachable sample_env ((system_on d)\<lparr>s_calls := [j]\<rparr>)"
    "reachable sample_env ((system_on d)\<lparr>s_done := [(j, outcome)],
       s_history := map (Pair (job_id j)) (attempts sample_env sample_world w')\<rparr>)"
proof -
  obtain j d where b: "provision_begin sample_env 7 (UUID 31) sample_values sample_db = Inr (Started j, d)"
    and st: "step sample_env (system_on sample_db) ((system_on d)\<lparr>s_calls := [j]\<rparr>)" (is "step _ _ ?s1")
    by (rule sample_run)
  have id: "job_id j = UUID 31" using begin_frame[OF sample_db_wf b] by simp
  have r: "reachable sample_env ?s1" using st reachable.step[OF reachable.start[OF sample_db_wf]] by blast
  obtain outcome w' where run: "provider_create sample_env j sample_world = (outcome, w')" by fastforce
  have "foreign_raises sample_world" by (simp add: foreign_raises_def sample_world_def)
  from called[OF _ _ this run, of sample_env ?s1 "[]" "[]"]
  have "step sample_env ?s1 ((system_on d)\<lparr>s_done := [(j, outcome)],
       s_history := map (Pair (job_id j)) (attempts sample_env sample_world w')\<rparr>)"
    by (simp add: same_settings_def system_on_def)
  from that[OF id r reachable.step[OF r this]] show ?thesis .
qed

theorem at_most_one_creation_witness:
  "\<exists>s. reachable sample_env s \<and> s_done s \<noteq> [] \<and>
     (\<forall>out \<in> set (butlast (outcomes_of (UUID 31) s)). definite_rejection out)"
proof -
  obtain j d outcome w' where r: "reachable sample_env ((system_on d)\<lparr>s_done := [(j, outcome)],
       s_history := map (Pair (job_id j)) (attempts sample_env sample_world w')\<rparr>)" (is "reachable _ ?s")
    by (rule sample_reached)
  have "s_done ?s \<noteq> []" "UUID 31 \<notin> set (s_reopened ?s)" by (simp_all add: system_on_def)
  then show ?thesis using r at_most_one_creation[OF r sample_paths] by blast
qed

theorem one_creation_in_flight_witness:
  "\<exists>s j. reachable sample_env s \<and> j \<in> set (in_flight s) \<and>
     (\<exists>m. get_meeting (m_id (j_meeting j)) (s_db s) = Some m \<and> m_status m \<noteq> DRAFT)"
proof -
  obtain j d where r: "reachable sample_env ((system_on d)\<lparr>s_calls := [j]\<rparr>)" (is "reachable _ ?s")
    by (rule sample_reached)
  have "j \<in> set (in_flight ?s)" "m_id (j_meeting j) \<notin> set (s_reopened ?s)" by (simp_all add: in_flight_def system_on_def)
  then show ?thesis using one_creation_in_flight[OF r sample_paths] r by blast
qed

theorem runs_keep_identity_and_audit_witness:
  "\<exists>j d m'. (step sample_env)\<^sup>*\<^sup>* (system_on sample_db) ((system_on d)\<lparr>s_calls := [j]\<rparr>) \<and>
     get_meeting (UUID 31) d = Some m' \<and> identity m' = identity sample_draft"
proof -
  obtain j d where st: "step sample_env (system_on sample_db) ((system_on d)\<lparr>s_calls := [j]\<rparr>)"
    by (rule sample_run)
  then have r: "(step sample_env)\<^sup>*\<^sup>* (system_on sample_db) ((system_on d)\<lparr>s_calls := [j]\<rparr>)" by simp
  have "get_meeting (UUID 31) (s_db (system_on sample_db)) = Some sample_draft"
    using sample_draft_get by (simp add: system_on_def)
  from runs_keep_identity_and_audit[OF r reachable.start[OF sample_db_wf] this] show ?thesis
    using r by (auto simp: system_on_def)
qed

theorem stale_form_reopens_witness:
  "\<exists>j d1 d2. provision_begin sample_env 7 (UUID 31) sample_values sample_db = Inr (Started j, d1) \<and>
     save_meeting_admin sample_env 9 \<lparr>au_id = 1, au_superuser = True\<rparr> (form_instance sample_draft
       \<lparr>rv_calendar = None, rv_panel = None, rv_url = None\<rparr>) None d1 = Inr d2 \<and>
     get_meeting (UUID 31) d2 = Some (sample_draft\<lparr>m_updated_at := 9\<rparr>)"
proof -
  let ?v = "\<lparr>rv_calendar = None, rv_panel = None, rv_url = None\<rparr> :: recovery_values"
  obtain j d where b: "provision_begin sample_env 7 (UUID 31) sample_values sample_db = Inr (Started j, d)"
    by (rule sample_begin)
  have f: "\<not> m_reservation_active sample_draft" "rv_url (form_values sample_draft ?v) = None"
    by (simp_all add: sample_draft_def form_values_def)
  from stale_form_reopens[OF sample_db_wf sample_draft_get sample_values_times(4) f(1) b, of 9 _ ?v] show ?thesis
    unfolding f(2) using b by blast
qed

subsection \<open>A second creation after a stale form\<close>

lemma rows_eqI:
  assumes ids: "map f xs = map f ys" and dist: "distinct (map f xs)"
    and same: "\<And>k. row_get f k xs = row_get f k ys"
  shows "xs = ys"
proof (rule nth_equalityI)
  show len: "length xs = length ys" using ids by (metis length_map)
  fix i
  assume i: "i < length xs"
  have x: "row_get f (f (xs ! i)) xs = Some (xs ! i)"
    by (rule row_get_distinct[OF dist]) (simp add: i)
  have y: "row_get f (f (ys ! i)) ys = Some (ys ! i)"
    by (rule row_get_distinct) (use dist ids i len in simp_all)
  have "f (xs ! i) = f (ys ! i)" using ids i len by (metis nth_map)
  then have "Some (xs ! i) = Some (ys ! i)" unfolding x[symmetric] y[symmetric] same by (rule arg_cong)
  then show "xs ! i = ys ! i" by (rule option.inject[THEN iffD1])
qed

text \<open>The sample database after its draft was started and put back by a stale form.\<close>

lemma sample_reopened:
  obtains j d d2 where "provision_begin sample_env 7 (UUID 31) sample_values sample_db = Inr (Started j, d)"
    "save_meeting_admin sample_env 9 sample_admin sample_draft None d = Inr d2"
    "tx_effect {UUID 31} sample_db d" "tx_effect {UUID 31} sample_db d2"
    "m_status (j_meeting j) = PROVISIONING" "get_meeting (UUID 31) d = Some (j_meeting j)"
    "get_meeting (UUID 31) d2 = Some (sample_draft\<lparr>m_updated_at := 9\<rparr>)"
proof -
  let ?v = "\<lparr>rv_calendar = None, rv_panel = None, rv_url = None\<rparr> :: recovery_values"
  have f: "\<not> m_reservation_active sample_draft" "form_instance sample_draft ?v = sample_draft"
      "rv_url (form_values sample_draft ?v) = None"
    by (simp_all add: sample_draft_def form_values_def form_instance_def editable_fields_def)
  obtain j d where b: "provision_begin sample_env 7 (UUID 31) sample_values sample_db = Inr (Started j, d)"
    by (rule sample_begin)
  from stale_form_reopens[OF sample_db_wf sample_draft_get sample_values_times(4) f(1) b, of 9 sample_admin ?v]
  obtain d2 where d2: "save_meeting_admin sample_env 9 sample_admin sample_draft None d = Inr d2"
      "get_meeting (UUID 31) d2 = Some (sample_draft\<lparr>m_updated_at := 9\<rparr>)"
    unfolding f by blast
  have 1: "tx_effect {UUID 31} sample_db d" and g: "get_meeting (UUID 31) d = Some (j_meeting j)"
    and st: "m_status (j_meeting j) = PROVISIONING"
    using begun_job[OF sample_db_wf sample_draft_get b] by metis+
  have id: "m_id sample_draft = UUID 31" using sample_draft_get by (rule get_key)
  have "identity sample_draft = identity (j_meeting j)" using 1 g sample_draft_get unfolding tx_effect_def by fastforce
  moreover have "m_room sample_draft = None" by (simp add: sample_draft_def)
  moreover have "db_wf d" using 1 by (simp add: tx_effect_def)
  ultimately have "tx_effect {UUID 31} d d2"
    using form_effect[of d sample_draft "j_meeting j" sample_env 9 sample_admin ?v d2] d2(1) g unfolding f id by simp
  then show ?thesis using that[OF b d2(1) 1 _ st g d2(2)] tx_effect_trans[OF 1] by blast
qed

lemma sample_second_begin:
  assumes eff: "tx_effect {UUID 31} sample_db d"
    and g: "get_meeting (UUID 31) d = Some (sample_draft\<lparr>m_updated_at := 9\<rparr>)"
  shows "\<exists>j d'. provision_begin sample_env 10 (UUID 31) sample_values d = Inr (Started j, d')"
proof -
  let ?m = "sample_draft\<lparr>m_updated_at := 9\<rparr>"
  have wf: "db_wf d" and rooms: "db_rooms d = db_rooms sample_db" and clients: "db_clients d = db_clients sample_db"
    and presets: "db_presets d = db_presets sample_db"
    and ids: "map m_id (db_meetings d) = map m_id (db_meetings sample_db)"
    and others: "k \<noteq> UUID 31 \<Longrightarrow> get_meeting k d = get_meeting k sample_db" for k
    using eff by (auto simp: tx_effect_def)
  have id: "m_id sample_draft = UUID 31" using sample_draft_get by (rule get_key)
  have dist: "distinct (map m_id (db_meetings sample_db))" using sample_db_wf by (simp add: db_wf_def meetings_wf_def)
  have rows: "db_meetings d = row_put m_id ?m (db_meetings sample_db)"
  proof (rule rows_eqI[where f = m_id])
    show "row_get m_id k (db_meetings d) = row_get m_id k (row_put m_id ?m (db_meetings sample_db))" for k
      using others[of k] g sample_draft_get id by (simp add: fetch_def row_get_put)
  qed (simp_all add: ids dist)
  have "eligible sample_env d sample_client (3 * hour_us, 4 * hour_us) sample_room_b"
    using sample_eligible eligible_touch[of sample_db ?m sample_draft d] sample_db_wf sample_draft_get id rows presets
    by (simp add: db_wf_def)
  moreover have "sample_room_b \<in> set (candidate_rooms sample_env d)"
    by (simp add: set_candidate_rooms rooms) (simp add: sample_rows)
  moreover have "sample_client \<in> set (db_clients d)" by (simp add: clients) (simp add: sample_rows)
  ultimately have "any_room_free sample_env d sample_client (3 * hour_us, 4 * hour_us)
      (candidate_rooms sample_env d) = Inr True"
    using any_room_free_eq[OF wf] by auto
  then obtain a where a: "availability sample_env d sample_client sample_start sample_end = Inr a" "av_available a"
    by (auto simp: availability_def)
  have c: "get_client (m_integration_client ?m) d = Some sample_client"
    using sample_values_times(5) by (simp add: fetch_def clients)
  have "m_status ?m = DRAFT" "dt_date sample_start = m_class_date ?m" using sample_values_times(3,4) by simp_all
  from begin_progress[OF wf sample_settings_ok sample_env_ok(3) sample_cipher_text_ok g this(1) sample_values_times(1,2)
      this(2) c a, of 10]
  show ?thesis by blast
qed

text \<open>
  The exception in the two theorems above is needed: with a form that was loaded on a draft and is
  saved while the provider is called, a second creation of the same meeting starts beside the first.
\<close>

theorem stale_form_second_creation:
  "\<exists>s. reachable sample_env s \<and> length (jobs_of (UUID 31) s) = 2 \<and> s_reopened s = [UUID 31]"
proof -
  let ?v = "\<lparr>rv_calendar = None, rv_panel = None, rv_url = None\<rparr> :: recovery_values"
  let ?p = "(sample_draft, ?v)"
  have f: "form_instance sample_draft ?v = sample_draft" "rv_url (form_values sample_draft ?v) = None"
      "m_id sample_draft = UUID 31"
    using get_key[OF sample_draft_get] by (simp_all add: sample_draft_def form_values_def form_instance_def editable_fields_def)
  have F: "same_settings sample_env sample_env" by (simp add: same_settings_def)
  obtain j d d2 where b: "provision_begin sample_env 7 (UUID 31) sample_values sample_db = Inr (Started j, d)"
    and sv: "save_meeting_admin sample_env 9 sample_admin sample_draft None d = Inr d2"
    and eff: "tx_effect {UUID 31} sample_db d" "tx_effect {UUID 31} sample_db d2"
    and j: "m_status (j_meeting j) = PROVISIONING" "get_meeting (UUID 31) d = Some (j_meeting j)"
    and g2: "get_meeting (UUID 31) d2 = Some (sample_draft\<lparr>m_updated_at := 9\<rparr>)"
    by (rule sample_reopened)
  obtain j2 d3 where b2: "provision_begin sample_env 10 (UUID 31) sample_values d2 = Inr (Started j2, d3)"
    using sample_second_begin[OF eff(2) g2] by blast
  let ?s1 = "(system_on sample_db)\<lparr>s_forms := [?p]\<rparr>"
  let ?s2 = "(system_on sample_db)\<lparr>s_checked := [?p]\<rparr>"
  let ?s3 = "(system_on d)\<lparr>s_calls := [j], s_checked := [?p]\<rparr>"
  let ?s4 = "(system_on d2)\<lparr>s_calls := [j], s_reopened := [UUID 31]\<rparr>"
  let ?s5 = "(system_on d3)\<lparr>s_calls := [j, j2], s_reopened := [UUID 31]\<rparr>"
  have 1: "step sample_env (system_on sample_db) ?s1"
    using form_loaded[of "UUID 31" "system_on sample_db" sample_draft sample_env ?v] sample_draft_get
    by (simp add: system_on_def)
  have "recovery_clean sample_env (m_id sample_draft) (form_values sample_draft ?v) sample_db = Inr ()"
    using sample_draft_get sample_values_times(4) by (simp add: recovery_clean_def f(3))
  then have 2: "step sample_env ?s1 ?s2"
    using form_checked[OF F, of ?s1 "[]" sample_draft ?v "[]"] by (simp add: system_on_def)
  have 3: "step sample_env ?s2 ?s3"
    using started[OF F, of 7 "UUID 31" sample_values ?s2 j d] b by (simp add: system_on_def)
  have "stale_reopen sample_draft d"
    using j sample_values_times(4) by (simp add: stale_reopen_def open_meeting_def open_status_def f(3))
  then have 4: "step sample_env ?s3 ?s4"
    using form_saved[OF F, of ?s3 "[]" sample_draft ?v "[]" 9 sample_admin d2] sv f by (simp add: system_on_def)
  have 5: "step sample_env ?s4 ?s5"
    using started[OF F, of 10 "UUID 31" sample_values ?s4 j2 d3] b2 by (simp add: system_on_def)
  have "job_id j = UUID 31" using begin_frame[OF sample_db_wf b] by blast
  moreover have "job_id j2 = UUID 31"
    using begin_frame[OF _ b2] eff(2) by (auto simp: tx_effect_def)
  ultimately have "length (jobs_of (UUID 31) ?s5) = 2" by (simp add: jobs_of_def in_flight_def system_on_def)
  moreover have "reachable sample_env ?s5"
    using reachable.step[OF _ 5] reachable.step[OF _ 4] reachable.step[OF _ 3] reachable.step[OF _ 2]
      reachable.step[OF _ 1] reachable.start[OF sample_db_wf] by blast
  ultimately show ?thesis by (intro exI[of _ ?s5]) (simp add: system_on_def)
qed

end
