(* ===== verification/Bookings.thy ===== *)
theory Bookings
  imports Workflow
begin

text \<open>
  Bookings over time: every reservation that any process makes is the class's time with the service's
  buffers around it, and the rows keep it that way through every step of a run. Together with the
  exclusion of overlapping active reservations this bounds the distance of two classes in one room.
\<close>

subsection \<open>Reservations\<close>

text \<open>The reserved range of a row is the row's class time with the buffers of the settings around it.\<close>

definition slot_ok :: "env \<Rightarrow> meeting \<Rightarrow> bool" where
  "slot_ok E m \<longleftrightarrow> (case m_reservation m of
     None \<Rightarrow> True
   | Some (lo, hi) \<Rightarrow> (case (m_start_at m, m_end_at m) of
         (Some s, Some e) \<Rightarrow>
           lo = s - ROOM_BUFFER_BEFORE_MINUTES (e_settings E) * minute_us \<and>
           hi = e + ROOM_BUFFER_AFTER_MINUTES (e_settings E) * minute_us
       | _ \<Rightarrow> False))"

definition slots_ok :: "env \<Rightarrow> db \<Rightarrow> bool" where
  "slots_ok E d \<longleftrightarrow> (\<forall>k m. get_meeting k d = Some m \<longrightarrow> slot_ok E m)"

definition same_times :: "meeting \<Rightarrow> meeting \<Rightarrow> bool" where
  "same_times a b \<longleftrightarrow> m_reservation a = m_reservation b \<and> m_start_at a = m_start_at b \<and> m_end_at a = m_end_at b"

lemma slot_ok_cong: "same_times a b \<Longrightarrow> slot_ok E a \<longleftrightarrow> slot_ok E b"
  unfolding same_times_def slot_ok_def by (elim conjE) (simp only:)

lemma slot_ok_settings: "same_settings F E \<Longrightarrow> slot_ok F m \<longleftrightarrow> slot_ok E m"
  unfolding same_settings_def slot_ok_def by (simp only:)

lemma slots_ok_settings: "same_settings F E \<Longrightarrow> slots_ok F d \<longleftrightarrow> slots_ok E d"
  by (simp add: slots_ok_def slot_ok_settings)

lemma slots_ok_cong: "(\<And>k. get_meeting k d' = get_meeting k d) \<Longrightarrow> slots_ok E d' \<longleftrightarrow> slots_ok E d"
  by (simp add: slots_ok_def)

text \<open>A transaction on the rows of \<open>K\<close> need only answer for those.\<close>

lemma tx_slots:
  assumes "tx_effect K d d'" and "slots_ok E d"
    and "\<And>k m. k \<in> K \<Longrightarrow> get_meeting k d' = Some m \<Longrightarrow> slot_ok E m"
  shows "slots_ok E d'"
  using assms unfolding slots_ok_def tx_effect_def by metis

text \<open>A transaction that leaves the times of its rows alone.\<close>

lemma tx_keeps_times:
  assumes eff: "tx_effect K d d'" and ok: "slots_ok E d"
    and same: "\<And>k m m'. k \<in> K \<Longrightarrow> get_meeting k d = Some m \<Longrightarrow> get_meeting k d' = Some m' \<Longrightarrow> same_times m m'"
  shows "slots_ok E d'"
proof (rule tx_slots[OF eff ok])
  fix k m'
  assume k: "k \<in> K" "get_meeting k d' = Some m'"
  then obtain m where m: "get_meeting k d = Some m" using tx_effect_keys[OF eff, of k] by fastforce
  have "slot_ok E m" using ok m unfolding slots_ok_def by blast
  then show "slot_ok E m'" using slot_ok_cong[OF same[OF k(1) m k(2)]] by blast
qed

subsection \<open>The operations that book\<close>

lemma reserved_slot_ok:
  assumes "reserve_specific_room E now pk room_id s e d = Inr (m, d')"
  shows "slot_ok E m"
proof -
  from reserveD[OF assms] obtain slot m0 r where slot: "interval E s e = Inr slot"
    and m: "m = (reserved_row m0 r s e slot)\<lparr>m_updated_at := now\<rparr>" by blast
  obtain lo hi where "slot = (lo, hi)" by (cases slot)
  then show ?thesis using interval_Inr[of E s e lo hi] slot by (simp add: m reserved_row_def slot_ok_def)
qed

lemma try_rooms_slot_ok: "try_rooms E now pk ids s e d = Inr (m, d') \<Longrightarrow> slot_ok E m"
proof (induction ids)
  case (Cons i ids)
  show ?case
  proof (cases "reserve_specific_room E now pk i s e d")
    case (Inl x)
    then show ?thesis using Cons by (cases x) (auto split: if_splits)
  next
    case (Inr p)
    then show ?thesis using Cons.prems reserved_slot_ok by (cases p) simp
  qed
qed simp

lemma reserve_for_slot_ok:
  assumes "reserve_for E now locked s e d = Inr (m, d1)" and "slot_ok E locked"
  shows "slot_ok E m"
  using assms
  by (auto simp: reserve_for_def bind_r_Inr_iff allocate_any_room_def dest: try_rooms_slot_ok split: if_splits option.splits)

lemma begin_keeps_slots:
  assumes wf: "db_wf d" and ok: "slots_ok E d" and b: "provision_begin E now pk v d = Inr (b', d')"
  shows "slots_ok E d'"
  using b
proof (cases rule: provision_begin_cases)
  case (replay m)
  have "get_meeting k d' = get_meeting k d" for k by (rule fetch_cong) (simp add: replay(4))
  then show ?thesis using ok slots_ok_cong by blast
next
  case (begun locked)
  from begin_creation_effect[OF wf begun] obtain j where
    j: "b' = Started j" "tx_effect {pk} d d'" "get_meeting pk d' = Some (j_meeting j)" by blast
  have "slot_ok E (j_meeting j)"
    using begun(3)
  proof (cases rule: begin_creationD)
    case (1 s m d1 rm c p)
    from start_provisioningD[OF 1(8)] j(1) obtain kind enc d2 where
      sv: "save_meeting now (m\<lparr>m_provider_meeting_type := upper kind, m_encrypted_provider_payload := Some enc,
        m_status := PROVISIONING\<rparr>) d1 = Inr (j_meeting j, d2)" by auto
    have "same_times m (j_meeting j)" using save_meetingD(1)[OF sv] by (simp add: same_times_def)
    moreover have "slot_ok E m" using reserve_for_slot_ok[OF 1(4)] ok begun(1) by (simp add: slots_ok_def)
    ultimately show ?thesis using slot_ok_cong by blast
  qed
  then show ?thesis using j(3) by (intro tx_slots[OF j(2) ok]) simp
qed

lemma register_keeps_slots:
  assumes wf: "db_wf d" and ok: "slots_ok E d" and r: "register E now pk c v d = (res, d')"
  shows "slots_ok E d'"
  using wf[unfolded db_wf_def, THEN conjunct1] r
proof (cases rule: register_cases)
  case (fresh m d1)
  note ins = insert_meetingD[OF fresh(2)]
  have "get_meeting k d' = (if k = m_id m \<and> get_meeting k d = None then Some m else get_meeting k d)" for k
    by (auto simp: fresh(4) ins(2) fetch_def row_get_append split: option.split)
  moreover have "slot_ok E m" by (simp add: ins(1) new_meeting_def slot_ok_def)
  ultimately show ?thesis using ok by (auto simp: slots_ok_def split: if_splits)
next
  case (mismatch m)
  have "get_meeting k d' = get_meeting k d" for k by (rule fetch_cong) (simp add: mismatch(4))
  then show ?thesis using ok slots_ok_cong by blast
qed (use ok in simp_all)

subsection \<open>The operations that keep the times\<close>

lemma failure_keeps_times:
  assumes "record_failure E now pk retrying e d = Inr (m', d')" and "get_meeting pk d = Some m"
  shows "same_times m m'"
  using assms(1)
proof (cases rule: record_failureD)
  case (1 current x d1 d2)
  then show ?thesis using assms(2) failed_row_cases[OF 1(2)] save_meetingD(1)[OF 1(4)] by (simp add: same_times_def)
qed

lemma success_keeps_times:
  assumes "record_success E now pk retrying res d = Inr (m', d')" and "get_meeting pk d = Some m"
  shows "same_times m m'"
  using assms(1)
proof (cases rule: record_successD)
  case (1 current url d1)
  then show ?thesis using assms(2) save_meetingD(1)[OF 1(4)] by (simp add: same_times_def)
qed

lemma finish_keeps_slots:
  assumes wf: "db_wf (w_db w)" and ok: "slots_ok E (w_db w)" and f: "provision_finish F j outcome w = (res, w')"
  shows "slots_ok E (w_db w')"
  using f
proof (cases rule: provision_finishD)
  case unchanged
  then show ?thesis using ok by simp
next
  case (success r tok m)
  show ?thesis
    by (rule tx_keeps_times[OF record_success_effect[OF wf success(2)] ok])
      (use record_success_status[OF success(2)] success_keeps_times[OF success(2)] in simp)
next
  case (failure e now m)
  show ?thesis
    by (rule tx_keeps_times[OF record_failure_effect[OF wf failure(2)] ok])
      (use record_failure_get[OF failure(2)] failure_keeps_times[OF failure(2)] in simp)
qed

lemma cancel_keeps_slots:
  assumes wf: "db_wf d" and ok: "slots_ok E d" and c: "cancel F now pk d = Inr (m', d')"
  shows "slots_ok E d'"
proof (rule tx_keeps_times[OF cancel_effect[OF wf c] ok])
  fix k m x
  assume k: "k \<in> {pk}" "get_meeting k d = Some m" "get_meeting k d' = Some x"
  have "x = m'" using cancel_result[OF wf c] k by simp
  moreover have "same_times m m'"
    using c k(1,2) by (auto simp: cancel_def bind_r_Inr_iff same_times_def dest!: save_meetingD(1) split: if_splits)
  ultimately show "same_times m x" by simp
qed

lemma sweep_keeps_slots:
  assumes wf: "db_wf d" and ok: "slots_ok E d" and sw: "flag_stale_provisioning F now locked d = Inr d'"
  shows "slots_ok E d'"
proof -
  let ?K = "{k. \<exists>m. get_meeting k d = Some m \<and> is_stale now m \<and> k \<notin> set locked}"
  have eff: "tx_effect ?K d d'"
    and row: "\<And>k m. get_meeting k d = Some m \<Longrightarrow> is_stale now m \<Longrightarrow> k \<notin> set locked \<Longrightarrow> get_meeting k d' = Some (flagged now m)"
    using sweep_effect[OF wf, of F now locked] sw by auto
  show ?thesis
    by (rule tx_keeps_times[OF eff ok]) (use row in \<open>fastforce simp: same_times_def flagged_def\<close>)
qed

lemma confirm_keeps_slots:
  assumes wf: "db_wf d" and ok: "slots_ok E d" and c: "confirm_ended_action F now user selected d = Inr (u, d')"
  shows "slots_ok E d'"
proof -
  have eff: "tx_effect (set selected) d d'"
    and row: "\<And>k m. get_meeting k d = Some m \<Longrightarrow> k \<in> set selected \<Longrightarrow>
      get_meeting k d' = Some (if provider_held (m_status m) then ended now m else m)"
    using confirm_action_effect[OF wf, of F now user selected] c by auto
  show ?thesis
    by (rule tx_keeps_times[OF eff ok]) (use row in \<open>auto simp: same_times_def ended_def split: if_splits\<close>)
qed

subsection \<open>Runs\<close>

definition booking_inv :: "env \<Rightarrow> system \<Rightarrow> bool" where
  "booking_inv E s \<longleftrightarrow> system_wf s \<and> slots_ok E (s_db s) \<and> (\<forall>p \<in> set (s_forms s @ s_checked s). slot_ok E (fst p))"

lemma step_slots:
  assumes st: "step E s s'" and inv: "booking_inv E s"
  shows "slots_ok E (s_db s')"
proof -
  have wf: "system_wf s" and d: "db_wf (s_db s)" and ok: "slots_ok E (s_db s)"
    using inv by (simp_all add: booking_inv_def system_wf_def)
  from st show ?thesis
  proof cases
    case (registered F c now pk v res d')
    then show ?thesis using register_keeps_slots[OF d _ registered(4)] ok slots_ok_settings by simp
  next
    case (started F now pk v j d')
    then show ?thesis using begin_keeps_slots[OF d _ started(3)] ok slots_ok_settings by simp
  next
    case (replayed F now pk v m d')
    then show ?thesis using begin_keeps_slots[OF d _ replayed(3)] ok slots_ok_settings by simp
  next
    case (authenticated w w')
    then show ?thesis using ok slots_ok_cong[of "w_db w'" "s_db s"] outside_only_get[OF authenticated(2)] by simp
  next
    case (recorded F xs j outcome ys w res w')
    then show ?thesis using finish_keeps_slots[of w E F j outcome res w'] d ok by simp
  next
    case (cancelled F now pk m d')
    then show ?thesis using cancel_keeps_slots[OF d ok] by simp
  next
    case (swept F now locked d')
    then show ?thesis using sweep_keeps_slots[OF d ok] by simp
  next
    case (form_saved F xs obj v ys now user d')
    have eff: "tx_effect {m_id obj} (s_db s) d'" by (rule form_saved_effect[OF wf _ form_saved(4)]) (simp add: form_saved(3))
    have obj: "slot_ok E obj" using inv by (simp add: booking_inv_def form_saved(3))
    have "slots_ok E d'"
    proof (rule tx_slots[OF eff ok])
      fix k m
      assume "k \<in> {m_id obj}" "get_meeting k d' = Some m"
      then have "get_meeting (m_id obj) d' = Some m" by simp
      from form_row(2-4)[OF form_saved(4) this] have "same_times m obj" by (simp add: same_times_def)
      then show "slot_ok E m" using obj slot_ok_cong by blast
    qed
    then show ?thesis using form_saved(1) by simp
  next
    case (confirmed F now user selected u d')
    then show ?thesis using confirm_keeps_slots[OF d ok] by simp
  next
    case (elsewhere d' records)
    have "get_meeting k d' = get_meeting k (s_db s)" for k by (rule fetch_cong) (rule elsewhere(3))
    then show ?thesis using ok slots_ok_cong[of d' "s_db s"] elsewhere(1) by simp
  qed (use ok in simp_all)
qed

lemma step_booking_inv:
  assumes st: "step E s s'" and inv: "booking_inv E s"
  shows "booking_inv E s'"
proof -
  have "\<forall>p \<in> set (s_forms s' @ s_checked s'). slot_ok E (fst p)"
    using st
  proof cases
    case (form_loaded pk obj v)
    then have "slot_ok E obj" using inv by (simp add: booking_inv_def slots_ok_def)
    then show ?thesis using inv form_loaded(1) by (simp add: booking_inv_def)
  qed (use inv in \<open>auto simp: booking_inv_def\<close>)
  moreover have "system_wf s'" using step_system_wf[OF st] inv by (simp add: booking_inv_def)
  ultimately show ?thesis using step_slots[OF st inv] by (simp add: booking_inv_def)
qed

lemma runs_booking_inv:
  assumes "(step E)\<^sup>*\<^sup>* (system_on d) s" and "db_wf d" and "\<forall>m \<in> set (db_meetings d). slot_ok E m"
  shows "booking_inv E s"
  using assms(1)
proof induction
  case base
  have "slots_ok E d" using assms(3) meeting_tbl.fetch_mem by (auto simp: slots_ok_def)
  then show ?case using assms(2) by (simp add: booking_inv_def system_wf_def system_on_def in_flight_def)
qed (rule step_booking_inv)

text \<open>Rows of one room whose reserved ranges do not overlap hold classes that are apart by both buffers.\<close>

lemma classes_apart:
  assumes a: "slot_ok E a" "meeting_checks a" "m_reservation_active a"
    and b: "slot_ok E b" "meeting_checks b" "m_reservation_active b"
    and free: "\<not> opt_overlap (m_reservation a) (m_reservation b)"
  obtains s e s' e' where "m_start_at a = Some s" "m_end_at a = Some e" "m_start_at b = Some s'" "m_end_at b = Some e'"
    "s < e" "s' < e'"
    "e + (ROOM_BUFFER_AFTER_MINUTES (e_settings E) + ROOM_BUFFER_BEFORE_MINUTES (e_settings E)) * minute_us \<le> s' \<or>
     e' + (ROOM_BUFFER_AFTER_MINUTES (e_settings E) + ROOM_BUFFER_BEFORE_MINUTES (e_settings E)) * minute_us \<le> s"
proof -
  have row: "\<exists>s e. m_start_at m = Some s \<and> m_end_at m = Some e \<and> s < e \<and>
      m_reservation m = Some (s - ROOM_BUFFER_BEFORE_MINUTES (e_settings E) * minute_us,
        e + ROOM_BUFFER_AFTER_MINUTES (e_settings E) * minute_us) \<and>
      s - ROOM_BUFFER_BEFORE_MINUTES (e_settings E) * minute_us < e + ROOM_BUFFER_AFTER_MINUTES (e_settings E) * minute_us"
    if "slot_ok E m" "meeting_checks m" "m_reservation_active m" for m
    using that by (auto simp: slot_ok_def meeting_checks_def active_reservation_complete_def positive_meeting_interval_def
        reservation_range_valid_def)
  from row[OF a] row[OF b] obtain s e s' e' where "m_start_at a = Some s" "m_end_at a = Some e"
      "m_start_at b = Some s'" "m_end_at b = Some e'" "s < e" "s' < e'"
      "m_reservation a = Some (s - ROOM_BUFFER_BEFORE_MINUTES (e_settings E) * minute_us,
        e + ROOM_BUFFER_AFTER_MINUTES (e_settings E) * minute_us)"
      "m_reservation b = Some (s' - ROOM_BUFFER_BEFORE_MINUTES (e_settings E) * minute_us,
        e' + ROOM_BUFFER_AFTER_MINUTES (e_settings E) * minute_us)"
      "s - ROOM_BUFFER_BEFORE_MINUTES (e_settings E) * minute_us < e + ROOM_BUFFER_AFTER_MINUTES (e_settings E) * minute_us"
      "s' - ROOM_BUFFER_BEFORE_MINUTES (e_settings E) * minute_us < e' + ROOM_BUFFER_AFTER_MINUTES (e_settings E) * minute_us"
    by blast
  with free that show ?thesis by (auto simp: opt_overlap_def range_overlap_def algebra_simps)
qed

text \<open>
  C18, no double booking: whatever requests, operators, sweeps and stale forms do, from a database
  whose reservations carry the service's buffers, two meetings that hold active reservations of one
  room are classes that do not overlap: one ends before the other starts, and between them lie at least
  the buffer after a class and the buffer before one.
\<close>

theorem never_double_booked:
  assumes run: "(step E)\<^sup>*\<^sup>* (system_on d) s" and wf: "db_wf d" and slots: "\<forall>m \<in> set (db_meetings d). slot_ok E m"
    and rows: "a \<in> set (db_meetings (s_db s))" "b \<in> set (db_meetings (s_db s))" "m_id a \<noteq> m_id b"
    and active: "m_reservation_active a" "m_reservation_active b" and room: "m_room a = m_room b"
  shows "\<exists>s1 e1 s2 e2. m_start_at a = Some s1 \<and> m_end_at a = Some e1 \<and> m_start_at b = Some s2 \<and> m_end_at b = Some e2 \<and>
    s1 < e1 \<and> s2 < e2 \<and>
    (e1 + (ROOM_BUFFER_AFTER_MINUTES (e_settings E) + ROOM_BUFFER_BEFORE_MINUTES (e_settings E)) * minute_us \<le> s2 \<or>
     e2 + (ROOM_BUFFER_AFTER_MINUTES (e_settings E) + ROOM_BUFFER_BEFORE_MINUTES (e_settings E)) * minute_us \<le> s1)"
proof -
  have inv: "booking_inv E s" using run wf slots by (rule runs_booking_inv)
  then have m: "meetings_wf (s_db s)" by (simp add: booking_inv_def system_wf_def db_wf_def)
  have ok: "slot_ok E x \<and> meeting_checks x" if "x \<in> set (db_meetings (s_db s))" for x
    using inv m that meeting_tbl.fetch_distinct[of "s_db s" x]
    by (auto simp: booking_inv_def slots_ok_def meetings_wf_def)
  have "\<not> room_conflict a b" using m rows unfolding meetings_wf_def by blast
  moreover have "m_room a \<noteq> None" using ok[OF rows(1)] active(1)
    by (simp add: meeting_checks_def active_reservation_complete_def)
  ultimately have "\<not> opt_overlap (m_reservation a) (m_reservation b)"
    using active room by (auto simp: room_conflict_def)
  then show ?thesis
    using classes_apart[of E a b] ok[OF rows(1)] ok[OF rows(2)] active by metis
qed

subsection \<open>Witness\<close>

text \<open>Two classes in one room, with a buffer of fifteen minutes after each.\<close>

definition buffered_env :: env where
  "buffered_env = sample_env\<lparr>e_settings := sample_settings\<lparr>ROOM_BUFFER_AFTER_MINUTES := 15\<rparr>\<rparr>"

definition buffered_first :: meeting where
  "buffered_first = sample_ready\<lparr>m_reservation := Some (hour_us, 2 * hour_us + 15 * minute_us)\<rparr>"

definition buffered_second :: meeting where
  "buffered_second = sample_failed\<lparr>m_room := Some (UUID 12),
     m_reservation := Some (5 * hour_us, 6 * hour_us + 15 * minute_us)\<rparr>"

definition buffered_db :: db where
  "buffered_db = sample_db\<lparr>db_meetings := [buffered_first, buffered_second]\<rparr>"

lemma buffered_db_wf: "db_wf buffered_db"
proof -
  have "meetings_wf buffered_db"
    by (simp add: meetings_wf_def buffered_db_def buffered_first_def buffered_second_def sample_rows meeting_text_ok_def
        text_fits_def opt_fits_def meeting_checks_def active_reservation_complete_def positive_meeting_interval_def
        reservation_range_valid_def same_class_def room_conflict_def opt_overlap_def range_overlap_def hour_us_def minute_us_def)
  moreover have "refs_wf buffered_db"
    by (simp add: refs_wf_def buffered_db_def buffered_first_def buffered_second_def sample_rows fetch_def)
  moreover have "rooms_wf buffered_db" "clients_wf buffered_db"
    using sample_db_wf by (simp_all add: db_wf_def rooms_wf_def clients_wf_def buffered_db_def)
  ultimately show ?thesis by (simp add: db_wf_def)
qed

theorem never_double_booked_witness:
  "\<exists>s s1 e1 s2 e2. (step buffered_env)\<^sup>*\<^sup>* (system_on buffered_db) s \<and> s_forms s \<noteq> [] \<and>
     m_start_at buffered_first = Some s1 \<and> m_end_at buffered_first = Some e1 \<and>
     m_start_at buffered_second = Some s2 \<and> m_end_at buffered_second = Some e2 \<and> e1 + 15 * minute_us \<le> s2"
proof -
  let ?s = "(system_on buffered_db)\<lparr>s_forms := [(buffered_first, \<lparr>rv_calendar = None, rv_panel = None, rv_url = None\<rparr>)]\<rparr>"
  have "get_meeting (UUID 32) buffered_db = Some buffered_first"
    by (simp add: fetch_def buffered_db_def buffered_first_def sample_rows)
  then have run: "(step buffered_env)\<^sup>*\<^sup>* (system_on buffered_db) ?s"
    using form_loaded[of "UUID 32" "system_on buffered_db" buffered_first buffered_env] by (simp add: system_on_def r_into_rtranclp)
  have rows: "db_meetings buffered_db = [buffered_first, buffered_second]" by (simp add: buffered_db_def)
  have slots: "\<forall>m \<in> set (db_meetings buffered_db). slot_ok buffered_env m"
    by (simp add: rows slot_ok_def buffered_first_def buffered_second_def sample_rows buffered_env_def sample_settings_def)
  have "\<exists>s1 e1 s2 e2. m_start_at buffered_first = Some s1 \<and> m_end_at buffered_first = Some e1 \<and>
      m_start_at buffered_second = Some s2 \<and> m_end_at buffered_second = Some e2 \<and> s1 < e1 \<and> s2 < e2 \<and>
      (e1 + (ROOM_BUFFER_AFTER_MINUTES (e_settings buffered_env) + ROOM_BUFFER_BEFORE_MINUTES (e_settings buffered_env)) *
         minute_us \<le> s2 \<or>
       e2 + (ROOM_BUFFER_AFTER_MINUTES (e_settings buffered_env) + ROOM_BUFFER_BEFORE_MINUTES (e_settings buffered_env)) *
         minute_us \<le> s1)"
    by (rule never_double_booked[OF run buffered_db_wf slots])
      (simp_all add: rows system_on_def buffered_first_def buffered_second_def sample_rows)
  then show ?thesis
    by (intro exI[of _ ?s])
      (use run in \<open>auto simp: system_on_def buffered_first_def buffered_second_def sample_rows buffered_env_def
        sample_settings_def hour_us_def minute_us_def\<close>)
qed

end
