(* ===== verification/Network.thy ===== *)
theory Network
  imports Urls
begin

text \<open>
  What the allow lists of \<open>apps/integrations\<close> use of Python's \<open>ipaddress\<close> module: \<open>ip_address\<close>,
  \<open>ip_network\<close> in its strict form (prefix length, netmask or host mask after the slash, no host bits
  set) and membership, on 32-bit and 128-bit words. A \<open>ValueError\<close> is \<open>None\<close>.
\<close>

unbundle bit_operations_syntax

datatype ip_address = IPv4 "32 word" | IPv6 "128 word"
datatype ip_network = Net4 "32 word" nat | Net6 "128 word" nat

subsection \<open>Addresses\<close>

definition hex_value :: "string \<Rightarrow> nat" where
  "hex_value s = foldl (\<lambda>acc c. acc * 16 + (case hex_val c of None \<Rightarrow> 0 | Some v \<Rightarrow> v)) 0 s"

definition join_words :: "nat \<Rightarrow> nat list \<Rightarrow> 'a::len word" where
  "join_words base ws = foldl (\<lambda>acc w. acc * of_nat base + of_nat w) 0 ws"

definition ipv4_value :: "string \<Rightarrow> 32 word option" where
  "ipv4_value s = (if ipv4_ok s then Some (join_words 256 (map nat_of_digits (split_on (CHR ''.'') s))) else None)"

text \<open>The eight hextets of the parts between colons, the \<open>::\<close> filled with zeros.\<close>

definition hextets :: "string list \<Rightarrow> nat list" where
  "hextets parts =
     (case filter (\<lambda>i. parts ! i = []) [1..<length parts - 1] of
        skip # _ \<Rightarrow>
          (let hi = (if parts ! 0 = [] then 0 else skip);
               lo = (if last parts = [] then 0 else length parts - skip - 1)
           in map hex_value (take hi parts) @ replicate (8 - (hi + lo)) 0 @
              map hex_value (drop (length parts - lo) parts))
      | [] \<Rightarrow> map hex_value parts)"

definition ipv6_value :: "string \<Rightarrow> 128 word option" where
  "ipv6_value s =
     (if \<not> ipv6_ok s then None
      else (let parts = split_on (CHR '':'') (fst (partition_at (CHR ''%'') s)) in
        Some (join_words 65536
          (if CHR ''.'' \<in> set (last parts)
           then (let hs = hextets (butlast parts @ [''0'', ''0'']);
                     v4 = map nat_of_digits (split_on (CHR ''.'') (last parts))
                 in take 6 hs @ [v4 ! 0 * 256 + v4 ! 1, v4 ! 2 * 256 + v4 ! 3])
           else hextets parts))))"

definition ip_address :: "string \<Rightarrow> ip_address option" where
  "ip_address s = (case ipv4_value s of
     Some a \<Rightarrow> Some (IPv4 a)
   | None \<Rightarrow> map_option IPv6 (ipv6_value s))"

subsection \<open>Networks\<close>

definition netmask :: "nat \<Rightarrow> 'a::len word" where
  "netmask n = push_bit (LENGTH('a) - n) (- 1)"

definition prefix_of_string :: "nat \<Rightarrow> string \<Rightarrow> nat option" where
  "prefix_of_string limit s =
     (if s \<noteq> [] \<and> list_all is_digit s \<and> length s \<le> max_int_digits \<and> nat_of_digits s \<le> limit
      then Some (nat_of_digits s) else None)"

definition prefix_of_mask :: "32 word \<Rightarrow> nat option" where
  "prefix_of_mask w = List.find (\<lambda>n. w = netmask n) [0..<33]"

definition ipv4_prefix :: "string \<Rightarrow> nat option" where
  "ipv4_prefix m =
     (case prefix_of_string 32 m of
        Some n \<Rightarrow> Some n
      | None \<Rightarrow>
          (case ipv4_value m of
             None \<Rightarrow> None
           | Some w \<Rightarrow> (case prefix_of_mask w of Some n \<Rightarrow> Some n | None \<Rightarrow> prefix_of_mask (NOT w))))"

definition ip_network :: "string \<Rightarrow> ip_network option" where
  "ip_network s =
     (let parts = split_on (CHR ''/'') s; addr = parts ! 0 in
      if length parts > 2 then None
      else (case ipv4_value addr of
          Some a \<Rightarrow>
            (case (if length parts = 1 then Some 32 else ipv4_prefix (parts ! 1)) of
               None \<Rightarrow> None
             | Some n \<Rightarrow> if a AND netmask n = a then Some (Net4 a n) else None)
        | None \<Rightarrow>
            (case ipv6_value addr of
               None \<Rightarrow> None
             | Some a \<Rightarrow>
                 (case (if length parts = 1 then Some 128 else prefix_of_string 128 (parts ! 1)) of
                    None \<Rightarrow> None
                  | Some n \<Rightarrow> if a AND netmask n = a then Some (Net6 a n) else None))))"

text \<open>
  A member of an allow list is a JSON value: a text is parsed, an integer (or a boolean) is an
  address of its own, and what \<open>str()\<close> makes of any other value is no network.
\<close>

definition network_of_int :: "int \<Rightarrow> ip_network option" where
  "network_of_int i =
     (if 0 \<le> i \<and> i < 2 ^ 32 then Some (Net4 (word_of_int i) 32)
      else if 0 \<le> i \<and> i < 2 ^ 128 then Some (Net6 (word_of_int i) 128) else None)"

definition ip_network_value :: "json \<Rightarrow> ip_network option" where
  "ip_network_value v = (case v of
     JStr s \<Rightarrow> ip_network s
   | JInt i \<Rightarrow> network_of_int i
   | JBool b \<Rightarrow> network_of_int (if b then 1 else 0)
   | _ \<Rightarrow> None)"

fun address_in :: "ip_address \<Rightarrow> ip_network \<Rightarrow> bool" where
  "address_in (IPv4 a) (Net4 net n) = (a AND netmask n = net)"
| "address_in (IPv6 a) (Net6 net n) = (a AND netmask n = net)"
| "address_in _ _ = False"

subsection \<open>Membership is a range check\<close>

lemma uint_and_netmask:
  fixes a :: "'a::len word"
  shows "uint (a AND netmask n) = uint a - uint a mod 2 ^ (LENGTH('a) - n)"
proof -
  let ?k = "LENGTH('a) - n"
  have "netmask n = NOT (mask ?k :: 'a word)"
    by (simp add: netmask_def push_bit_minus_one_eq_not_mask)
  then have "a AND netmask n = a - take_bit ?k a"
    by (subst disjunctive_diff) (auto intro!: bit_eqI simp: bit_simps)
  moreover have "uint (take_bit ?k a) = uint a mod 2 ^ ?k"
    by (simp add: unsigned_take_bit_eq flip: take_bit_eq_mod)
  moreover have "uint a mod 2 ^ ?k \<le> uint a"
    by (rule zmod_le_nonneg_dividend) simp
  ultimately show ?thesis by (simp add: uint_sub_if')
qed

text \<open>
  A network is a block of consecutive addresses: its own address, which is a multiple of the block
  size, up to the block size.
\<close>

lemma masked_iff_range:
  fixes a net :: "'a::len word"
  assumes net: "net AND netmask n = net"
  shows "a AND netmask n = net \<longleftrightarrow> uint net \<le> uint a \<and> uint a < uint net + 2 ^ (LENGTH('a) - n)"
proof -
  define B :: int where "B = 2 ^ (LENGTH('a) - n)"
  have B: "0 < B" by (simp add: B_def)
  have "uint net - uint net mod B = uint net"
    using arg_cong[OF net, of uint] by (simp only: uint_and_netmask B_def)
  then obtain q where q: "uint net = B * q" by (metis diff_eq_eq dvdE dvd_eq_mod_eq_0 add_cancel_right_right)
  have "a AND netmask n = net \<longleftrightarrow> uint (a AND netmask n) = uint net"
    by (rule word_uint_eq_iff)
  also have "\<dots> \<longleftrightarrow> uint a - uint a mod B = B * q"
    by (simp only: uint_and_netmask B_def[symmetric] q)
  also have "\<dots> \<longleftrightarrow> B * (uint a div B) = B * q"
    by (simp add: minus_mod_eq_mult_div)
  also have "\<dots> \<longleftrightarrow> uint a div B = q" using B by simp
  also have "\<dots> \<longleftrightarrow> B * q \<le> uint a \<and> uint a < B * q + B"
  proof
    assume "uint a div B = q"
    then have "uint a = B * q + uint a mod B" by (metis mult_div_mod_eq)
    moreover have "0 \<le> uint a mod B" "uint a mod B < B" using B by simp_all
    ultimately show "B * q \<le> uint a \<and> uint a < B * q + B" by linarith
  next
    assume "B * q \<le> uint a \<and> uint a < B * q + B"
    then show "uint a div B = q"
      by (intro int_div_pos_eq[where r = "uint a - B * q"]) simp_all
  qed
  finally show ?thesis by (simp add: q B_def)
qed

fun in_range :: "ip_address \<Rightarrow> ip_network \<Rightarrow> bool" where
  "in_range (IPv4 a) (Net4 net n) = (uint net \<le> uint a \<and> uint a < uint net + 2 ^ (32 - n))"
| "in_range (IPv6 a) (Net6 net n) = (uint net \<le> uint a \<and> uint a < uint net + 2 ^ (128 - n))"
| "in_range _ _ = False"

fun no_host_bits :: "ip_network \<Rightarrow> bool" where
  "no_host_bits (Net4 net n) = (net AND netmask n = net)"
| "no_host_bits (Net6 net n) = (net AND netmask n = net)"

lemma address_in_iff_range: "no_host_bits net \<Longrightarrow> address_in a net \<longleftrightarrow> in_range a net"
  by (cases a; cases net) (simp_all add: masked_iff_range)

lemma netmask_full [simp]: "(w :: 'a::len word) AND netmask LENGTH('a) = w"
  by (simp add: netmask_def)

lemma ip_network_no_host_bits: "ip_network s = Some net \<Longrightarrow> no_host_bits net"
  by (auto simp: ip_network_def Let_def split: if_splits option.splits)

lemma ip_network_value_no_host_bits: "ip_network_value v = Some net \<Longrightarrow> no_host_bits net"
  using netmask_full[where ?'a = 32] netmask_full[where ?'a = 128]
  by (auto simp: ip_network_value_def network_of_int_def dest: ip_network_no_host_bits
      split: json.splits if_splits)

end
