(* ===== verification/Clients.thy ===== *)
theory Clients
  imports Network Administration
begin

text \<open>
  \<open>apps/integrations/models.py\<close> and \<open>apps/integrations/admin.py\<close>: the clients that may call the
  gateway, their scopes and allow lists, the validation of the admin form, and secret rotation; the
  allow-list check and the exchange throttle of \<open>apps/integrations/tokens.py\<close>. First what they use
  of Python's \<open>uuid\<close> module.
\<close>

subsection \<open>UUID texts\<close>

definition strip_by :: "(char \<Rightarrow> bool) \<Rightarrow> string \<Rightarrow> string" where
  "strip_by P s = rev (dropWhile P (rev (dropWhile P s)))"

text \<open>
  \<open>int(s, 16)\<close>: surrounding whitespace (ASCII's only when the text is ASCII), a sign, a \<open>0x\<close>
  prefix, single underscores between digits. \<open>None\<close> is \<open>ValueError\<close>.
\<close>

definition int_space :: "string \<Rightarrow> char \<Rightarrow> bool" where
  "int_space s c =
     (if list_all (\<lambda>x. (of_char x :: nat) < 128) s
      then (let n = (of_char c :: nat) in 9 \<le> n \<and> n \<le> 13 \<or> n = 32) else py_space c)"

fun scan_hex :: "nat \<Rightarrow> bool \<Rightarrow> string \<Rightarrow> nat option" where
  "scan_hex acc ok [] = (if ok then Some acc else None)"
| "scan_hex acc ok (c # cs) =
     (if c = CHR ''_'' then (if ok then scan_hex acc False cs else None)
      else (case hex_val c of None \<Rightarrow> None | Some v \<Rightarrow> scan_hex (acc * 16 + v) True cs))"

definition drop_hex_prefix :: "string \<Rightarrow> string" where
  "drop_hex_prefix s =
     (if starts_with s ''0x'' \<or> starts_with s ''0X''
      then (if starts_with (drop 2 s) ''_'' then drop 3 s else drop 2 s) else s)"

definition int_base16 :: "string \<Rightarrow> int option" where
  "int_base16 s =
     (let t = strip_by (int_space s) s;
          neg = starts_with t ''-'';
          body = (if neg \<or> starts_with t ''+'' then drop 1 t else t)
      in map_option (\<lambda>n. if neg then - int n else int n) (scan_hex 0 False (drop_hex_prefix body)))"

text \<open>\<open>uuid.UUID(v)\<close> of a JSON value; \<open>ValueError\<close>, \<open>TypeError\<close> and \<open>AttributeError\<close> are \<open>None\<close>.\<close>

definition uuid_of_text :: "string \<Rightarrow> uuid option" where
  "uuid_of_text s =
     (let h = filter (\<lambda>c. c \<noteq> CHR ''-'') (strip_by (\<lambda>c. c \<in> set ''{}'') (py_replace ''uuid:'' [] (py_replace ''urn:'' [] s))) in
      if length h \<noteq> 32 then None
      else (case int_base16 h of
          None \<Rightarrow> None
        | Some i \<Rightarrow> if 0 \<le> i \<and> i < 2 ^ 128 then Some (UUID (word_of_int i)) else None))"

definition uuid_of_json :: "json \<Rightarrow> uuid option" where
  "uuid_of_json v = (case v of JStr s \<Rightarrow> uuid_of_text s | _ \<Rightarrow> None)"

lemma strip_by_none: "(\<And>c. c \<in> set s \<Longrightarrow> \<not> P c) \<Longrightarrow> strip_by P s = s"
proof -
  assume none: "\<And>c. c \<in> set s \<Longrightarrow> \<not> P c"
  then have "dropWhile P s = s" by (cases s) auto
  moreover have "dropWhile P (rev s) = rev s" using none by (cases "rev s") (auto simp: rev_eq_Cons_iff)
  ultimately show ?thesis by (simp add: strip_by_def)
qed

lemma hex_val_bound: "hex_val c = Some v \<Longrightarrow> (of_char c :: nat) \<in> {48..57} \<union> {65..70} \<union> {97..102}"
  by (auto simp: hex_val_def Let_def split: if_splits)

lemma scan_hex_digits:
  assumes "n < 16 ^ k"
  shows "scan_hex acc ok (hex_digits k n @ rest) = scan_hex (acc * 16 ^ k + n) (ok \<or> k > 0) rest"
  using assms
proof (induction k arbitrary: n rest)
  case (Suc k)
  have n: "n div 16 < 16 ^ k" using Suc.prems by (simp add: less_mult_imp_div_less mult.commute)
  have v: "hex_val (hex_char (n mod 16)) = Some (n mod 16)" by (rule hex_val_hex_char) simp
  have "hex_char (n mod 16) \<noteq> CHR ''_''" using v by (auto simp: hex_val_def)
  then have "scan_hex acc ok (hex_digits (Suc k) n @ rest) =
      scan_hex ((acc * 16 ^ k + n div 16) * 16 + n mod 16) True rest"
    using Suc.IH[OF n, of "hex_char (n mod 16) # rest"] v by simp
  moreover have "(acc * 16 ^ k + n div 16) * 16 + n mod 16 = acc * 16 ^ Suc k + n"
    using div_mult_mod_eq[of n 16] by (simp add: algebra_simps)
  ultimately have "scan_hex acc ok (hex_digits (Suc k) n @ rest) = scan_hex (acc * 16 ^ Suc k + n) True rest"
    by (simp only:)
  then show ?case by (simp only: zero_less_Suc disj_absorb simp_thms)
qed simp

lemma hex_digits_chars: "c \<in> set (hex_digits k n) \<Longrightarrow> \<exists>v. hex_val c = Some v"
proof (induction k arbitrary: n)
  case (Suc k)
  have "hex_val (hex_char (n mod 16)) = Some (n mod 16)" by (rule hex_val_hex_char) simp
  then show ?case using Suc by auto
qed simp

lemma int_base16_hex_digits:
  assumes "n < 16 ^ k" "0 < k"
  shows "int_base16 (hex_digits k n) = Some (int n)"
proof -
  let ?s = "hex_digits k n"
  have b: "(of_char c :: nat) \<in> {48..57} \<union> {65..70} \<union> {97..102}" if "c \<in> set ?s" for c
    using hex_digits_chars[OF that] hex_val_bound by blast
  have "\<not> int_space ?s c" if "c \<in> set ?s" for c
    using b[OF that] by (auto simp: int_space_def py_space_def Let_def)
  then have "strip_by (int_space ?s) ?s = ?s" by (rule strip_by_none)
  moreover have no: "\<not> starts_with ?s (x # xs)" if "hex_val x = None" for x xs
    using hex_digits_chars[of x k n] that by (cases ?s) (auto simp: starts_with_def)
  moreover have "\<not> starts_with ?s (y # x # xs)" if "hex_val x = None" for x y xs
  proof
    assume "starts_with ?s (y # x # xs)"
    then obtain r where "?s = y # x # xs @ r" by (auto simp: starts_with_iff)
    then have "x \<in> set ?s" by simp
    then show False using hex_digits_chars[of x k n] that by auto
  qed
  ultimately show ?thesis
    using scan_hex_digits[OF assms(1), of 0 False "[]"] assms(2)
    by (simp add: int_base16_def drop_hex_prefix_def hex_val_def)
qed

lemma show_uuid_chars: "c \<in> set (show_uuid u) \<Longrightarrow> c = CHR ''-'' \<or> (\<exists>v. hex_val c = Some v)"
  by (cases u) (auto simp: show_uuid_def Let_def dest!: in_set_takeD in_set_dropD dest: hex_digits_chars)

lemma filter_show_uuid: "filter (\<lambda>c. c \<noteq> CHR ''-'') (show_uuid (UUID w)) = hex_digits 32 (unat w)"
proof -
  define h where "h = hex_digits 32 (unat w)"
  have nd: "filter (\<lambda>c. c \<noteq> CHR ''-'') t = t" if "set t \<subseteq> set h" for t
  proof -
    have "CHR ''-'' \<notin> set h"
      using hex_digits_chars[of "CHR ''-''" 32 "unat w"] unfolding h_def by (auto simp: hex_val_def)
    then show ?thesis using that by (auto intro!: filter_True)
  qed
  have sub: "set (take i (drop j h)) \<subseteq> set h" for i j by (auto dest: in_set_takeD in_set_dropD)
  have "filter (\<lambda>c. c \<noteq> CHR ''-'') (show_uuid (UUID w)) =
      take 8 (drop 0 h) @ take 4 (drop 8 h) @ take 4 (drop 12 h) @ take 4 (drop 16 h) @ drop 20 h"
    using nd[OF sub] nd[of "drop 20 h"] nd[of "take 8 h"]
    by (simp add: show_uuid_def Let_def flip: h_def) (simp add: set_drop_subset set_take_subset)
  also have "\<dots> = h"
  proof -
    have s: "drop i h = take n (drop i h) @ drop (i + n) h" for i n
      using append_take_drop_id[of n "drop i h"] by (simp add: add.commute)
    show ?thesis using s[of 0 8] s[of 8 4] s[of 12 4] s[of 16 4] by simp
  qed
  finally show ?thesis by (simp add: h_def)
qed

lemma uuid_of_show_uuid [simp]: "uuid_of_text (show_uuid u) = Some u"
proof (cases u)
  case (UUID w)
  have c: "c \<notin> set (show_uuid u)" if "hex_val c = None" "c \<noteq> CHR ''-''" for c
    using show_uuid_chars[of c u] that by auto
  have "py_replace ''urn:'' [] (show_uuid u) = show_uuid u" "py_replace ''uuid:'' [] (show_uuid u) = show_uuid u"
    by (rule py_replace_absent[of "CHR '':''"]; simp add: c hex_val_def)+
  moreover have "strip_by (\<lambda>c. c \<in> set ''{}'') (show_uuid u) = show_uuid u"
    using c by (intro strip_by_none) (auto simp: hex_val_def)
  moreover have lt: "unat w < 16 ^ 32" using unsigned_less[of w, where ?'a = nat] by simp
  moreover have "length (hex_digits 32 (unat w)) = 32" by simp
  moreover have "int (unat w) < 2 ^ 128" using unsigned_less[of w, where ?'a = int] by simp
  ultimately show ?thesis
    using int_base16_hex_digits[OF lt] by (simp add: uuid_of_text_def UUID filter_show_uuid)
qed

subsection \<open>Clients and their validation\<close>

definition SCOPES :: "string set" where
  "SCOPES = {''meeting:write'', ''meeting:read'', ''meeting:token'', ''room:read'', ''meeting:cancel''}"

text \<open>
  \<open>any(s not in SCOPES for s in scopes)\<close>: looking up an unhashable value in the set raises
  \<open>TypeError\<close>, which the source does not catch here.
\<close>

fun unknown_scope :: "json list \<Rightarrow> exn + bool" where
  "unknown_scope [] = Inr False"
| "unknown_scope (v # vs) =
     (case v of
        JStr s \<Rightarrow> if s \<in> SCOPES then unknown_scope vs else Inr True
      | JArr _ \<Rightarrow> Inl TypeError
      | JObj _ \<Rightarrow> Inl TypeError
      | _ \<Rightarrow> Inr True)"

definition networks_ok :: "json list \<Rightarrow> bool" where
  "networks_ok vs \<longleftrightarrow> list_all (\<lambda>v. ip_network_value v \<noteq> None) vs"

text \<open>\<open>IntegrationClient.clean\<close> on the submitted values of the two JSON columns.\<close>

definition client_clean :: "json \<Rightarrow> json \<Rightarrow> exn + unit" where
  "client_clean scopes allowlist =
     bind_r (case scopes of JArr xs \<Rightarrow> unknown_scope xs | _ \<Rightarrow> Inr True) (\<lambda>unknown.
       if unknown then Inl (ValidationError ''Unknown scope.'')
       else (case allowlist of
           JArr ns \<Rightarrow> if networks_ok ns then Inr ()
             else Inl (ValidationError ''Use a list of IP addresses or CIDR networks.'')
         | _ \<Rightarrow> Inl (ValidationError ''Use a list of IP addresses or CIDR networks.'')))"

definition string_items :: "json \<Rightarrow> string list" where
  "string_items v = (case v of JArr xs \<Rightarrow> map (\<lambda>x. case x of JStr s \<Rightarrow> s | _ \<Rightarrow> []) xs | _ \<Rightarrow> [])"

definition json_items :: "json \<Rightarrow> json list" where
  "json_items v = (case v of JArr xs \<Rightarrow> xs | _ \<Rightarrow> [])"

subsection \<open>Saving and rotating\<close>

definition client_violation :: "client \<Rightarrow> db \<Rightarrow> exn option" where
  "client_violation c d =
     (if \<not> (text_fits (Some 200) (c_name c) \<and> text_fits (Some 256) (c_secret_hash c)) then Some DataError
      else if list_ex (\<lambda>x. c_id x \<noteq> c_id c \<and> c_client_id x = c_client_id c) (db_clients d)
      then Some (IntegrityError ''23505'')
      else if (case c_default_preset c of None \<Rightarrow> False | Some k \<Rightarrow> row_get p_id k (db_presets d) = None)
      then Some (IntegrityError ''23503'')
      else None)"

text \<open>\<open>client.save()\<close>: an update of every column when the row exists, an insert otherwise.\<close>

definition save_client :: "int \<Rightarrow> client \<Rightarrow> db \<Rightarrow> exn + (client \<times> db)" where
  "save_client now c d =
     (let c' = (if get_client (c_id c) d = None then c\<lparr>c_created_at := now, c_updated_at := now\<rparr>
                else c\<lparr>c_updated_at := now\<rparr>) in
      case client_violation c' d of
        Some x \<Rightarrow> Inl x
      | None \<Rightarrow> Inr (c',
          if get_client (c_id c) d = None then d\<lparr>db_clients := db_clients d @ [c']\<rparr>
          else store db_clients set_clients c_id c' d))"

text \<open>
  What machine authentication takes from outside: Django's password hashers (the salt is the random
  source's choice), the hash of the dummy secret, and PyJWT's \<open>encode\<close> and \<open>decode\<close> under HS256 with
  the signing key; \<open>decode\<close> also takes the issuer, the audience, the required claims and the time.
\<close>

datatype jwt_result = JwtClaims dict | JwtExpired | JwtInvalid

record auth_env =
  a_env :: env
  a_signing_key :: string
  a_make_password :: "nat \<Rightarrow> string \<Rightarrow> string"
  a_check_password :: "string \<Rightarrow> string \<Rightarrow> bool"
  a_dummy_hash :: string
  a_jwt_encode :: "json \<Rightarrow> string \<Rightarrow> string"
  a_jwt_decode :: "string \<Rightarrow> string \<Rightarrow> string \<Rightarrow> string \<Rightarrow> string list \<Rightarrow> int \<Rightarrow> jwt_result"

text \<open>The random values of one rotation: the raw secret, the hasher's salt, the new version.\<close>

record rotation =
  rot_raw :: string
  rot_salt :: nat
  rot_version :: uuid

text \<open>
  \<open>rotate_secret\<close> of the instance \<open>c\<close>: only the secret, the version and \<open>updated_at\<close> of the row are
  written. An update that meets no row is a \<open>DatabaseError\<close>.
\<close>

definition rotate_secret :: "auth_env \<Rightarrow> int \<Rightarrow> rotation \<Rightarrow> client \<Rightarrow> db \<Rightarrow> exn + (string \<times> client \<times> db)" where
  "rotate_secret A now rot c d =
     (let secret = a_make_password A (rot_salt rot) (rot_raw rot);
          write = (\<lambda>x. x\<lparr>c_secret_hash := secret, c_token_version := rot_version rot, c_updated_at := now\<rparr>) in
      case get_client (c_id c) d of
        None \<Rightarrow> Inl DatabaseError
      | Some row \<Rightarrow>
          if \<not> text_fits (Some 256) secret then Inl DataError
          else Inr (rot_raw rot, write c, store db_clients set_clients c_id (write row) d))"

definition audit_client :: "env \<Rightarrow> int \<Rightarrow> string \<Rightarrow> client \<Rightarrow> uuid option \<Rightarrow> int option \<Rightarrow> db \<Rightarrow> db" where
  "audit_client E now action c client admin d =
     audit E now action ''integrations.IntegrationClient'' (c_id c) client admin None d"

text \<open>
  \<open>save_model\<close>; adding (\<open>not change\<close>) draws a rotation and keeps the raw secret for the response.
\<close>

definition save_client_admin ::
    "auth_env \<Rightarrow> int \<Rightarrow> admin_user \<Rightarrow> rotation option \<Rightarrow> client \<Rightarrow> db \<Rightarrow> exn + (string option \<times> db)" where
  "save_client_admin A now user adding obj d =
     bind_r (save_client now obj d) (\<lambda>(c, d1).
     bind_r (case adding of
               None \<Rightarrow> Inr (None, d1)
             | Some rot \<Rightarrow> bind_r (rotate_secret A now rot c d1) (\<lambda>(raw, _, d2). Inr (Some raw, d2))) (\<lambda>(one_time, d2).
       Inr (one_time,
         audit_client (a_env A) now (if adding = None then ''client_updated'' else ''client_created'') c None
           (Some (au_id user)) d2)))"

text \<open>The admin form: its cleaned values, the checks of the fields and of \<open>clean\<close>, the instance it hands on.\<close>

record client_form =
  cf_name :: string
  cf_is_active :: bool
  cf_scopes :: json
  cf_ip_allowlist :: json
  cf_default_preset :: "int option"

definition client_form_clean :: "client_form \<Rightarrow> exn + unit" where
  "client_form_clean f =
     (if cf_name f = [] \<or> cf_scopes f \<in> {JArr [], JObj [], JStr [], JNull}
      then Inl (ValidationError ''This field is required.'')
      else client_clean (cf_scopes f) (cf_ip_allowlist f))"

definition form_client :: "client \<Rightarrow> client_form \<Rightarrow> client" where
  "form_client c f = c\<lparr>c_name := cf_name f, c_is_active := cf_is_active f,
     c_scopes := string_items (cf_scopes f), c_ip_allowlist := json_items (cf_ip_allowlist f),
     c_default_preset := cf_default_preset f\<rparr>"

definition change_client :: "auth_env \<Rightarrow> int \<Rightarrow> admin_user \<Rightarrow> client \<Rightarrow> client_form \<Rightarrow> db \<Rightarrow> exn + db" where
  "change_client A now user obj f d =
     bind_r (client_form_clean f) (\<lambda>_.
     bind_r (save_client_admin A now user None (form_client obj f) d) (\<lambda>(_, d1). Inr d1))"

definition new_client :: "uuid \<Rightarrow> uuid \<Rightarrow> uuid \<Rightarrow> client" where
  "new_client k cid ver = \<lparr>c_id = k, c_name = [], c_client_id = cid, c_secret_hash = [], c_token_version = ver,
     c_is_active = True, c_scopes = [], c_ip_allowlist = [], c_default_preset = None, c_last_used_at = None,
     c_created_at = 0, c_updated_at = 0\<rparr>"

definition add_client ::
    "auth_env \<Rightarrow> int \<Rightarrow> admin_user \<Rightarrow> rotation \<Rightarrow> client \<Rightarrow> client_form \<Rightarrow> db \<Rightarrow> exn + (string option \<times> db)" where
  "add_client A now user rot fresh f d =
     bind_r (client_form_clean f) (\<lambda>_.
       save_client_admin A now user (Some rot) (form_client fresh f) d)"

text \<open>The action \<open>rotate_secret\<close> of the changelist: \<open>None\<close> when not exactly one client is selected.\<close>

definition rotate_secret_action ::
    "auth_env \<Rightarrow> int \<Rightarrow> admin_user \<Rightarrow> rotation \<Rightarrow> uuid list \<Rightarrow> db \<Rightarrow> exn + (string option \<times> db)" where
  "rotate_secret_action A now user rot selected d =
     (case filter (\<lambda>c. c_id c \<in> set selected) (db_clients d) of
        [c] \<Rightarrow> bind_r (rotate_secret A now rot c d) (\<lambda>(raw, c1, d1).
                Inr (Some raw, audit_client (a_env A) now ''client_secret_rotated'' c1 None (Some (au_id user)) d1))
      | _ \<Rightarrow> Inr (None, d))"

subsection \<open>The invariant of the client table\<close>

text \<open>
  Unique ids and client ids, known scopes only, parsable allow lists; with \<open>clients_wf\<close> also the
  foreign keys. \<open>client_step\<close> is what every operation on clients does to the database: the client
  table keeps its rows and its validity, the audit trail is extended, nothing else changes.
\<close>

definition client_row_ok :: "client \<Rightarrow> bool" where
  "client_row_ok c \<longleftrightarrow> set (c_scopes c) \<subseteq> SCOPES \<and> networks_ok (c_ip_allowlist c)"

definition credentials_wf :: "db \<Rightarrow> bool" where
  "credentials_wf d \<longleftrightarrow> distinct (map c_client_id (db_clients d)) \<and> (\<forall>c \<in> set (db_clients d). client_row_ok c)"

definition clients_valid :: "db \<Rightarrow> bool" where
  "clients_valid d \<longleftrightarrow> clients_wf d \<and> credentials_wf d"

definition client_step :: "db \<Rightarrow> db \<Rightarrow> bool" where
  "client_step d d' \<longleftrightarrow>
     db_meetings d' = db_meetings d \<and> db_rooms d' = db_rooms d \<and> db_presets d' = db_presets d \<and>
     (\<exists>ks. map c_id (db_clients d') = map c_id (db_clients d) @ ks) \<and>
     (\<exists>as. db_audit d' = db_audit d @ as) \<and> (clients_valid d \<longrightarrow> clients_valid d')"

lemma client_step_refl [simp]: "client_step d d"
  by (simp add: client_step_def)

lemma client_step_trans: "client_step d d' \<Longrightarrow> client_step d' d'' \<Longrightarrow> client_step d d''"
  by (auto simp: client_step_def)

lemma clients_valid_cong:
  "db_clients d' = db_clients d \<Longrightarrow> db_presets d' = db_presets d \<Longrightarrow> clients_valid d' = clients_valid d"
  by (simp add: clients_valid_def clients_wf_def credentials_wf_def)

lemma client_step_audit [simp]: "client_step d (audit E now a l ob c ad p d)"
  using clients_valid_cong[of "audit E now a l ob c ad p d" d] by (simp add: client_step_def audit_def audit_record_def)

lemma client_step_audit_client [simp]: "client_step d (audit_client E now a c cl ad d)"
  by (simp add: audit_client_def)

lemma client_step_db_wf: "client_step d d' \<Longrightarrow> db_wf d \<Longrightarrow> clients_valid d \<Longrightarrow> db_wf d'"
proof -
  assume s: "client_step d d'" and wf: "db_wf d" "clients_valid d"
  obtain ks where ks: "map c_id (db_clients d') = map c_id (db_clients d) @ ks"
    using s by (auto simp: client_step_def)
  have "get_client k d' \<noteq> None" if "get_client k d \<noteq> None" for k
  proof -
    have "k \<in> set (map c_id (db_clients d))" using that by (simp add: fetch_def row_get_None_iff)
    then have "k \<in> set (map c_id (db_clients d'))" by (simp only: ks set_append) simp
    then show ?thesis by (simp add: fetch_def row_get_None_iff)
  qed
  then show ?thesis
    using s wf unfolding db_wf_def
    by (simp add: client_step_def clients_valid_def meetings_wf_def rooms_wf_def refs_wf_def fetch_def[of db_rooms])
qed

locale client_transaction =
  fixes run :: "db \<Rightarrow> exn + ('a \<times> db)"
  assumes step: "run d = Inr (x, d') \<Longrightarrow> client_step d d'"
begin

lemma keeps_valid: "run d = Inr (x, d') \<Longrightarrow> clients_valid d \<Longrightarrow> clients_valid d'"
  using step by (auto simp: client_step_def)

lemma keeps_db_wf: "run d = Inr (x, d') \<Longrightarrow> db_wf d \<Longrightarrow> clients_valid d \<Longrightarrow> db_wf d'"
  using step by (rule client_step_db_wf)

lemma keeps_meetings: "run d = Inr (x, d') \<Longrightarrow> db_meetings d' = db_meetings d"
  using step by (auto simp: client_step_def)

lemma keeps_rooms: "run d = Inr (x, d') \<Longrightarrow> db_rooms d' = db_rooms d"
  using step by (auto simp: client_step_def)

lemma extends_audit: "run d = Inr (x, d') \<Longrightarrow> \<exists>as. db_audit d' = db_audit d @ as"
  using step by (auto simp: client_step_def)

end

text \<open>Writing one row of the client table.\<close>

lemma distinct_row_put:
  assumes "distinct (map f rows)" and "\<And>x. x \<in> set rows \<Longrightarrow> key x \<noteq> key r \<Longrightarrow> f x \<noteq> f r"
    and "distinct (map key rows)"
  shows "distinct (map f (row_put key r rows))"
  using assms
proof (induction rows)
  case (Cons x xs)
  have nin: "f r \<notin> f ` set (row_put key r xs)" if "key x = key r"
  proof -
    have "row_put key r xs = xs"
      using Cons.prems(3) that by (induction xs) auto
    then show ?thesis using Cons.prems that by (auto simp: image_iff) (metis Cons.prems(3) distinct.simps(2) image_eqI list.simps(9) set_map)
  qed
  have "f x \<notin> f ` set (row_put key r xs)" if "key x \<noteq> key r"
    using Cons.prems(1,2) that by (auto dest!: set_row_put_subset')
  then show ?case using Cons nin by (cases "key x = key r") auto
qed simp

lemma client_store_valid:
  assumes v: "clients_valid d" and ok: "client_row_ok c"
    and other: "\<And>x. x \<in> set (db_clients d) \<Longrightarrow> c_id x \<noteq> c_id c \<Longrightarrow> c_client_id x \<noteq> c_client_id c"
    and fk: "\<And>k. c_default_preset c = Some k \<Longrightarrow> row_get p_id k (db_presets d) \<noteq> None"
  shows "clients_valid (store db_clients set_clients c_id c d)"
proof -
  let ?d = "store db_clients set_clients c_id c d"
  have rows: "db_clients ?d = row_put c_id c (db_clients d)" by (rule client_tbl.rows_of_store)
  have pre: "db_presets ?d = db_presets d" by (simp add: store_def)
  have mem: "x = c \<or> x \<in> set (db_clients d)" if "x \<in> set (db_clients ?d)" for x
    using that by (auto simp: rows dest: set_row_put_subset')
  have "row_get p_id k (db_presets d) \<noteq> None"
    if "x \<in> set (db_clients ?d)" "c_default_preset x = Some k" for x k
    using mem[OF that(1)] that(2) fk v unfolding clients_valid_def clients_wf_def by blast
  then have "clients_wf ?d"
    unfolding clients_wf_def pre
    using v client_tbl.keys_store[of c d] by (auto simp: clients_valid_def clients_wf_def)
  moreover have "client_row_ok x" if "x \<in> set (db_clients ?d)" for x
    using mem[OF that] ok v by (auto simp: clients_valid_def credentials_wf_def)
  moreover have "distinct (map c_client_id (db_clients ?d))"
    using v distinct_row_put[of c_client_id "db_clients d" c_id c] other
    by (simp add: rows clients_valid_def clients_wf_def credentials_wf_def)
  ultimately have "clients_wf ?d" "credentials_wf ?d" by (simp_all add: credentials_wf_def)
  then show ?thesis by (simp add: clients_valid_def)
qed

lemma client_violationD:
  assumes "client_violation c d = None"
  shows "x \<in> set (db_clients d) \<Longrightarrow> c_id x \<noteq> c_id c \<Longrightarrow> c_client_id x \<noteq> c_client_id c"
    and "c_default_preset c = Some k \<Longrightarrow> row_get p_id k (db_presets d) \<noteq> None"
  using assms by (auto simp: client_violation_def list_ex_iff split: if_splits)

text \<open>A rewrite of a row that keeps its identity and what \<open>client_row_ok\<close> reads.\<close>

lemma client_rewrite_step:
  assumes "get_client (c_id c) d = Some row" and "c_id c = c_id row" "c_client_id c = c_client_id row"
    "c_default_preset c = c_default_preset row" "c_scopes c = c_scopes row" "c_ip_allowlist c = c_ip_allowlist row"
  shows "client_step d (store db_clients set_clients c_id c d)"
proof -
  have row: "row \<in> set (db_clients d)" using assms(1) by (rule client_tbl.fetch_mem)
  have inj: "c_client_id x \<noteq> c_client_id c"
    if v: "clients_valid d" and "x \<in> set (db_clients d)" "c_id x \<noteq> c_id c" for x
  proof
    assume "c_client_id x = c_client_id c"
    then have "x = row"
      using v that(2) row assms(3)
      by (auto simp: clients_valid_def credentials_wf_def distinct_map dest: inj_onD)
    with that(3) assms(2) show False by simp
  qed
  have "clients_valid (store db_clients set_clients c_id c d)" if v: "clients_valid d"
  proof (rule client_store_valid[OF v])
    show "client_row_ok c"
      using v row assms(5,6) by (auto simp: clients_valid_def credentials_wf_def client_row_ok_def)
    show "row_get p_id k (db_presets d) \<noteq> None" if "c_default_preset c = Some k" for k
      using v row assms(4) that unfolding clients_valid_def clients_wf_def by auto
  qed (rule inj[OF v])
  then show ?thesis by (simp add: client_step_def client_tbl.keys_store) (simp add: store_def)
qed

lemma rotate_secretD:
  assumes "rotate_secret A now rot c d = Inr (raw, c', d')"
  obtains row where "get_client (c_id c) d = Some row" "raw = rot_raw rot"
    "c' = c\<lparr>c_secret_hash := a_make_password A (rot_salt rot) (rot_raw rot), c_token_version := rot_version rot,
       c_updated_at := now\<rparr>"
    "d' = store db_clients set_clients c_id (row\<lparr>c_secret_hash := a_make_password A (rot_salt rot) (rot_raw rot),
       c_token_version := rot_version rot, c_updated_at := now\<rparr>) d"
  using assms by (auto simp: rotate_secret_def Let_def split: option.splits if_splits)

lemma rotate_secret_step:
  assumes "rotate_secret A now rot c d = Inr (raw, c', d')"
  shows "client_step d d'"
  using assms
proof (rule rotate_secretD)
  fix row
  assume r: "get_client (c_id c) d = Some row"
    and d': "d' = store db_clients set_clients c_id (row\<lparr>c_secret_hash := a_make_password A (rot_salt rot) (rot_raw rot),
       c_token_version := rot_version rot, c_updated_at := now\<rparr>) d"
  have "c_id c = c_id row" using r by (auto dest: client_tbl.fetch_keyD)
  then show "client_step d d'" unfolding d' using r by (intro client_rewrite_step[where row = row]) simp_all
qed

lemma save_client_step:
  assumes "save_client now c d = Inr (c', d')" and "client_row_ok c"
  shows "client_step d d'"
proof (cases "get_client (c_id c) d")
  case None
  let ?c = "c\<lparr>c_created_at := now, c_updated_at := now\<rparr>"
  have d': "d' = d\<lparr>db_clients := db_clients d @ [?c]\<rparr>" and viol: "client_violation ?c d = None"
    using assms None by (auto simp: save_client_def Let_def split: option.splits)
  have new: "c_id c \<notin> c_id ` set (db_clients d)" using None by (simp add: fetch_def row_get_None_iff)
  then have "c_client_id c \<notin> c_client_id ` set (db_clients d)"
    using client_violationD(1)[OF viol] by (auto simp: image_iff) (metis image_eqI)
  then have "clients_valid d'" if "clients_valid d"
    using that new assms(2) client_violationD(2)[OF viol]
    by (auto simp: d' clients_valid_def clients_wf_def credentials_wf_def client_row_ok_def)
  then show ?thesis by (simp add: client_step_def d')
next
  case (Some row)
  let ?c = "c\<lparr>c_updated_at := now\<rparr>"
  have d': "d' = store db_clients set_clients c_id ?c d" and viol: "client_violation ?c d = None"
    using assms Some by (auto simp: save_client_def Let_def split: option.splits)
  have "clients_valid d'" if "clients_valid d"
    unfolding d' using that
  proof (rule client_store_valid)
    show "client_row_ok ?c" using assms(2) by (simp add: client_row_ok_def)
  qed (rule client_violationD[OF viol]; simp)+
  then show ?thesis by (simp add: client_step_def d' client_tbl.keys_store) (simp add: store_def)
qed

lemma unknown_scope_False: "unknown_scope vs = Inr False \<Longrightarrow> set (string_items (JArr vs)) \<subseteq> SCOPES"
  by (induction vs) (auto simp: string_items_def split: json.splits if_splits)

lemma client_form_clean_ok: "client_form_clean f = Inr () \<Longrightarrow> client_row_ok (form_client c f)"
  by (auto simp: client_form_clean_def client_clean_def form_client_def client_row_ok_def json_items_def
      bind_r_Inr_iff dest: unknown_scope_False[THEN subsetD] split: json.splits if_splits)

lemma save_client_admin_step:
  assumes "save_client_admin A now user adding c d = Inr (one_time, d')" and ok: "client_row_ok c"
  shows "client_step d d'"
proof -
  obtain c1 d1 where s: "save_client now c d = Inr (c1, d1)"
    using assms(1) by (auto simp: save_client_admin_def bind_r_Inr_iff)
  have "\<exists>d2 a. (d2 = d1 \<or> (\<exists>rot raw c2. rotate_secret A now rot c1 d1 = Inr (raw, c2, d2))) \<and>
      d' = audit_client (a_env A) now a c1 None (Some (au_id user)) d2"
    using assms(1) s by (cases adding) (auto simp: save_client_admin_def bind_r_Inr_iff)
  then obtain d2 where "client_step d1 d2"
    and d': "\<exists>a. d' = audit_client (a_env A) now a c1 None (Some (au_id user)) d2"
    using rotate_secret_step client_step_refl by metis
  then show ?thesis
    using d' client_step_trans[OF save_client_step[OF s ok]] client_step_trans client_step_audit_client by metis
qed

interpretation change_tx: client_transaction "\<lambda>d. bind_r (change_client A now user obj f d) (\<lambda>d1. Inr ((), d1))"
  by unfold_locales (auto simp: change_client_def bind_r_Inr_iff split: prod.splits
      intro: save_client_admin_step client_form_clean_ok)

interpretation add_tx: client_transaction "add_client A now user rot fresh f"
  by unfold_locales (auto simp: add_client_def bind_r_Inr_iff intro: save_client_admin_step client_form_clean_ok)

interpretation rotate_tx: client_transaction "rotate_secret_action A now user rot selected"
proof
  fix d x d'
  assume r: "rotate_secret_action A now user rot selected d = Inr (x, d')"
  show "client_step d d'"
  proof (cases "\<exists>c. filter (\<lambda>c. c_id c \<in> set selected) (db_clients d) = [c]")
    case True
    then obtain c raw c1 d1 where "rotate_secret A now rot c d = Inr (raw, c1, d1)"
        "d' = audit_client (a_env A) now ''client_secret_rotated'' c1 None (Some (au_id user)) d1"
      using r by (auto simp: rotate_secret_action_def bind_r_Inr_iff)
    then show ?thesis using client_step_trans[OF rotate_secret_step] by simp
  next
    case False
    then have "d' = d" using r by (auto simp: rotate_secret_action_def split: list.splits)
    then show ?thesis by simp
  qed
qed

subsection \<open>Two gaps of the client form\<close>

text \<open>
  A scope list with a list or an object in it ends the validation in an uncaught \<open>TypeError\<close>
  (\<open>s not in SCOPES\<close> of an unhashable value) where a form error is meant.
\<close>

lemma unhashable_scope_crashes: "client_clean (JArr (JArr xs # vs)) allowlist = Inl TypeError"
  by (simp add: client_clean_def)

text \<open>
  The change form writes every column of the object it loaded: saved after a rotation that came in
  between, it puts the old secret hash and version back, and with them every revoked token.
\<close>

lemma stale_client_form_restores_secret:
  assumes "change_client A now user obj f d = Inr d'" and "get_client (c_id obj) d \<noteq> None"
  shows "\<exists>row. get_client (c_id obj) d' = Some row \<and> c_secret_hash row = c_secret_hash obj \<and>
    c_token_version row = c_token_version obj"
proof -
  obtain c1 d1 where s: "save_client now (form_client obj f) d = Inr (c1, d1)"
    and d': "db_clients d' = db_clients d1"
    using assms(1) by (auto simp: change_client_def save_client_admin_def bind_r_Inr_iff audit_client_def)
  have id: "c_id (form_client obj f) = c_id obj" by (simp add: form_client_def)
  then have c1: "c1 = (form_client obj f)\<lparr>c_updated_at := now\<rparr>"
    and d1: "d1 = store db_clients set_clients c_id c1 d"
    using s assms(2) by (auto simp: save_client_def Let_def split: option.splits if_splits)
  have "c_id c1 = c_id obj" by (simp add: c1 id)
  then have "get_client (c_id obj) d1 = Some c1"
    using client_tbl.fetch_store_same[of c1 d] assms(2) by (simp add: d1)
  then show ?thesis using d' by (simp add: fetch_def c1 form_client_def)
qed

end
