(* ===== verification/Machine_Auth.thy ===== *)
theory Machine_Auth
  imports Clients
begin

text \<open>
  \<open>apps/integrations/tokens.py\<close>, \<open>apps/integrations/authentication.py\<close> and the token view of
  \<open>apps/integrations/views.py\<close>: the exchange of client credentials for a gateway token, its throttle,
  and the check of a presented token against the client's current row. The properties follow a
  token from its issue to its expiry or revocation.
\<close>

subsection \<open>Allow list and throttle\<close>

text \<open>\<open>any(address in ip_network(n) for n in ...)\<close>: a member that is no network ends the search with \<open>False\<close>.\<close>

fun any_network :: "ip_address \<Rightarrow> json list \<Rightarrow> bool" where
  "any_network a [] = False"
| "any_network a (v # vs) =
     (case ip_network_value v of
        None \<Rightarrow> False | Some net \<Rightarrow> if address_in a net then True else any_network a vs)"

definition ip_allowed :: "client \<Rightarrow> string \<Rightarrow> bool" where
  "ip_allowed c remote =
     (if c_ip_allowlist c = [] then True
      else (case ip_address remote of None \<Rightarrow> False | Some a \<Rightarrow> any_network a (c_ip_allowlist c)))"

lemma ip_allowed_cong: "c_ip_allowlist a = c_ip_allowlist b \<Longrightarrow> ip_allowed a remote = ip_allowed b remote"
  by (simp only: ip_allowed_def)

definition minute_of :: "int \<Rightarrow> int" where
  "minute_of now = now div second_us div 60"

definition throttle_key :: "string \<Rightarrow> int \<Rightarrow> string" where
  "throttle_key remote now = ''gateway-token-limit:'' @ remote @ '':'' @ show_int (minute_of now)"

text \<open>\<open>INCR\<close> and \<open>EXPIRE 120\<close> in one transaction; the counter is stored as its decimal text.\<close>

definition throttle_exchange :: "string \<Rightarrow> world \<Rightarrow> (exn + unit) \<times> world" where
  "throttle_exchange remote w =
     (if \<not> w_redis_up w then (Inl RedisError, w)
      else
        (let bucket = throttle_key remote (w_now w);
             count = (case cache_get bucket w of None \<Rightarrow> 0 | Some s \<Rightarrow> nat_of_digits s) + 1;
             w1 = cache_setex bucket 120 (show_nat count) w
         in (if count > 60 then Inl (Throttled 60) else Inr (), w1)))"

subsection \<open>Credentials\<close>

definition invalid :: "string \<Rightarrow> exn + 'a" where
  "invalid code = Inl (MachineAuthenticationError code)"

definition client_by_client_id :: "uuid \<Rightarrow> db \<Rightarrow> client option" where
  "client_by_client_id k d = List.find (\<lambda>c. c_client_id c = k) (db_clients d)"

definition authenticate_credentials :: "auth_env \<Rightarrow> string \<Rightarrow> string \<Rightarrow> string \<Rightarrow> db \<Rightarrow> exn + client" where
  "authenticate_credentials A client_id secret remote d =
     (let found = (case uuid_of_text client_id of None \<Rightarrow> None | Some k \<Rightarrow> client_by_client_id k d);
          valid = a_check_password A secret (case found of Some c \<Rightarrow> c_secret_hash c | None \<Rightarrow> a_dummy_hash A)
      in case found of
           None \<Rightarrow> invalid ''INVALID_CLIENT''
         | Some c \<Rightarrow>
             if \<not> valid \<or> \<not> c_is_active c \<or> \<not> ip_allowed c remote then invalid ''INVALID_CLIENT'' else Inr c)"

subsection \<open>Tokens\<close>

definition GATEWAY_JWT_ISSUER :: string where "GATEWAY_JWT_ISSUER = ''meeting-gateway''"
definition GATEWAY_JWT_AUDIENCE :: string where "GATEWAY_JWT_AUDIENCE = ''meeting-gateway-api''"

definition required_claims :: "string list" where
  "required_claims = [''sub'', ''client_id'', ''scopes'', ''iat'', ''exp'', ''jti'', ''ver'', ''iss'', ''aud'']"

text \<open>\<open>sorted(set(xs))\<close>.\<close>

definition sorted_set :: "string list \<Rightarrow> string list" where
  "sorted_set xs = sort (remdups xs)"

abbreviation token_ttl_seconds :: "auth_env \<Rightarrow> int" where
  "token_ttl_seconds A \<equiv> GATEWAY_ACCESS_TOKEN_TTL_SECONDS (e_settings (a_env A))"

definition token_claims :: "auth_env \<Rightarrow> int \<Rightarrow> uuid \<Rightarrow> client \<Rightarrow> dict" where
  "token_claims A now jti c =
     (let issued = now div second_us in
      [(''sub'', JStr (show_uuid (c_id c))),
       (''client_id'', JStr (show_uuid (c_client_id c))),
       (''scopes'', JArr (map JStr (sorted_set (c_scopes c)))),
       (''iat'', JInt issued),
       (''exp'', JInt (issued + token_ttl_seconds A)),
       (''jti'', JStr (show_uuid jti)),
       (''ver'', JStr (show_uuid (c_token_version c))),
       (''iss'', JStr GATEWAY_JWT_ISSUER),
       (''aud'', JStr GATEWAY_JWT_AUDIENCE)])"

definition issue_token :: "auth_env \<Rightarrow> int \<Rightarrow> uuid \<Rightarrow> client \<Rightarrow> string" where
  "issue_token A now jti c = a_jwt_encode A (JObj (token_claims A now jti c)) (a_signing_key A)"

definition claim :: "dict \<Rightarrow> string \<Rightarrow> exn + json" where
  "claim d k = (case map_of d k of None \<Rightarrow> Inl KeyError | Some v \<Rightarrow> Inr v)"

definition uuid_claim :: "dict \<Rightarrow> string \<Rightarrow> exn + uuid" where
  "uuid_claim d k = bind_r (claim d k) (\<lambda>v. case uuid_of_json v of None \<Rightarrow> invalid ''INVALID_TOKEN'' | Some u \<Rightarrow> Inr u)"

definition known_scope :: "json \<Rightarrow> bool" where
  "known_scope v = (case v of JStr s \<Rightarrow> s \<in> SCOPES | _ \<Rightarrow> False)"

text \<open>The types of the three remaining claims: the scopes they allow, or the \<open>ValueError\<close>.\<close>

definition typed_claims :: "json \<Rightarrow> json \<Rightarrow> json \<Rightarrow> bool" where
  "typed_claims iat ex scopes = (case (iat, ex, scopes) of
     (JInt i, JInt e, JArr vs) \<Rightarrow> \<not> e \<le> i \<and> list_all known_scope vs
   | _ \<Rightarrow> False)"

definition decoded_claims :: "auth_env \<Rightarrow> int \<Rightarrow> string \<Rightarrow> exn + (uuid \<times> dict)" where
  "decoded_claims A now token =
     (case a_jwt_decode A token (a_signing_key A) GATEWAY_JWT_ISSUER GATEWAY_JWT_AUDIENCE required_claims now of
        JwtExpired \<Rightarrow> invalid ''TOKEN_EXPIRED''
      | JwtInvalid \<Rightarrow> invalid ''INVALID_TOKEN''
      | JwtClaims d \<Rightarrow>
          bind_r (uuid_claim d ''sub'') (\<lambda>identifier.
          bind_r (uuid_claim d ''client_id'') (\<lambda>_.
          bind_r (uuid_claim d ''jti'') (\<lambda>_.
          bind_r (uuid_claim d ''ver'') (\<lambda>_.
          bind_r (claim d ''iat'') (\<lambda>iat.
          bind_r (claim d ''exp'') (\<lambda>ex.
          bind_r (claim d ''scopes'') (\<lambda>scopes.
            if typed_claims iat ex scopes then Inr (identifier, d) else invalid ''INVALID_TOKEN''))))))))"

definition touch_client :: "int \<Rightarrow> client \<Rightarrow> db \<Rightarrow> db" where
  "touch_client now c d =
     (case get_client (c_id c) d of
        None \<Rightarrow> d | Some row \<Rightarrow> store db_clients set_clients c_id (row\<lparr>c_last_used_at := Some now\<rparr>) d)"

text \<open>
  \<open>validate_token\<close>: the principal is the client's row with the scopes both the row and the token
  name; the row's \<open>last_used_at\<close> is written.
\<close>

definition validate_token :: "auth_env \<Rightarrow> int \<Rightarrow> string \<Rightarrow> string \<Rightarrow> db \<Rightarrow> exn + ((client \<times> dict) \<times> db)" where
  "validate_token A now token remote d =
     bind_r (decoded_claims A now token) (\<lambda>(identifier, claims).
       case get_client identifier d of
         None \<Rightarrow> invalid ''INVALID_TOKEN''
       | Some c \<Rightarrow>
           bind_r (claim claims ''client_id'') (\<lambda>cid.
           bind_r (claim claims ''ver'') (\<lambda>ver.
           bind_r (claim claims ''scopes'') (\<lambda>scopes.
             if \<not> c_is_active c \<or> JStr (show_uuid (c_client_id c)) \<noteq> cid \<or>
                JStr (show_uuid (c_token_version c)) \<noteq> ver \<or> \<not> ip_allowed c remote
             then invalid ''INVALID_TOKEN''
             else Inr ((c\<lparr>c_scopes := sorted_set (filter (\<lambda>s. s \<in> set (string_items scopes)) (c_scopes c))\<rparr>, claims),
                       touch_client now c d)))))"

subsection \<open>The authentication class\<close>

definition bytes_space :: "char \<Rightarrow> bool" where
  "bytes_space c = (let n = (of_char c :: nat) in 9 \<le> n \<and> n \<le> 13 \<or> n = 32)"

text \<open>\<open>bytes.split()\<close>; the first argument is the word being read, reversed.\<close>

fun split_words :: "string \<Rightarrow> string \<Rightarrow> string list" where
  "split_words word [] = (if word = [] then [] else [rev word])"
| "split_words word (c # cs) =
     (if bytes_space c then (if word = [] then split_words [] cs else rev word # split_words [] cs)
      else split_words (c # word) cs)"

definition authenticate_request :: "auth_env \<Rightarrow> int \<Rightarrow> string \<Rightarrow> string \<Rightarrow> db \<Rightarrow> exn + ((client \<times> dict) \<times> db)" where
  "authenticate_request A now header remote d =
     (case split_words [] header of
        [scheme, token] \<Rightarrow>
          if lower scheme \<noteq> ''bearer'' \<or> length token > 16384 then invalid ''INVALID_TOKEN''
          else if \<not> list_all (\<lambda>c. (of_char c :: nat) < 128) token then invalid ''INVALID_TOKEN''
          else validate_token A now token remote d
      | _ \<Rightarrow> invalid ''INVALID_TOKEN'')"

subsection \<open>The token endpoint\<close>

text \<open>
  The REST framework's fields are parameters of the model: \<open>CharField\<close> by its \<open>trim_whitespace\<close> and
  \<open>max_length\<close>, \<open>DateField\<close>, \<open>DateTimeField\<close>, \<open>UUIDField\<close>, \<open>IntegerField\<close>, each from a submitted value to the
  validated one (\<open>None\<close> is a field error); its exception handler (the status and the details, \<open>None\<close> for an exception
  it does not know) and the \<open>default_code\<close> of its exceptions; Django's \<open>parse_datetime\<close> (\<open>None\<close> is its
  \<open>ValueError\<close>); and PostgreSQL's \<open>UPPER\<close>.
\<close>

record drf =
  d_char :: "bool \<Rightarrow> nat option \<Rightarrow> json \<Rightarrow> string option"
  d_date :: "json \<Rightarrow> int option"
  d_datetime :: "json \<Rightarrow> datetime option"
  d_uuid :: "json \<Rightarrow> uuid option"
  d_integer :: "json \<Rightarrow> int option"
  d_parse_datetime :: "string \<Rightarrow> datetime option option"
  d_handler :: "exn \<Rightarrow> (nat \<times> json) option"
  d_default_code :: "exn \<Rightarrow> string option"
  d_upper :: "string \<Rightarrow> string"

text \<open>The fields of a submitted mapping: a required one that is missing is an error.\<close>

definition required_field :: "(json \<Rightarrow> 'a option) \<Rightarrow> dict \<Rightarrow> string \<Rightarrow> 'a option" where
  "required_field f data name = Option.bind (map_of data name) f"

definition token_request :: "drf \<Rightarrow> json \<Rightarrow> (string \<times> string) option" where
  "token_request D data = (case data of
     JObj kvs \<Rightarrow>
       (case (required_field (d_char D True (Some 36)) kvs ''client_id'',
              required_field (d_char D False (Some 256)) kvs ''client_secret'') of
          (Some i, Some s) \<Rightarrow> Some (i, s)
        | _ \<Rightarrow> None)
   | _ \<Rightarrow> None)"

definition token_response :: "auth_env \<Rightarrow> string \<Rightarrow> client \<Rightarrow> json" where
  "token_response A token c =
     JObj [(''success'', JBool True),
       (''data'', JObj [(''accessToken'', JStr token), (''tokenType'', JStr ''Bearer''),
          (''expiresIn'', JInt (token_ttl_seconds A)),
          (''scopes'', JArr (map JStr (sorted_set (c_scopes c))))])]"

text \<open>
  \<open>request.data\<close> is parsed when it is first read, after the throttle: it is the parsed body or the
  parser's exception.
\<close>

definition token_exchange ::
    "auth_env \<Rightarrow> drf \<Rightarrow> string \<Rightarrow> uuid \<Rightarrow> exn + json \<Rightarrow> world \<Rightarrow> (exn + json) \<times> world" where
  "token_exchange A D remote jti data w =
     bind_w (throttle_exchange remote w) (\<lambda>_ w1.
     bind_w (data, w1) (\<lambda>body w1.
       case token_request D body of
         None \<Rightarrow> (invalid ''INVALID_CLIENT'', w1)
       | Some (client_id, secret) \<Rightarrow>
           (case authenticate_credentials A client_id secret remote (w_db w1) of
              Inl x \<Rightarrow> (Inl x, w1)
            | Inr c \<Rightarrow>
                (Inr (token_response A (issue_token A (w_now w1) jti c) c),
                 w1\<lparr>w_db := audit_client (a_env A) (w_now w1) ''gateway_token_issued'' c (Some (c_id c)) None
                      (touch_client (w_now w1) c (w_db w1))\<rparr>))))"

subsection \<open>What is relied on\<close>

text \<open>
  PyJWT's documented behaviour: a claim set that JSON can represent, with every required claim, the
  expected issuer and audience, textual \<open>sub\<close> and \<open>jti\<close>, no \<open>nbf\<close> and an \<open>iat\<close> not in the future, is
  read back under the same key until \<open>exp\<close>, when it is reported expired; whatever is read back has the required
  claims and an \<open>exp\<close> in the future; the claims are those of the token, whenever it is read.
  Django's documented behaviour: a password matches its own hash, which is never empty or too long.
\<close>

definition claim_given :: "dict \<Rightarrow> string \<Rightarrow> bool" where
  "claim_given kvs k = (case map_of kvs k of None \<Rightarrow> False | Some v \<Rightarrow> v \<noteq> JNull)"

definition issuable :: "dict \<Rightarrow> string \<Rightarrow> string \<Rightarrow> string list \<Rightarrow> bool" where
  "issuable kvs iss aud req \<longleftrightarrow>
     json_ok (JObj kvs) \<and> map_of kvs ''iss'' = Some (JStr iss) \<and> map_of kvs ''aud'' = Some (JStr aud) \<and>
     (\<exists>s. map_of kvs ''sub'' = Some (JStr s)) \<and> (\<exists>s. map_of kvs ''jti'' = Some (JStr s)) \<and>
     map_of kvs ''nbf'' = None \<and> list_all (claim_given kvs) req"

definition jwt_ok :: "auth_env \<Rightarrow> bool" where
  "jwt_ok A \<longleftrightarrow>
     (\<forall>kvs key iss aud req now i e.
        issuable kvs iss aud req \<and> map_of kvs ''iat'' = Some (JInt i) \<and> map_of kvs ''exp'' = Some (JInt e) \<and>
        i * second_us \<le> now \<longrightarrow>
        a_jwt_decode A (a_jwt_encode A (JObj kvs) key) key iss aud req now =
          (if e * second_us \<le> now then JwtExpired else JwtClaims kvs)) \<and>
     (\<forall>tok key iss aud req now kvs. a_jwt_decode A tok key iss aud req now = JwtClaims kvs \<longrightarrow>
        (\<forall>k \<in> set req. map_of kvs k \<noteq> None) \<and>
        (\<forall>e. map_of kvs ''exp'' = Some (JInt e) \<longrightarrow> now < e * second_us) \<and>
        (\<forall>now' kvs'. a_jwt_decode A tok key iss aud req now' = JwtClaims kvs' \<longrightarrow> kvs' = kvs))"

definition hasher_ok :: "auth_env \<Rightarrow> bool" where
  "hasher_ok A \<longleftrightarrow> (\<forall>salt s. a_check_password A s (a_make_password A salt s))"

lemma jwt_ok_read:
  assumes "jwt_ok A" "issuable kvs iss aud req" "map_of kvs ''iat'' = Some (JInt i)"
    "map_of kvs ''exp'' = Some (JInt e)" "i * second_us \<le> now"
  shows "a_jwt_decode A (a_jwt_encode A (JObj kvs) key) key iss aud req now =
    (if e * second_us \<le> now then JwtExpired else JwtClaims kvs)"
  using assms unfolding jwt_ok_def by blast

lemma jwt_ok_sound:
  assumes "jwt_ok A" "a_jwt_decode A tok key iss aud req now = JwtClaims kvs"
  shows "k \<in> set req \<Longrightarrow> map_of kvs k \<noteq> None"
    and "map_of kvs ''exp'' = Some (JInt e) \<Longrightarrow> now < e * second_us"
    and "a_jwt_decode A tok key iss aud req now' = JwtClaims kvs' \<Longrightarrow> kvs' = kvs"
  using assms unfolding jwt_ok_def by blast+

subsection \<open>Lemmas on tokens\<close>

lemma set_sorted_set [simp]: "set (sorted_set xs) = set xs"
  by (simp add: sorted_set_def)

lemma string_items_JStr [simp]: "string_items (JArr (map JStr xs)) = xs"
  by (simp add: string_items_def comp_def)

lemma known_scope_JStr [simp]: "list_all known_scope (map JStr xs) \<longleftrightarrow> set xs \<subseteq> SCOPES"
  by (auto simp: list_all_iff known_scope_def)

lemma decoded_claimsD:
  assumes "decoded_claims A now tok = Inr (k, claims)"
  obtains i e vs where
    "a_jwt_decode A tok (a_signing_key A) GATEWAY_JWT_ISSUER GATEWAY_JWT_AUDIENCE required_claims now = JwtClaims claims"
    "uuid_claim claims ''sub'' = Inr k" "map_of claims ''iat'' = Some (JInt i)" "map_of claims ''exp'' = Some (JInt e)"
    "map_of claims ''scopes'' = Some (JArr vs)" "i < e" "list_all known_scope vs"
proof -
  obtain d where d: "a_jwt_decode A tok (a_signing_key A) GATEWAY_JWT_ISSUER GATEWAY_JWT_AUDIENCE required_claims now = JwtClaims d"
    using assms by (auto simp: decoded_claims_def invalid_def split: jwt_result.splits)
  from assms obtain iat ex sc where c: "claims = d" "uuid_claim d ''sub'' = Inr k" "claim d ''iat'' = Inr iat"
      "claim d ''exp'' = Inr ex" "claim d ''scopes'' = Inr sc" "typed_claims iat ex sc"
    by (auto simp: decoded_claims_def d invalid_def bind_r_Inr_iff split: if_splits)
  moreover obtain i e vs where "iat = JInt i" "ex = JInt e" "sc = JArr vs" "i < e" "list_all known_scope vs"
    using c(6) by (auto simp: typed_claims_def split: json.splits)
  ultimately show ?thesis using that d by (auto simp: claim_def split: option.splits)
qed

lemma uuid_claim_error: "map_of d k \<noteq> None \<Longrightarrow> uuid_claim d k = Inl x \<Longrightarrow> x = MachineAuthenticationError ''INVALID_TOKEN''"
  by (auto simp: uuid_claim_def claim_def invalid_def split: option.splits)

text \<open>Decoding fails only with the two documented codes: no required claim can be missing.\<close>

lemma decoded_claims_error:
  assumes ok: "jwt_ok A" and err: "decoded_claims A now tok = Inl x"
  shows "x \<in> MachineAuthenticationError ` {''TOKEN_EXPIRED'', ''INVALID_TOKEN''}"
proof (cases "a_jwt_decode A tok (a_signing_key A) GATEWAY_JWT_ISSUER GATEWAY_JWT_AUDIENCE required_claims now")
  case (JwtClaims d)
  have present: "\<exists>v. map_of d k = Some v" if "k \<in> set required_claims" for k
    using jwt_ok_sound(1)[OF ok JwtClaims that] by blast
  have "\<exists>v. map_of d ''sub'' = Some v" "\<exists>v. map_of d ''client_id'' = Some v"
      "\<exists>v. map_of d ''jti'' = Some v" "\<exists>v. map_of d ''ver'' = Some v" "\<exists>v. map_of d ''iat'' = Some v"
      "\<exists>v. map_of d ''exp'' = Some v" "\<exists>v. map_of d ''scopes'' = Some v"
    by (rule present, simp add: required_claims_def)+
  then obtain v1 v2 v3 v4 v5 v6 v7 where v: "map_of d ''sub'' = Some v1" "map_of d ''client_id'' = Some v2"
      "map_of d ''jti'' = Some v3" "map_of d ''ver'' = Some v4" "map_of d ''iat'' = Some v5"
      "map_of d ''exp'' = Some v6" "map_of d ''scopes'' = Some v7"
    by (elim exE)
  then show ?thesis
    using err by (simp add: decoded_claims_def JwtClaims uuid_claim_def claim_def invalid_def
        split: option.splits if_splits)
qed (use err in \<open>auto simp: decoded_claims_def invalid_def\<close>)

lemma string_items_known: "list_all known_scope vs \<Longrightarrow> set (string_items (JArr vs)) \<subseteq> SCOPES"
  by (auto simp: string_items_def list_all_iff known_scope_def split: json.splits)

lemma validate_tokenD:
  assumes "validate_token A now tok remote d = Inr ((u, claims), d')"
  obtains k row scopes where "decoded_claims A now tok = Inr (k, claims)" "get_client k d = Some row"
    "map_of claims ''client_id'' = Some (JStr (show_uuid (c_client_id row)))"
    "map_of claims ''ver'' = Some (JStr (show_uuid (c_token_version row)))" "map_of claims ''scopes'' = Some scopes"
    "c_is_active row" "ip_allowed row remote"
    "u = row\<lparr>c_scopes := sorted_set (filter (\<lambda>s. s \<in> set (string_items scopes)) (c_scopes row))\<rparr>"
    "d' = touch_client now row d"
  using assms
  by (auto simp: validate_token_def invalid_def bind_r_Inr_iff claim_def split: option.splits if_splits)

lemma validate_token_error:
  assumes ok: "jwt_ok A" and err: "validate_token A now tok remote d = Inl x"
  shows "x \<in> MachineAuthenticationError ` {''TOKEN_EXPIRED'', ''INVALID_TOKEN''}"
proof (cases "decoded_claims A now tok")
  case (Inl y)
  then show ?thesis using err decoded_claims_error[OF ok Inl] by (simp add: validate_token_def)
next
  case (Inr p)
  obtain k claims where p: "p = (k, claims)" by (cases p)
  obtain dec: "a_jwt_decode A tok (a_signing_key A) GATEWAY_JWT_ISSUER GATEWAY_JWT_AUDIENCE required_claims now = JwtClaims claims"
    using decoded_claimsD[OF Inr[unfolded p]] .
  have present: "\<exists>v. map_of claims c = Some v" if "c \<in> set required_claims" for c
    using jwt_ok_sound(1)[OF ok dec that] by blast
  have "\<exists>v. map_of claims ''client_id'' = Some v" "\<exists>v. map_of claims ''ver'' = Some v"
      "\<exists>v. map_of claims ''scopes'' = Some v"
    by (rule present, simp add: required_claims_def)+
  then obtain v1 v2 v3 where "map_of claims ''client_id'' = Some v1" "map_of claims ''ver'' = Some v2"
      "map_of claims ''scopes'' = Some v3"
    by (elim exE)
  then show ?thesis
    using err by (simp add: validate_token_def Inr p claim_def invalid_def split: option.splits if_splits)
qed

text \<open>What a client's issued claims are read as.\<close>

lemma token_claims_get [simp]:
  "map_of (token_claims A t jti c) ''sub'' = Some (JStr (show_uuid (c_id c)))"
  "map_of (token_claims A t jti c) ''client_id'' = Some (JStr (show_uuid (c_client_id c)))"
  "map_of (token_claims A t jti c) ''scopes'' = Some (JArr (map JStr (sorted_set (c_scopes c))))"
  "map_of (token_claims A t jti c) ''iat'' = Some (JInt (t div second_us))"
  "map_of (token_claims A t jti c) ''exp'' = Some (JInt (t div second_us + token_ttl_seconds A))"
  "map_of (token_claims A t jti c) ''jti'' = Some (JStr (show_uuid jti))"
  "map_of (token_claims A t jti c) ''ver'' = Some (JStr (show_uuid (c_token_version c)))"
  "map_of (token_claims A t jti c) ''iss'' = Some (JStr GATEWAY_JWT_ISSUER)"
  "map_of (token_claims A t jti c) ''aud'' = Some (JStr GATEWAY_JWT_AUDIENCE)"
  by (simp_all add: token_claims_def Let_def)

lemma issuable_token_claims:
  "json_ok (JObj (token_claims A t jti c)) \<Longrightarrow>
     issuable (token_claims A t jti c) GATEWAY_JWT_ISSUER GATEWAY_JWT_AUDIENCE required_claims"
  by (simp add: issuable_def required_claims_def claim_given_def) (simp add: token_claims_def Let_def)

definition expiry_us :: "auth_env \<Rightarrow> int \<Rightarrow> int" where
  "expiry_us A t = (t div second_us + token_ttl_seconds A) * second_us"

lemma issued_then_decoded:
  assumes ok: "jwt_ok A" and js: "json_ok (JObj (token_claims A t jti c))"
    and scopes: "set (c_scopes c) \<subseteq> SCOPES" and ttl: "0 < token_ttl_seconds A" and later: "t \<le> t'"
  shows "decoded_claims A t' (issue_token A t jti c) =
    (if expiry_us A t \<le> t' then invalid ''TOKEN_EXPIRED'' else Inr (c_id c, token_claims A t jti c))"
proof -
  have "t div second_us * second_us \<le> t" by (simp add: second_us_def)
  then have "t div second_us * second_us \<le> t'" using later by simp
  from jwt_ok_read[OF ok issuable_token_claims[OF js] _ _ this]
  have "a_jwt_decode A (issue_token A t jti c) (a_signing_key A) GATEWAY_JWT_ISSUER GATEWAY_JWT_AUDIENCE required_claims t' =
      (if expiry_us A t \<le> t' then JwtExpired else JwtClaims (token_claims A t jti c))"
    by (simp add: issue_token_def expiry_us_def)
  then show ?thesis
    using scopes ttl by (simp add: decoded_claims_def uuid_claim_def claim_def uuid_of_json_def typed_claims_def)
qed

lemma issued_then_validated:
  assumes "jwt_ok A" "json_ok (JObj (token_claims A t jti c))" "set (c_scopes c) \<subseteq> SCOPES"
    "0 < token_ttl_seconds A" "t \<le> t'"
    and row: "get_client (c_id c) d = Some row" "c_is_active row" "ip_allowed row remote"
      "c_client_id row = c_client_id c" "c_token_version row = c_token_version c"
  shows "validate_token A t' (issue_token A t jti c) remote d =
    (if expiry_us A t \<le> t' then invalid ''TOKEN_EXPIRED''
     else Inr ((row\<lparr>c_scopes := sorted_set (filter (\<lambda>s. s \<in> set (c_scopes c)) (c_scopes row))\<rparr>, token_claims A t jti c),
               touch_client t' row d))"
  using issued_then_decoded[OF assms(1-5)] row by (simp add: validate_token_def claim_def invalid_def)

subsection \<open>Lemmas on clients and exchanges\<close>

lemma touch_client_step: "client_step d (touch_client now c d)"
proof (cases "get_client (c_id c) d")
  case (Some row)
  then have "c_id c = c_id row" by (auto dest: client_tbl.fetch_keyD)
  with Some show ?thesis
    by (simp add: touch_client_def) (rule client_rewrite_step[where row = row]; simp)
qed (simp add: touch_client_def)

interpretation validate_tx: client_transaction "validate_token A now tok remote"
  by unfold_locales (auto elim!: validate_tokenD intro: touch_client_step)

interpretation request_tx: client_transaction "authenticate_request A now header remote"
  by unfold_locales
    (auto simp: authenticate_request_def invalid_def intro: validate_tx.step split: list.splits if_splits)

text \<open>A client is determined by its client id.\<close>

lemma client_by_client_id_iff:
  assumes "credentials_wf d"
  shows "client_by_client_id k d = Some c \<longleftrightarrow> c \<in> set (db_clients d) \<and> c_client_id c = k"
proof
  show "client_by_client_id k d = Some c \<Longrightarrow> c \<in> set (db_clients d) \<and> c_client_id c = k"
    unfolding client_by_client_id_def by (auto dest: find_SomeD)
  assume c: "c \<in> set (db_clients d) \<and> c_client_id c = k"
  show "client_by_client_id k d = Some c"
  proof (cases "client_by_client_id k d")
    case None
    then show ?thesis using c by (auto simp: client_by_client_id_def dest: find_NoneD)
  next
    case (Some x)
    then have "x \<in> set (db_clients d) \<and> c_client_id x = c_client_id c"
      using c by (auto simp: client_by_client_id_def dest: find_SomeD)
    then have "x = c"
      using assms c by (auto simp: credentials_wf_def distinct_map dest: inj_onD)
    with Some show ?thesis by simp
  qed
qed

lemma authenticate_credentials_iff:
  assumes "credentials_wf d"
  shows "authenticate_credentials A cid secret remote d = Inr c \<longleftrightarrow>
    c \<in> set (db_clients d) \<and> uuid_of_text cid = Some (c_client_id c) \<and> a_check_password A secret (c_secret_hash c) \<and>
    c_is_active c \<and> ip_allowed c remote"
proof -
  have "authenticate_credentials A cid secret remote d = Inr c \<longleftrightarrow>
    (\<exists>k. uuid_of_text cid = Some k \<and> client_by_client_id k d = Some c) \<and> a_check_password A secret (c_secret_hash c) \<and>
    c_is_active c \<and> ip_allowed c remote"
    by (auto simp: authenticate_credentials_def invalid_def Let_def split: option.splits if_splits)
  then show ?thesis by (auto simp: client_by_client_id_iff[OF assms])
qed

lemma authenticate_credentials_error:
  "authenticate_credentials A cid secret remote d = Inl x \<Longrightarrow> x = MachineAuthenticationError ''INVALID_CLIENT''"
  by (auto simp: authenticate_credentials_def invalid_def Let_def split: option.splits if_splits)

lemma throttle_frame:
  assumes "throttle_exchange remote w = (r, w1)"
  shows "w_db w1 = w_db w" "w_now w1 = w_now w"
  using assms by (auto simp: throttle_exchange_def Let_def cache_setex_def split: if_splits)

lemma token_exchangeD:
  assumes "token_exchange A D remote jti data w = (Inr resp, w')"
  obtains body cid secret c w1 where "throttle_exchange remote w = (Inr (), w1)" "data = Inr body"
    "token_request D body = Some (cid, secret)"
    "authenticate_credentials A cid secret remote (w_db w) = Inr c"
    "resp = token_response A (issue_token A (w_now w) jti c) c"
    "w' = w1\<lparr>w_db := audit_client (a_env A) (w_now w) ''gateway_token_issued'' c (Some (c_id c)) None
            (touch_client (w_now w) c (w_db w))\<rparr>"
proof -
  obtain r w1 where t: "throttle_exchange remote w = (r, w1)" by fastforce
  note f = throttle_frame[OF t]
  show thesis
    using that assms t f
    by (cases r; cases data) (auto simp: token_exchange_def invalid_def split: option.splits sum.splits prod.splits)
qed

text \<open>The exchanges of one peer at the given instants, nothing else in between.\<close>

fun exchanges :: "string \<Rightarrow> int list \<Rightarrow> world \<Rightarrow> (exn + unit) list" where
  "exchanges remote [] w = []"
| "exchanges remote (t # ts) w =
     (case throttle_exchange remote (w\<lparr>w_now := t\<rparr>) of (r, w1) \<Rightarrow> r # exchanges remote ts w1)"

lemma exchanges_count:
  assumes "w_redis_up w" and "\<forall>t \<in> set ts. minute_of t = m"
    and "\<forall>t \<in> set ts. throttle_key remote t = k"
    and "(n = 0 \<and> map_of (w_cache w) k = None) \<or>
         (\<exists>until. map_of (w_cache w) k = Some (show_nat n, until) \<and> (\<forall>t \<in> set ts. t < until))"
  shows "exchanges remote ts w = map (\<lambda>i. if n + i < 60 then Inr () else Inl (Throttled 60)) [0..<length ts]"
  using assms
proof (induction ts arbitrary: n w)
  case (Cons t ts)
  let ?w = "w\<lparr>w_now := t\<rparr>"
  have k: "throttle_key remote t = k" using Cons.prems(3) by simp
  have count: "(case cache_get k ?w of None \<Rightarrow> 0 | Some s \<Rightarrow> nat_of_digits s) = n"
    using Cons.prems(4) by (auto simp: cache_get_def)
  define w1 where "w1 = cache_setex k 120 (show_nat (n + 1)) ?w"
  have r: "throttle_exchange remote ?w = (if n + 1 > 60 then Inl (Throttled 60) else Inr (), w1)"
    using Cons.prems(1) count by (simp add: throttle_exchange_def k w1_def Let_def)
  have "t' < t + 120 * second_us" if "t' \<in> set ts" for t'
  proof -
    have "t' div second_us div 60 = t div second_us div 60"
      using Cons.prems(2) that by (simp add: minute_of_def)
    then show ?thesis unfolding second_us_def by linarith
  qed
  then have next_entry: "\<exists>until. map_of (w_cache w1) k = Some (show_nat (n + 1), until) \<and> (\<forall>t \<in> set ts. t < until)"
    by (simp add: w1_def cache_setex_def)
  have "w_redis_up w1" using Cons.prems(1) by (simp add: w1_def cache_setex_def)
  then have "exchanges remote ts w1 = map (\<lambda>i. if (n + 1) + i < 60 then Inr () else Inl (Throttled 60)) [0..<length ts]"
    using Cons.prems(2,3) next_entry by (intro Cons.IH) auto
  moreover have "exchanges remote (t # ts) w =
      (if n + 1 > 60 then Inl (Throttled 60) else Inr ()) # exchanges remote ts w1"
    by (simp only: exchanges.simps r prod.case)
  moreover have "map f [0..<length (t # ts)] = f 0 # map (\<lambda>i. f (Suc i)) [0..<length ts]" for f :: "nat \<Rightarrow> exn + unit"
    by (simp add: upt_conv_Cons map_Suc_upt[symmetric] comp_def del: upt_Suc)
  ultimately show ?case by (simp del: upt_Suc exchanges.simps)
qed simp

subsection \<open>Properties\<close>

text \<open>The claims are JSON whenever the two times have no more digits than Python prints.\<close>

definition small_int :: "int \<Rightarrow> bool" where
  "small_int i \<longleftrightarrow> length (show_nat (nat \<bar>i\<bar>)) \<le> max_int_digits"

definition clock_ok :: "auth_env \<Rightarrow> int \<Rightarrow> bool" where
  "clock_ok A t \<longleftrightarrow> small_int (t div second_us) \<and> small_int (t div second_us + token_ttl_seconds A)"

lemma items_ok_JStr [simp]: "items_ok (map JStr xs)"
  by (induction xs) simp_all

lemma clock_ok_claims: "clock_ok A t \<Longrightarrow> json_ok (JObj (token_claims A t jti c))"
  by (simp add: clock_ok_def small_int_def token_claims_def Let_def)

text \<open>
  C15, a gateway token lives until its expiry: a successful exchange was made with the secret of an
  active client from an allowed address, and the token it returns is accepted at every later moment
  before its expiry, from any allowed address and whatever else changed, as long as the client is
  active and its secret was not rotated; the principal has the scopes both the client and the token
  name. From its expiry on it is refused with TOKEN_EXPIRED.
\<close>

theorem exchanged_token_lifecycle:
  assumes "jwt_ok A" and "0 < token_ttl_seconds A" and "clients_valid (w_db w)" and "clock_ok A (w_now w)"
    and "token_exchange A D remote jti data w = (Inr resp, w')"
  shows "\<exists>c body cid secret tok. c \<in> set (db_clients (w_db w)) \<and> c_is_active c \<and> ip_allowed c remote \<and>
    data = Inr body \<and> token_request D body = Some (cid, secret) \<and> uuid_of_text cid = Some (c_client_id c) \<and>
    a_check_password A secret (c_secret_hash c) \<and> resp = token_response A tok c \<and>
    (\<forall>t d row remote'. w_now w \<le> t \<and> get_client (c_id c) d = Some row \<and> c_is_active row \<and>
        ip_allowed row remote' \<and> c_client_id row = c_client_id c \<and> c_token_version row = c_token_version c \<longrightarrow>
        validate_token A t tok remote' d =
          (if (w_now w div second_us + token_ttl_seconds A) * second_us \<le> t then invalid ''TOKEN_EXPIRED''
           else Inr ((row\<lparr>c_scopes := sorted_set (filter (\<lambda>s. s \<in> set (c_scopes c)) (c_scopes row))\<rparr>,
                      token_claims A (w_now w) jti c), touch_client t row d)))"
proof -
  have wf: "credentials_wf (w_db w)" using assms(3) by (simp add: clients_valid_def)
  obtain body cid secret c w1 where e: "token_request D body = Some (cid, secret)"
      "authenticate_credentials A cid secret remote (w_db w) = Inr c"
      "resp = token_response A (issue_token A (w_now w) jti c) c" "data = Inr body"
    using assms(5) by (rule token_exchangeD)
  note c = e(2)[unfolded authenticate_credentials_iff[OF wf]]
  then have "set (c_scopes c) \<subseteq> SCOPES" using wf by (auto simp: credentials_wf_def client_row_ok_def)
  note valid = issued_then_validated[OF assms(1) clock_ok_claims[OF assms(4), of jti c] this assms(2)]
  show ?thesis
    using c e(1,3,4) valid unfolding expiry_us_def
    by (intro exI[of _ c] exI[of _ body] exI[of _ cid] exI[of _ secret] exI[of _ "issue_token A (w_now w) jti c"]) blast
qed

text \<open>
  C8, what an accepted request proves: the header is a bearer token of at most 16384 ASCII
  characters whose signed claims are unexpired and name the client id and the current version of an
  active row that allows the peer's address; the principal is that row with no scope beyond the
  row's, the token's and the known ones; nothing but the row's last use is written.
\<close>

theorem accepted_request_is_current:
  assumes "jwt_ok A" and "authenticate_request A now header remote d = Inr ((u, claims), d')"
  shows "\<exists>scheme tok row e vs. split_words [] header = [scheme, tok] \<and> lower scheme = ''bearer'' \<and> length tok \<le> 16384 \<and>
    a_jwt_decode A tok (a_signing_key A) GATEWAY_JWT_ISSUER GATEWAY_JWT_AUDIENCE required_claims now = JwtClaims claims \<and>
    map_of claims ''exp'' = Some (JInt e) \<and> now < e * second_us \<and>
    get_client (c_id u) d = Some row \<and> c_is_active row \<and> ip_allowed row remote \<and>
    map_of claims ''client_id'' = Some (JStr (show_uuid (c_client_id row))) \<and>
    map_of claims ''ver'' = Some (JStr (show_uuid (c_token_version row))) \<and>
    map_of claims ''scopes'' = Some (JArr vs) \<and>
    u = row\<lparr>c_scopes := c_scopes u\<rparr> \<and> sorted (c_scopes u) \<and> distinct (c_scopes u) \<and>
    set (c_scopes u) = set (c_scopes row) \<inter> set (string_items (JArr vs)) \<and> set (c_scopes u) \<subseteq> SCOPES \<and>
    d' = touch_client now row d"
proof -
  obtain scheme tok where h: "split_words [] header = [scheme, tok]" "lower scheme = ''bearer''" "length tok \<le> 16384"
      "validate_token A now tok remote d = Inr ((u, claims), d')"
    using assms(2) by (auto simp: authenticate_request_def invalid_def split: list.splits if_splits)
  from h(4) obtain k row scopes where v: "decoded_claims A now tok = Inr (k, claims)" "get_client k d = Some row"
    "map_of claims ''client_id'' = Some (JStr (show_uuid (c_client_id row)))"
    "map_of claims ''ver'' = Some (JStr (show_uuid (c_token_version row)))" "map_of claims ''scopes'' = Some scopes"
    "c_is_active row" "ip_allowed row remote"
    "u = row\<lparr>c_scopes := sorted_set (filter (\<lambda>s. s \<in> set (string_items scopes)) (c_scopes row))\<rparr>"
    "d' = touch_client now row d"
    by (rule validate_tokenD)
  from v(1) obtain i e vs where dec: "a_jwt_decode A tok (a_signing_key A) GATEWAY_JWT_ISSUER GATEWAY_JWT_AUDIENCE
      required_claims now = JwtClaims claims" "map_of claims ''exp'' = Some (JInt e)"
      "map_of claims ''scopes'' = Some (JArr vs)" "list_all known_scope vs"
    by (rule decoded_claimsD)
  have "scopes = JArr vs" using v(5) dec(3) by simp
  moreover have "c_id row = k" using v(2) by (rule client_tbl.fetch_keyD)
  moreover have "now < e * second_us" using jwt_ok_sound(2)[OF assms(1) dec(1,2)] .
  moreover have "set (c_scopes u) = set (c_scopes row) \<inter> set (string_items (JArr vs))"
    using v(8) \<open>scopes = JArr vs\<close> by auto
  moreover have "set (c_scopes u) \<subseteq> SCOPES"
    using calculation(4) string_items_known[OF dec(4)] by blast
  moreover have "sorted (c_scopes u)" "distinct (c_scopes u)" "u = row\<lparr>c_scopes := c_scopes u\<rparr>"
    using v(8) by (simp_all add: sorted_set_def)
  ultimately show ?thesis
    using h v(2,3,4,6,7,9) dec v(8) by (intro exI[of _ scheme] exI[of _ tok] exI[of _ row] exI[of _ e] exI[of _ vs]) auto
qed

lemma old_token_refused:
  assumes "jwt_ok A" and "validate_token A now tok remote d = Inr ((u, claims), d1)"
    and "get_client (c_id u) d3 = Some row3" and "c_token_version row3 \<noteq> c_token_version u"
  shows "validate_token A t tok remote' d3 \<in> invalid ` {''INVALID_TOKEN'', ''TOKEN_EXPIRED''}"
proof -
  from assms(2) obtain k row scopes where v: "decoded_claims A now tok = Inr (k, claims)" "get_client k d = Some row"
    "map_of claims ''ver'' = Some (JStr (show_uuid (c_token_version row)))"
    "c_is_active row" "ip_allowed row remote"
    "u = row\<lparr>c_scopes := sorted_set (filter (\<lambda>s. s \<in> set (string_items scopes)) (c_scopes row))\<rparr>"
    "d1 = touch_client now row d"
    by (rule validate_tokenD)
  have id: "c_id row = k" "c_id u = k" using v(2,6) by (auto dest: client_tbl.fetch_keyD)
  obtain dec: "a_jwt_decode A tok (a_signing_key A) GATEWAY_JWT_ISSUER GATEWAY_JWT_AUDIENCE required_claims now = JwtClaims claims"
      and sub: "uuid_claim claims ''sub'' = Inr k"
    using decoded_claimsD[OF v(1)] .
  show ?thesis
  proof (cases "validate_token A t tok remote' d3")
    case (Inl x)
    then show ?thesis using validate_token_error[OF assms(1) Inl] by (auto simp: invalid_def)
  next
    case (Inr p)
    then obtain u3 claims3 d4 where "validate_token A t tok remote' d3 = Inr ((u3, claims3), d4)" by (cases p) auto
    then obtain k3 row4 where v3: "decoded_claims A t tok = Inr (k3, claims3)" "get_client k3 d3 = Some row4"
        "map_of claims3 ''ver'' = Some (JStr (show_uuid (c_token_version row4)))"
      by (rule validate_tokenD)
    obtain dec3: "a_jwt_decode A tok (a_signing_key A) GATEWAY_JWT_ISSUER GATEWAY_JWT_AUDIENCE required_claims t = JwtClaims claims3"
        and sub3: "uuid_claim claims3 ''sub'' = Inr k3"
      using decoded_claimsD[OF v3(1)] .
    have "claims3 = claims" using jwt_ok_sound(3)[OF assms(1) dec dec3] .
    with sub sub3 v(3) v3(2,3) assms(3) id have "show_uuid (c_token_version row3) = show_uuid (c_token_version row)" by simp
    then have "c_token_version row3 = c_token_version u" using v(6) by (auto dest: show_uuid_inj)
    with assms(4) show ?thesis by simp
  qed
qed

lemma new_secret_authenticates:
  assumes "hasher_ok A" and "clients_valid d"
    and "validate_token A now tok remote d = Inr ((u, claims), d1)"
    and "rotate_secret_action A now2 user rot [c_id u] d1 = Inr (Some raw, d2)"
  shows "\<exists>row. get_client (c_id u) d2 = Some row \<and> c_token_version row = rot_version rot \<and>
    authenticate_credentials A (show_uuid (c_client_id u)) raw remote d2 = Inr row"
proof -
  from assms(3) obtain k row scopes where v: "get_client k d = Some row" "c_is_active row" "ip_allowed row remote"
    "u = row\<lparr>c_scopes := sorted_set (filter (\<lambda>s. s \<in> set (string_items scopes)) (c_scopes row))\<rparr>"
    "d1 = touch_client now row d"
    by (rule validate_tokenD)
  have id: "c_id row = k" using v(1) by (rule client_tbl.fetch_keyD)
  have valid1: "clients_valid d1" using validate_tx.keeps_valid[OF assms(3,2)] .
  have valid2: "clients_valid d2" using rotate_tx.keeps_valid[OF assms(4) valid1] .
  have row1: "get_client k d1 = Some (row\<lparr>c_last_used_at := Some now\<rparr>)"
    using v(1,5) id client_tbl.fetch_store_same[of "row\<lparr>c_last_used_at := Some now\<rparr>" d] by (simp add: touch_client_def)
  obtain c c1 d5 where rot: "rotate_secret A now2 rot c d1 = Inr (raw, c1, d5)" "c_id c = k"
      "db_clients d2 = db_clients d5"
    using assms(4) v(4) id
    by (auto simp: rotate_secret_action_def bind_r_Inr_iff audit_client_def filter_eq_Cons_iff split: list.splits)
  define w where "w = row\<lparr>c_last_used_at := Some now, c_secret_hash := a_make_password A (rot_salt rot) (rot_raw rot),
      c_token_version := rot_version rot, c_updated_at := now2\<rparr>"
  have "raw = rot_raw rot" "d5 = store db_clients set_clients c_id w d1"
    using rot(1) row1 rot(2) by (auto elim!: rotate_secretD simp: w_def)
  moreover have "c_id w = k" using id by (simp add: w_def)
  ultimately have new: "get_client k d2 = Some w" "raw = rot_raw rot"
    using client_tbl.fetch_store_same[of w d1] row1 rot(3) by (simp_all add: fetch_def[of db_clients])
  have "c_ip_allowlist w = c_ip_allowlist row" "c_is_active w"
      "c_secret_hash w = a_make_password A (rot_salt rot) raw"
    using v(2) new(2) by (simp_all add: w_def)
  then have "ip_allowed w remote" "c_is_active w" "a_check_password A raw (c_secret_hash w)"
    using v(3) assms(1) ip_allowed_cong[of w row remote] by (simp_all add: hasher_ok_def)
  moreover have "credentials_wf d2" using valid2 by (simp add: clients_valid_def)
  ultimately have "authenticate_credentials A (show_uuid (c_client_id w)) raw remote d2 = Inr w"
    using client_tbl.fetch_mem[OF new(1)] by (simp add: authenticate_credentials_iff)
  moreover have "c_client_id w = c_client_id u" "c_id u = k" "c_token_version w = rot_version rot"
    using v(4) id by (simp_all add: w_def)
  ultimately show ?thesis
    using new(1) by auto
qed

text \<open>
  C14, rotation revokes at once: when a client whose token was just accepted has its secret rotated to
  a new version, that token is refused everywhere and ever after while the row keeps the new
  version, and the new secret authenticates the client from an allowed address.
\<close>

theorem rotation_revokes_tokens:
  assumes "jwt_ok A" and "hasher_ok A" and "clients_valid d"
    and "validate_token A now tok remote d = Inr ((u, claims), d1)"
    and "rotate_secret_action A now2 user rot [c_id u] d1 = Inr (Some raw, d2)"
    and "rot_version rot \<noteq> c_token_version u"
  shows "(\<forall>t remote' d3 row. get_client (c_id u) d3 = Some row \<and> c_token_version row = rot_version rot \<longrightarrow>
      validate_token A t tok remote' d3 \<in> invalid ` {''INVALID_TOKEN'', ''TOKEN_EXPIRED''}) \<and>
    (\<exists>row. get_client (c_id u) d2 = Some row \<and> c_token_version row = rot_version rot \<and>
      authenticate_credentials A (show_uuid (c_client_id u)) raw remote d2 = Inr row)"
  using old_token_refused[OF assms(1,4)] new_secret_authenticates[OF assms(2-5)] assms(6) by simp

text \<open>
  C25, the exchange limit: of the exchanges one peer makes within one minute exactly the first sixty
  pass the throttle, however many follow.
\<close>

theorem throttle_limits_exchanges:
  assumes "w_redis_up w" and "\<forall>t \<in> set ts. minute_of t = m"
    and "\<forall>t \<in> set ts. map_of (w_cache w) (throttle_key remote t) = None"
  shows "exchanges remote ts w = map (\<lambda>i. if i < 60 then Inr () else Inl (Throttled 60)) [0..<length ts]"
proof (cases ts)
  case (Cons t us)
  have "throttle_key remote t' = throttle_key remote t" if "t' \<in> set ts" for t'
  proof -
    have "t \<in> set ts" by (simp add: Cons)
    then have "minute_of t = m" "minute_of t' = m" using assms(2) that by blast+
    then show ?thesis by (simp only: throttle_key_def)
  qed
  then have keys: "\<forall>t' \<in> set ts. throttle_key remote t' = throttle_key remote t" by blast
  have "t \<in> set ts" by (simp add: Cons)
  then have "map_of (w_cache w) (throttle_key remote t) = None" using assms(3) by blast
  with exchanges_count[OF assms(1,2) keys, of 0] show ?thesis by simp
qed simp

lemma any_network_iff:
  "networks_ok vs \<Longrightarrow> any_network a vs \<longleftrightarrow> (\<exists>v \<in> set vs. \<exists>net. ip_network_value v = Some net \<and> in_range a net)"
  by (induction vs) (auto simp: networks_ok_def address_in_iff_range ip_network_value_no_host_bits split: option.splits)

text \<open>
  C26, the allow list as ranges of addresses: for a list the admin form accepted, a peer is allowed
  exactly when the list is empty or its address lies between the first and last address of a listed
  network of its own version.
\<close>

theorem allow_list_is_ranges:
  assumes "client_row_ok c"
  shows "ip_allowed c remote \<longleftrightarrow> c_ip_allowlist c = [] \<or>
    (\<exists>a v net. ip_address remote = Some a \<and> v \<in> set (c_ip_allowlist c) \<and> ip_network_value v = Some net \<and> in_range a net)"
  using any_network_iff[of "c_ip_allowlist c"] assms
  by (auto simp: ip_allowed_def client_row_ok_def split: option.splits)

text \<open>
  C28, the exchange fails uniformly: below the limit an exchange whose body parses succeeds exactly for a
  well-formed request with the client id and secret of an active client that allows the peer; every other
  such request gets the same INVALID_CLIENT. A body that does not parse is answered with the parser's
  error. No failure changes the database.
\<close>

theorem exchange_fails_uniformly:
  assumes "throttle_exchange remote w = (Inr (), w1)" and "credentials_wf (w_db w)"
  shows "(case token_exchange A D remote jti data w of
      (Inr resp, w') \<Rightarrow> \<exists>body cid secret c. data = Inr body \<and> token_request D body = Some (cid, secret) \<and>
          c \<in> set (db_clients (w_db w)) \<and>
          uuid_of_text cid = Some (c_client_id c) \<and> a_check_password A secret (c_secret_hash c) \<and>
          c_is_active c \<and> ip_allowed c remote
    | (Inl x, w') \<Rightarrow> w_db w' = w_db w \<and> (case data of
        Inl y \<Rightarrow> x = y
      | Inr body \<Rightarrow> x = MachineAuthenticationError ''INVALID_CLIENT'' \<and>
          \<not> (\<exists>cid secret c. token_request D body = Some (cid, secret) \<and> c \<in> set (db_clients (w_db w)) \<and>
            uuid_of_text cid = Some (c_client_id c) \<and> a_check_password A secret (c_secret_hash c) \<and>
            c_is_active c \<and> ip_allowed c remote)))"
proof (cases data)
  case (Inl y)
  then show ?thesis using throttle_frame[OF assms(1)] by (simp add: token_exchange_def assms(1))
next
  case d: (Inr body)
  show ?thesis
  proof (cases "token_request D body")
    case None
    then show ?thesis using throttle_frame[OF assms(1)] by (simp add: token_exchange_def assms(1) invalid_def d)
  next
    case (Some p)
    obtain cid secret where p: "p = (cid, secret)" by (cases p)
    note iff = authenticate_credentials_iff[OF assms(2), of A cid secret remote]
    show ?thesis
    proof (cases "authenticate_credentials A cid secret remote (w_db w)")
      case (Inl x)
      then have "\<not> (\<exists>c. authenticate_credentials A cid secret remote (w_db w) = Inr c)" by simp
      then have "\<not> (\<exists>c. c \<in> set (db_clients (w_db w)) \<and> uuid_of_text cid = Some (c_client_id c) \<and>
          a_check_password A secret (c_secret_hash c) \<and> c_is_active c \<and> ip_allowed c remote)"
        unfolding iff by blast
      moreover have "token_exchange A D remote jti data w = (Inl (MachineAuthenticationError ''INVALID_CLIENT''), w1)"
        using throttle_frame[OF assms(1)] authenticate_credentials_error[OF Inl] Inl Some p d
        by (simp add: token_exchange_def assms(1))
      ultimately show ?thesis using throttle_frame[OF assms(1)] Some p d by auto
    next
      case (Inr c)
      then show ?thesis
        using throttle_frame[OF assms(1)] Some p iff[of c] d by (auto simp: token_exchange_def assms(1))
    qed
  qed
qed

subsection \<open>A sample environment and the witnesses\<close>

text \<open>
  A token is the JSON text of the key and the claims, its spaces replaced by a control character; a hash is the password behind a colon; the
  fields are those of the REST framework on the values used here.
\<close>

definition swap_char :: "char \<Rightarrow> char \<Rightarrow> char \<Rightarrow> char" where
  "swap_char a b c = (if c = a then b else c)"

definition sample_encode :: "json \<Rightarrow> string \<Rightarrow> string" where
  "sample_encode v key = map (swap_char CHR 0x20 CHR 0x01) (dumps (JArr [JStr key, v]))"

definition sample_decode :: "string \<Rightarrow> string \<Rightarrow> string \<Rightarrow> string \<Rightarrow> string list \<Rightarrow> int \<Rightarrow> jwt_result" where
  "sample_decode tok key iss aud req now =
     (case loads (map (swap_char CHR 0x01 CHR 0x20) tok) of
        Some (JArr [JStr k, JObj kvs]) \<Rightarrow>
          if k \<noteq> key \<or> map_of kvs ''iss'' \<noteq> Some (JStr iss) \<or> map_of kvs ''aud'' \<noteq> Some (JStr aud) \<or>
             \<not> list_all (claim_given kvs) req
          then JwtInvalid
          else (case map_of kvs ''exp'' of
              Some (JInt e) \<Rightarrow> if e * second_us \<le> now then JwtExpired else JwtClaims kvs
            | _ \<Rightarrow> JwtClaims kvs)
      | _ \<Rightarrow> JwtInvalid)"

definition sample_auth_env :: auth_env where
  "sample_auth_env = \<lparr>a_env = sample_env, a_signing_key = ''key'',
     a_make_password = (\<lambda>salt s. CHR '':'' # s), a_check_password = (\<lambda>s h. h = CHR '':'' # s),
     a_dummy_hash = [], a_jwt_encode = sample_encode, a_jwt_decode = sample_decode\<rparr>"

definition sample_char :: "bool \<Rightarrow> nat option \<Rightarrow> json \<Rightarrow> string option" where
  "sample_char trim limit v = (case v of
     JStr s \<Rightarrow> (let t = (if trim then strip s else s) in
       if t = [] \<or> CHR 0x00 \<in> set t \<or> (case limit of None \<Rightarrow> False | Some n \<Rightarrow> length t > n) then None else Some t)
   | _ \<Rightarrow> None)"

definition sample_handler :: "exn \<Rightarrow> (nat \<times> json) option" where
  "sample_handler x = (case x of
     GatewayError c m s \<Rightarrow> Some (s, JObj [(''detail'', JStr m)])
   | MachineAuthenticationError c \<Rightarrow> Some (401, JObj [(''detail'', JStr ''Machine authentication failed.'')])
   | Throttled n \<Rightarrow> Some (429, JObj [(''detail'', JStr ''Request was throttled.'')])
   | ValidationError m \<Rightarrow> Some (400, JArr [JStr m])
   | ParseError \<Rightarrow> Some (400, JObj [(''detail'', JStr ''Malformed request.'')])
   | UnsupportedMediaType \<Rightarrow> Some (415, JObj [(''detail'', JStr ''Unsupported media type in request.'')])
   | Http404 \<Rightarrow> Some (404, JObj [(''detail'', JStr ''Not found.'')])
   | _ \<Rightarrow> None)"

definition sample_default_code :: "exn \<Rightarrow> string option" where
  "sample_default_code x = (case x of Throttled n \<Rightarrow> Some ''throttled'' | ValidationError m \<Rightarrow> Some ''invalid'' | _ \<Rightarrow> None)"

definition sample_drf :: drf where
  "sample_drf = \<lparr>d_char = sample_char, d_date = (\<lambda>v. case v of JStr ''1970-01-01'' \<Rightarrow> Some 0 | _ \<Rightarrow> None),
     d_datetime = (\<lambda>v. case v of JStr s \<Rightarrow> e_fromisoformat sample_env s | _ \<Rightarrow> None),
     d_uuid = uuid_of_json, d_integer = (\<lambda>v. case v of JInt i \<Rightarrow> Some i | _ \<Rightarrow> None),
     d_parse_datetime = (\<lambda>s. Some (e_fromisoformat sample_env s)), d_handler = sample_handler,
     d_default_code = sample_default_code, d_upper = upper\<rparr>"

lemma sample_auth_env_sel [simp]:
  "a_env sample_auth_env = sample_env" "a_signing_key sample_auth_env = ''key''"
  "a_make_password sample_auth_env salt s = CHR '':'' # s"
  "a_check_password sample_auth_env s h = (h = CHR '':'' # s)"
  "a_jwt_encode sample_auth_env = sample_encode"
  "a_jwt_decode sample_auth_env = sample_decode"
  by (simp_all add: sample_auth_env_def)

lemma sample_decodeD:
  "sample_decode tok key iss aud req now = JwtClaims kvs \<Longrightarrow>
     loads (map (swap_char CHR 0x01 CHR 0x20) tok) = Some (JArr [JStr key, JObj kvs]) \<and>
     list_all (claim_given kvs) req \<and>
     (\<forall>e. map_of kvs ''exp'' = Some (JInt e) \<longrightarrow> now < e * second_us)"
  unfolding sample_decode_def
  by (simp only: split: option.split_asm json.split_asm list.split_asm if_split_asm) (auto simp: not_le)

lemma sample_encode_inverse [simp]:
  "map (swap_char CHR 0x01 CHR 0x20) (sample_encode v key) = dumps (JArr [JStr key, v])"
proof -
  have "swap_char CHR 0x01 CHR 0x20 (swap_char CHR 0x20 CHR 0x01 c) = c" if "printable c" for c
    using that by (auto simp: swap_char_def printable_def)
  then show ?thesis
    using printable_dumps(1)[of "JArr [JStr key, v]"]
    unfolding sample_encode_def map_map by (intro map_idI) (auto simp del: dumps.simps)
qed

lemma sample_jwt_ok: "jwt_ok sample_auth_env"
proof -
  have "sample_decode (sample_encode (JObj kvs) key) key iss aud req now =
      (if e * second_us \<le> now then JwtExpired else JwtClaims kvs)"
    if "issuable kvs iss aud req" "map_of kvs ''exp'' = Some (JInt e)" for kvs key iss aud req now e
  proof -
    have "loads (dumps (JArr [JStr key, JObj kvs])) = Some (JArr [JStr key, JObj kvs])"
      using that(1) by (intro loads_dumps) (simp add: issuable_def)
    then show ?thesis using that by (simp add: sample_decode_def issuable_def list_all_iff)
  qed
  moreover have "(\<forall>k \<in> set req. map_of kvs k \<noteq> None) \<and> (\<forall>e. map_of kvs ''exp'' = Some (JInt e) \<longrightarrow> now < e * second_us) \<and>
      (\<forall>now' kvs'. sample_decode tok key iss aud req now' = JwtClaims kvs' \<longrightarrow> kvs' = kvs)"
    if "sample_decode tok key iss aud req now = JwtClaims kvs" for tok key iss aud req now kvs
    using sample_decodeD[OF that] sample_decodeD[of tok key iss aud req]
    by (fastforce simp: list_all_iff claim_given_def split: option.splits)
  ultimately show ?thesis unfolding jwt_ok_def sample_auth_env_sel by blast
qed

lemma sample_hasher_ok: "hasher_ok sample_auth_env"
  by (simp add: hasher_ok_def)

definition login_client :: client where
  "login_client = sample_client\<lparr>c_secret_hash := '':s'', c_ip_allowlist := [JStr ''10.0.0.0/8'', JInt 1]\<rparr>"

definition login_db :: db where
  "login_db = sample_db\<lparr>db_clients := [login_client]\<rparr>"

definition login_world :: world where
  "login_world = sample_world\<lparr>w_db := login_db\<rparr>"

definition login_data :: json where
  "login_data = JObj [(''client_id'', JStr (show_uuid (UUID 22))), (''client_secret'', JStr ''s'')]"

lemma login_client_sel [simp]:
  "c_id login_client = UUID 21" "c_client_id login_client = UUID 22" "c_token_version login_client = UUID 23"
  "c_secret_hash login_client = '':s''" "c_is_active login_client"
  "c_scopes login_client = [''meeting:read'', ''meeting:write'']"
  "c_ip_allowlist login_client = [JStr ''10.0.0.0/8'', JInt 1]" "c_default_preset login_client = None"
  by (simp_all add: login_client_def sample_client_def)

lemma login_db_sel [simp]: "db_clients login_db = [login_client]" "db_presets login_db = [sample_preset]"
  by (simp_all add: login_db_def sample_db_def)

lemma sample_network: "ip_network ''10.0.0.0/8'' = Some (Net4 0xA000000 8)"
  by code_simp

lemma sample_address: "ip_address ''10.1.2.3'' = Some (IPv4 0xA010203)"
  by code_simp

lemma sample_inside: "address_in (IPv4 0xA010203) (Net4 0xA000000 8)"
  by code_simp

lemma login_allowed [simp]: "ip_allowed login_client ''10.1.2.3''"
  using sample_inside by (simp add: ip_allowed_def sample_address ip_network_value_def sample_network)

lemma login_row_ok: "client_row_ok login_client"
  by (simp add: client_row_ok_def SCOPES_def networks_ok_def ip_network_value_def sample_network network_of_int_def)

lemma login_valid: "clients_valid login_db"
  using login_row_ok
  by (simp add: clients_valid_def clients_wf_def credentials_wf_def sample_preset_def)

lemma login_clock: "clock_ok sample_auth_env 0" "0 < token_ttl_seconds sample_auth_env"
  by (simp_all add: clock_ok_def small_int_def sample_env_def sample_settings_def show_nat.simps max_int_digits_def)

lemma sample_char_uuid: "sample_char True (Some 36) (JStr (show_uuid u)) = Some (show_uuid u)"
proof -
  have "c \<noteq> CHR 0x00 \<and> \<not> py_space c" if "c \<in> set (show_uuid u)" for c
    using show_uuid_chars[OF that] by (auto simp: py_space_def Let_def dest: hex_val_bound)
  then have "strip (show_uuid u) = show_uuid u" "CHR 0x00 \<notin> set (show_uuid u)"
    using strip_by_none[of "show_uuid u" py_space] by (auto simp: strip_def strip_by_def lstrip_def)
  moreover have "show_uuid u \<noteq> []" using length_show_uuid[of u] by (metis list.size(3) zero_neq_numeral)
  ultimately show ?thesis by (simp add: sample_char_def)
qed

lemma login_request: "token_request sample_drf login_data = Some (show_uuid (UUID 22), ''s'')"
  by (simp add: token_request_def login_data_def required_field_def sample_drf_def sample_char_uuid)
    (simp add: sample_char_def)

lemma login_throttle: "throttle_exchange remote login_world =
    (Inr (), login_world\<lparr>w_cache := [(throttle_key remote 0, show_nat 1, 120 * second_us)]\<rparr>)"
  by (simp add: throttle_exchange_def login_world_def sample_world_def cache_get_def cache_setex_def Let_def)

lemma login_world_sel [simp]: "w_db login_world = login_db" "w_now login_world = 0" "w_redis_up login_world"
    "w_cache login_world = []"
  by (simp_all add: login_world_def sample_world_def)

lemma login_authenticates:
  "authenticate_credentials sample_auth_env (show_uuid (UUID 22)) ''s'' ''10.1.2.3'' login_db = Inr login_client"
  using login_valid by (simp add: authenticate_credentials_iff clients_valid_def)

definition login_token :: string where
  "login_token = issue_token sample_auth_env 0 (UUID 99) login_client"

lemma login_exchange:
  "\<exists>w'. token_exchange sample_auth_env sample_drf ''10.1.2.3'' (UUID 99) (Inr login_data) login_world =
     (Inr (token_response sample_auth_env login_token login_client), w')"
  by (simp add: token_exchange_def login_throttle login_request login_authenticates login_token_def)

theorem exchanged_token_lifecycle_witness:
  "\<exists>tok resp w'. token_exchange sample_auth_env sample_drf ''10.1.2.3'' (UUID 99) (Inr login_data) login_world = (Inr resp, w') \<and>
     resp = token_response sample_auth_env tok login_client \<and>
     validate_token sample_auth_env 1000000 tok ''10.1.2.3'' login_db =
       Inr ((login_client, token_claims sample_auth_env 0 (UUID 99) login_client), touch_client 1000000 login_client login_db)"
proof -
  obtain w' where w': "token_exchange sample_auth_env sample_drf ''10.1.2.3'' (UUID 99) (Inr login_data) login_world =
     (Inr (token_response sample_auth_env login_token login_client), w')"
    using login_exchange by blast
  have v: "clients_valid (w_db login_world)" "clock_ok sample_auth_env (w_now login_world)"
    using login_valid login_clock by simp_all
  obtain c tok where c: "c \<in> set (db_clients login_db)"
      "token_response sample_auth_env login_token login_client = token_response sample_auth_env tok c"
      "\<forall>t d row remote'. w_now login_world \<le> t \<and> get_client (c_id c) d = Some row \<and> c_is_active row \<and>
        ip_allowed row remote' \<and> c_client_id row = c_client_id c \<and> c_token_version row = c_token_version c \<longrightarrow>
        validate_token sample_auth_env t tok remote' d =
          (if (w_now login_world div second_us + token_ttl_seconds sample_auth_env) * second_us \<le> t
           then invalid ''TOKEN_EXPIRED''
           else Inr ((row\<lparr>c_scopes := sorted_set (filter (\<lambda>s. s \<in> set (c_scopes c)) (c_scopes row))\<rparr>,
                      token_claims sample_auth_env (w_now login_world) (UUID 99) c), touch_client t row d))"
    using exchanged_token_lifecycle[OF sample_jwt_ok login_clock(2) v w'] by auto
  have "c = login_client" using c(1) by simp
  moreover have "get_client (UUID 21) login_db = Some login_client" by (simp add: fetch_def)
  moreover have "sorted_set [''meeting:read'', ''meeting:write''] = [''meeting:read'', ''meeting:write'']"
    by (simp add: sorted_set_def less_eq_char_def)
  moreover have "token_ttl_seconds sample_auth_env = 3600" by (simp add: sample_env_def sample_settings_def)
  moreover have "login_client\<lparr>c_scopes := [''meeting:read'', ''meeting:write'']\<rparr> = login_client"
    by (simp add: login_client_def sample_client_def)
  ultimately show ?thesis
    using w' c(2) c(3)[rule_format, of 1000000 login_db login_client "''10.1.2.3''"]
    by (intro exI[of _ tok] exI[of _ "token_response sample_auth_env tok c"] exI[of _ w']) (simp add: second_us_def)
qed

lemma login_scopes: "sorted_set [''meeting:read'', ''meeting:write''] = [''meeting:read'', ''meeting:write'']"
  by (simp add: sorted_set_def less_eq_char_def)

lemma split_words_word: "(\<forall>c \<in> set s. \<not> bytes_space c) \<Longrightarrow> word @ s \<noteq> [] \<Longrightarrow> split_words word s = [rev word @ s]"
  by (induction s arbitrary: word) auto

lemma login_validates:
  "validate_token sample_auth_env 1000000 login_token ''10.1.2.3'' login_db =
     Inr ((login_client\<lparr>c_scopes := sorted_set (c_scopes login_client)\<rparr>,
       token_claims sample_auth_env 0 (UUID 99) login_client), touch_client 1000000 login_client login_db)"
proof -
  have "token_ttl_seconds sample_auth_env = 3600" by (simp add: sample_env_def sample_settings_def)
  then have "\<not> expiry_us sample_auth_env 0 \<le> 1000000" by (simp add: expiry_us_def second_us_def)
  moreover have "get_client (c_id login_client) login_db = Some login_client" by (simp add: fetch_def)
  moreover have "set (c_scopes login_client) \<subseteq> SCOPES" using login_row_ok by (simp only: client_row_ok_def)
  ultimately show ?thesis
    using issued_then_validated[OF sample_jwt_ok clock_ok_claims[OF login_clock(1)] _ login_clock(2), of login_client 1000000
        login_db login_client "''10.1.2.3''" "UUID 99"]
    by (simp add: login_token_def)
qed

lemma login_request_accepted:
  "\<exists>u claims d'. authenticate_request sample_auth_env 1000000 (''Bearer '' @ login_token) ''10.1.2.3'' login_db =
     Inr ((u, claims), d')"
proof -
  have "printable c \<Longrightarrow> \<not> bytes_space (swap_char CHR 0x20 CHR 0x01 c) \<and> (of_char (swap_char CHR 0x20 CHR 0x01 c) :: nat) < 128" for c
    using of_char_eq_iff[where ?'a = nat, of c "CHR 0x20"]
    by (auto simp: swap_char_def printable_def bytes_space_def Let_def)
  then have chars: "\<not> bytes_space c \<and> (of_char c :: nat) < 128" if "c \<in> set login_token" for c
    using that printable_dumps(1) by (auto simp: login_token_def issue_token_def sample_encode_def simp del: dumps.simps)
  have "login_token \<noteq> []" by (simp add: login_token_def issue_token_def sample_encode_def)
  then have "split_words [] (''Bearer '' @ login_token) = [''Bearer'', login_token]"
    using split_words_word[of login_token "[]"] chars by (simp add: bytes_space_def)
  moreover have "length login_token \<le> 16384"
  proof -
    have l: "length (dumps_string s) \<le> 6 * length s + 2" for s
    proof -
      have "length (concat (map esc_char s)) \<le> 6 * length s"
        by (induction s) (auto simp: esc_char_def Let_def)
      then show ?thesis by (simp add: dumps_string_def)
    qed
    have "token_ttl_seconds sample_auth_env = 3600" by (simp add: sample_env_def sample_settings_def)
    then show ?thesis
      using l[of "show_uuid (UUID 21)"] l[of "show_uuid (UUID 22)"] l[of "show_uuid (UUID 23)"] l[of "show_uuid (UUID 99)"]
        l[of "''sub''"] l[of "''client_id''"] l[of "''scopes''"] l[of "''iat''"] l[of "''exp''"] l[of "''jti''"]
        l[of "''ver''"] l[of "''iss''"] l[of "''aud''"] l[of "''key''"] l[of GATEWAY_JWT_ISSUER] l[of GATEWAY_JWT_AUDIENCE]
        l[of "''meeting:read''"] l[of "''meeting:write''"]
      by (simp add: login_token_def issue_token_def sample_encode_def token_claims_def Let_def show_int_def show_nat.simps
          GATEWAY_JWT_ISSUER_def GATEWAY_JWT_AUDIENCE_def login_scopes)
  qed
  moreover have "lower ''Bearer'' = ''bearer''" by code_simp
  ultimately show ?thesis
    using login_validates chars by (simp add: authenticate_request_def list_all_iff)
qed

theorem accepted_request_is_current_witness:
  "\<exists>u claims d' row. authenticate_request sample_auth_env 1000000 (''Bearer '' @ login_token) ''10.1.2.3'' login_db =
       Inr ((u, claims), d') \<and> get_client (c_id u) login_db = Some row \<and> c_is_active row"
  using login_request_accepted accepted_request_is_current[OF sample_jwt_ok] by meson

definition login_rotation :: rotation where
  "login_rotation = \<lparr>rot_raw = ''new'', rot_salt = 0, rot_version = UUID 24\<rparr>"

theorem rotation_revokes_tokens_witness:
  "\<exists>d2. rotate_secret_action sample_auth_env 2000000 \<lparr>au_id = 1, au_superuser = True\<rparr> login_rotation [UUID 21]
       (touch_client 1000000 login_client login_db) = Inr (Some ''new'', d2) \<and>
     validate_token sample_auth_env 3000000 login_token ''10.1.2.3'' d2 \<in> invalid ` {''INVALID_TOKEN'', ''TOKEN_EXPIRED''} \<and>
     (\<exists>row. authenticate_credentials sample_auth_env (show_uuid (UUID 22)) ''new'' ''10.1.2.3'' d2 = Inr row)"
proof -
  let ?d1 = "touch_client 1000000 login_client login_db"
  obtain d2 where r: "rotate_secret_action sample_auth_env 2000000 \<lparr>au_id = 1, au_superuser = True\<rparr> login_rotation
      [UUID 21] ?d1 = Inr (Some ''new'', d2)"
    by (simp add: rotate_secret_action_def touch_client_def fetch_def store_def rotate_secret_def login_rotation_def
        Let_def text_fits_def)
  have "rot_version login_rotation \<noteq> UUID 23" by (simp add: login_rotation_def)
  with rotation_revokes_tokens[OF sample_jwt_ok sample_hasher_ok login_valid login_validates, of 2000000
      "\<lparr>au_id = 1, au_superuser = True\<rparr>" login_rotation "''new''" d2] r
  show ?thesis by (intro exI[of _ d2]) auto
qed

theorem throttle_limits_exchanges_witness:
  "exchanges ''10.1.2.3'' [0, 1000000] login_world = [Inr (), Inr ()]"
  using throttle_limits_exchanges[of login_world "[0, 1000000]" 0 "''10.1.2.3''"]
  by (simp add: minute_of_def second_us_def)

theorem allow_list_is_ranges_witness:
  "ip_allowed login_client ''10.1.2.3'' \<and> \<not> ip_allowed login_client ''11.1.2.3''"
proof -
  have "ip_address ''11.1.2.3'' = Some (IPv4 0xB010203)" by code_simp
  then show ?thesis
    using allow_list_is_ranges[OF login_row_ok, of "''11.1.2.3''"]
    by (auto simp: ip_network_value_def sample_network network_of_int_def)
qed

theorem exchange_fails_uniformly_witness:
  "\<exists>w'. token_exchange sample_auth_env sample_drf ''10.1.2.3'' (UUID 99) (Inr (JObj [])) login_world =
     (Inl (MachineAuthenticationError ''INVALID_CLIENT''), w') \<and> w_db w' = login_db"
proof -
  have "credentials_wf (w_db login_world)" using login_valid by (simp add: clients_valid_def)
  from exchange_fails_uniformly[OF login_throttle this, where A = sample_auth_env and D = sample_drf and jti = "UUID 99" and data = "Inr (JObj [])"]
  show ?thesis
    by (simp add: token_exchange_def login_throttle token_request_def required_field_def invalid_def)
qed

end
