(* ===== verification/Serializers.thy ===== *)
theory Serializers
  imports Machine_Auth
begin

text \<open>
  \<open>apps/meetings/serializers.py\<close>, the request serializers: which submitted data are accepted and
  what the views get of them. The REST framework's fields are the parameters of the record \<open>drf\<close>;
  \<open>drf_ok\<close> states their documented behaviour. The response serializers only describe the schema.
\<close>

subsection \<open>Strict serializers and the aware datetime field\<close>

text \<open>\<open>StrictSerializer\<close>: a mapping without unknown keys; \<open>None\<close> is the validation error.\<close>

definition strict :: "string list \<Rightarrow> json \<Rightarrow> dict option" where
  "strict names v = (case v of
     JObj kvs \<Rightarrow> if set (map fst kvs) - set names \<noteq> {} then None else Some kvs
   | _ \<Rightarrow> None)"

definition aware_datetime :: "drf \<Rightarrow> json \<Rightarrow> datetime option" where
  "aware_datetime D v = (case v of
     JStr s \<Rightarrow>
       (case d_parse_datetime D s of
          None \<Rightarrow> None
        | Some parsed \<Rightarrow>
            (case parsed of None \<Rightarrow> None | Some p \<Rightarrow> if is_naive p then None else d_datetime D v))
   | _ \<Rightarrow> None)"

definition reference_fields :: "drf \<Rightarrow> json \<Rightarrow> (string \<times> string) option" where
  "reference_fields D v =
     Option.bind (strict [''id'', ''name''] v) (\<lambda>kvs.
     Option.bind (required_field (d_char D True (Some 160)) kvs ''id'') (\<lambda>i.
     Option.bind (required_field (d_char D True (Some 200)) kvs ''name'') (\<lambda>n. Some (i, n))))"

definition class_fields :: "drf \<Rightarrow> json \<Rightarrow> (string \<times> int) option" where
  "class_fields D v =
     Option.bind (strict [''id'', ''date''] v) (\<lambda>kvs.
     Option.bind (required_field (d_char D True (Some 160)) kvs ''id'') (\<lambda>i.
     Option.bind (required_field (d_date D) kvs ''date'') (\<lambda>day. Some (i, day))))"

text \<open>\<open>CreateMeetingSerializer\<close>, the field \<open>class_info\<close> renamed to \<open>class\<close>; \<open>validate\<close> orders the two instants.\<close>

definition create_fields :: "string list" where
  "create_fields = [''meetingTitle'', ''teacher'', ''batch'', ''startAt'', ''endAt'', ''class'']"

definition create_request :: "drf \<Rightarrow> json \<Rightarrow> request_values option" where
  "create_request D v =
     Option.bind (strict create_fields v) (\<lambda>kvs.
     Option.bind (required_field (d_char D True (Some 250)) kvs ''meetingTitle'') (\<lambda>title.
     Option.bind (required_field (reference_fields D) kvs ''teacher'') (\<lambda>(teacher_id, teacher_name).
     Option.bind (required_field (reference_fields D) kvs ''batch'') (\<lambda>(batch_id, batch_name).
     Option.bind (required_field (aware_datetime D) kvs ''startAt'') (\<lambda>s.
     Option.bind (required_field (aware_datetime D) kvs ''endAt'') (\<lambda>e.
     Option.bind (required_field (class_fields D) kvs ''class'') (\<lambda>(class_id, day).
       if dt_instant e \<le> dt_instant s then None
       else Some \<lparr>v_title = title, v_class_id = class_id, v_class_date = day, v_teacher_id = teacher_id,
         v_teacher_name = teacher_name, v_batch_id = batch_id, v_batch_name = batch_name,
         v_schedule_type = None, v_start = Some s, v_end = Some e\<rparr>)))))))"

definition availability_request :: "drf \<Rightarrow> json \<Rightarrow> (datetime \<times> datetime) option" where
  "availability_request D v =
     Option.bind (strict [''start_at'', ''end_at''] v) (\<lambda>kvs.
     Option.bind (required_field (aware_datetime D) kvs ''start_at'') (\<lambda>s.
     Option.bind (required_field (aware_datetime D) kvs ''end_at'') (\<lambda>e.
       if dt_instant e \<le> dt_instant s then None else Some (s, e))))"

subsection \<open>The search parameters\<close>

text \<open>
  Query parameters are texts; an optional field that is missing or blank in a query is skipped
  (\<open>Some None\<close>), \<open>None\<close> is the validation error.
\<close>

definition optional_field :: "(json \<Rightarrow> 'a option) \<Rightarrow> dict \<Rightarrow> string \<Rightarrow> 'a option option" where
  "optional_field f data name = (case map_of data name of
     None \<Rightarrow> Some None
   | Some v \<Rightarrow> if v = JStr [] then Some None else map_option Some (f v))"

definition search_statuses :: "string list" where
  "search_statuses = [''DRAFT'', ''RESERVED'', ''PROVISIONING'', ''READY'', ''LIVE'', ''ENDED'', ''CANCELLED'', ''FAILED'',
     ''PROVIDER_RESPONSE_INVALID'', ''PROVIDER_STATE_UNKNOWN'']"

definition status_choice :: "json \<Rightarrow> string option" where
  "status_choice v = (case v of JStr s \<Rightarrow> if s \<in> set search_statuses then Some s else None | _ \<Rightarrow> None)"

definition bounded_integer :: "drf \<Rightarrow> int \<Rightarrow> int option \<Rightarrow> json \<Rightarrow> int option" where
  "bounded_integer D lo hi v =
     Option.bind (d_integer D v) (\<lambda>i. if i < lo \<or> (case hi of None \<Rightarrow> False | Some h \<Rightarrow> h < i) then None else Some i)"

record search_values =
  q_id :: "uuid option"
  q_external_class_id :: "string option"
  q_teacher_id :: "string option"
  q_teacher_name :: "string option"
  q_batch_id :: "string option"
  q_provider_calendar_id :: "string option"
  q_status :: "string option"
  q_class_date :: "int option"
  q_start_from :: "datetime option"
  q_start_to :: "datetime option"
  q_created_from :: "datetime option"
  q_created_to :: "datetime option"
  q_page :: int
  q_page_size :: int

definition search_fields :: "string list" where
  "search_fields = [''id'', ''external_class_id'', ''teacher_id'', ''teacher_name'', ''batch_id'', ''provider_calendar_id'',
     ''status'', ''class_date'', ''start_from'', ''start_to'', ''created_from'', ''created_to'', ''page'', ''page_size'']"

definition search_request :: "drf \<Rightarrow> json \<Rightarrow> search_values option" where
  "search_request D v =
     Option.bind (strict search_fields v) (\<lambda>kvs.
     let char_field = optional_field (d_char D True None) kvs; time_field = optional_field (aware_datetime D) kvs in
     Option.bind (optional_field (d_uuid D) kvs ''id'') (\<lambda>pk.
     Option.bind (char_field ''external_class_id'') (\<lambda>class_id.
     Option.bind (char_field ''teacher_id'') (\<lambda>teacher_id.
     Option.bind (char_field ''teacher_name'') (\<lambda>teacher_name.
     Option.bind (char_field ''batch_id'') (\<lambda>batch_id.
     Option.bind (char_field ''provider_calendar_id'') (\<lambda>cal.
     Option.bind (optional_field status_choice kvs ''status'') (\<lambda>st.
     Option.bind (optional_field (d_date D) kvs ''class_date'') (\<lambda>day.
     Option.bind (time_field ''start_from'') (\<lambda>sf.
     Option.bind (time_field ''start_to'') (\<lambda>st_to.
     Option.bind (time_field ''created_from'') (\<lambda>cf.
     Option.bind (time_field ''created_to'') (\<lambda>ct.
     Option.bind (optional_field (bounded_integer D 1 None) kvs ''page'') (\<lambda>page.
     Option.bind (optional_field (bounded_integer D 1 (Some 100)) kvs ''page_size'') (\<lambda>size.
       Some \<lparr>q_id = pk, q_external_class_id = class_id, q_teacher_id = teacher_id, q_teacher_name = teacher_name,
         q_batch_id = batch_id, q_provider_calendar_id = cal, q_status = st, q_class_date = day,
         q_start_from = sf, q_start_to = st_to, q_created_from = cf, q_created_to = ct,
         q_page = (case page of None \<Rightarrow> 1 | Some i \<Rightarrow> i),
         q_page_size = (case size of None \<Rightarrow> 25 | Some i \<Rightarrow> i)\<rparr>)))))))))))))))"

subsection \<open>What is relied on\<close>

text \<open>
  Documented behaviour of the framework: a validated \<open>CharField\<close> is not blank, has no NUL and keeps
  its \<open>max_length\<close>; a \<open>DateTimeField\<close> reads the instant \<open>parse_datetime\<close> reads, in the current
  timezone; the exception handler answers an \<open>APIException\<close> with its status (an authentication failure
  with 401, as every view names its scheme), \<open>Http404\<close> with 404, and knows no other exception.
\<close>

definition drf_fields_ok :: "drf \<Rightarrow> bool" where
  "drf_fields_ok D \<longleftrightarrow>
     (\<forall>trim limit v s. d_char D trim limit v = Some s \<longrightarrow>
        s \<noteq> [] \<and> CHR 0x00 \<notin> set s \<and> (\<forall>n. limit = Some n \<longrightarrow> length s \<le> n)) \<and>
     (\<forall>s p x. d_parse_datetime D s = Some (Some p) \<and> \<not> is_naive p \<and> d_datetime D (JStr s) = Some x \<longrightarrow>
        \<not> is_naive x \<and> dt_instant x = dt_instant p)"

definition drf_handler_ok :: "drf \<Rightarrow> bool" where
  "drf_handler_ok D \<longleftrightarrow> (\<forall>x. map_option fst (d_handler D x) = (case x of
     GatewayError c m s \<Rightarrow> Some s
   | MachineAuthenticationError c \<Rightarrow> Some 401
   | Throttled n \<Rightarrow> Some 429
   | ValidationError m \<Rightarrow> Some 400
   | ParseError \<Rightarrow> Some 400
   | UnsupportedMediaType \<Rightarrow> Some 415
   | Http404 \<Rightarrow> Some 404
   | _ \<Rightarrow> None))"

lemma char_ok:
  assumes "drf_fields_ok D" "d_char D trim limit v = Some s"
  shows "text_fits limit s" "s \<noteq> []"
proof -
  have s: "s \<noteq> [] \<and> CHR 0x00 \<notin> set s \<and> (\<forall>n. limit = Some n \<longrightarrow> length s \<le> n)"
    using assms unfolding drf_fields_ok_def by blast
  then show "s \<noteq> []" by blast
  show "text_fits limit s" using s by (cases limit) (auto simp: text_fits_def)
qed

lemma aware_datetime_ok:
  assumes "drf_fields_ok D" "aware_datetime D v = Some x"
  shows "\<not> is_naive x"
  using assms by (auto simp: aware_datetime_def drf_fields_ok_def split: json.splits option.splits if_splits)

end
