(* ===== verification/Views.thy ===== *)
theory Views
  imports Serializers Workflow
begin

text \<open>
  \<open>apps/meetings/views.py\<close>, \<open>common/exceptions.py\<close> and \<open>common/middleware.py\<close>: the endpoints of the API
  on an authenticated principal, the envelope every exception is turned into, and one request
  served from its authorization header to its response. A view returns the status and the body.
\<close>

subsection \<open>Guards\<close>

definition require_scope :: "client \<Rightarrow> string list \<Rightarrow> exn + unit" where
  "require_scope u scopes =
     (if list_ex (\<lambda>s. s \<notin> set (c_scopes u)) scopes
      then Inl (GatewayError ''INSUFFICIENT_SCOPE'' ''Required scope is missing.'' 403) else Inr ())"

definition owned :: "client \<Rightarrow> uuid \<Rightarrow> db \<Rightarrow> exn + meeting" where
  "owned u pk d =
     (case List.find (\<lambda>m. m_id m = pk \<and> m_integration_client m = c_id u) (db_meetings d) of
        None \<Rightarrow> Inl Http404 | Some m \<Rightarrow> Inr m)"

definition validated :: "'a option \<Rightarrow> exn + 'a" where
  "validated v = (case v of None \<Rightarrow> Inl (ValidationError ''invalid'') | Some x \<Rightarrow> Inr x)"

definition success :: "json \<Rightarrow> json" where
  "success data = JObj [(''success'', JBool True), (''data'', data)]"

subsection \<open>Creating a meeting\<close>

text \<open>The token of the response: kept from the provisioning, fetched for a replay, or withheld.\<close>

definition response_token ::
    "env \<Rightarrow> client \<Rightarrow> meeting \<Rightarrow> provider_auth_result option \<Rightarrow> world \<Rightarrow> (exn + provider_auth_result option) \<times> world" where
  "response_token E u current token w =
     (if ''meeting:token'' \<in> set (c_scopes u)
      then
        bind_w (case token of
            Some t \<Rightarrow> (Inr t, w)
          | None \<Rightarrow>
              (case m_room current of
                 None \<Rightarrow> (Inl AttributeError, w)
               | Some k \<Rightarrow> (case get_room k (w_db w) of
                     None \<Rightarrow> (Inl DoesNotExist, w) | Some r \<Rightarrow> get_token E r False w))) (\<lambda>t w1.
          (Inr (Some t), w1\<lparr>w_db := audit E (w_now w1) ''convay_token_issued'' ''meetings.Meeting'' (m_id current)
             (Some (c_id u)) None None (w_db w1)\<rparr>))
      else (Inr None, w))"

text \<open>\<open>request.data\<close> is the parsed body or the parser's exception.\<close>

definition create_view :: "env \<Rightarrow> drf \<Rightarrow> uuid \<Rightarrow> exn + json \<Rightarrow> client \<Rightarrow> world \<Rightarrow> (exn + nat \<times> json) \<times> world" where
  "create_view E D pk data u w =
     bind_w (bind_r (require_scope u [''meeting:write'']) (\<lambda>_.
       bind_r data (\<lambda>body. validated (create_request D body))), w) (\<lambda>values w.
       case register E (w_now w) pk u values (w_db w) of
         (Inl x, d) \<Rightarrow> (Inl x, w\<lparr>w_db := d\<rparr>)
       | (Inr (m, created), d) \<Rightarrow>
           bind_w (provision E (m_id m) values (w\<lparr>w_db := d\<rparr>)) (\<lambda>(current, token) w2.
           bind_w (response_token E u current token w2) (\<lambda>shown w3.
             (bind_r (representation E current shown) (\<lambda>body.
                Inr (if created then 201 else 200, success body)), w3))))"

subsection \<open>Listing and reading\<close>

definition from_to :: "datetime option \<Rightarrow> datetime option \<Rightarrow> int option \<Rightarrow> bool" where
  "from_to lo hi t \<longleftrightarrow>
     (case lo of None \<Rightarrow> True | Some a \<Rightarrow> (case t of None \<Rightarrow> False | Some x \<Rightarrow> dt_instant a \<le> x)) \<and>
     (case hi of None \<Rightarrow> True | Some b \<Rightarrow> (case t of None \<Rightarrow> False | Some x \<Rightarrow> x \<le> dt_instant b))"

definition same_if :: "'a option \<Rightarrow> 'a \<Rightarrow> bool" where
  "same_if v x \<longleftrightarrow> (case v of None \<Rightarrow> True | Some y \<Rightarrow> x = y)"

fun contains :: "string \<Rightarrow> string \<Rightarrow> bool" where
  "contains p [] = (p = [])"
| "contains p (c # cs) = (starts_with (c # cs) p \<or> contains p cs)"

text \<open>\<open>Meeting.objects.filter(...)\<close>; \<open>icontains\<close> compares the database's uppercase texts.\<close>

definition search_matches :: "drf \<Rightarrow> client \<Rightarrow> search_values \<Rightarrow> meeting \<Rightarrow> bool" where
  "search_matches D u q m \<longleftrightarrow>
     m_integration_client m = c_id u \<and> same_if (q_id q) (m_id m) \<and>
     same_if (q_external_class_id q) (m_external_class_id m) \<and> same_if (q_teacher_id q) (m_teacher_id m) \<and>
     (case q_teacher_name q of None \<Rightarrow> True | Some s \<Rightarrow> contains (d_upper D s) (d_upper D (m_teacher_name m))) \<and>
     same_if (q_batch_id q) (m_batch_id m) \<and>
     (case q_provider_calendar_id q of None \<Rightarrow> True | Some s \<Rightarrow> m_provider_calendar_id m = Some s) \<and>
     same_if (q_status q) (status_text (m_status m)) \<and> same_if (q_class_date q) (m_class_date m) \<and>
     from_to (q_start_from q) (q_start_to q) (m_start_at m) \<and>
     from_to (q_created_from q) (q_created_to q) (Some (m_created_at m))"

text \<open>
  \<open>order_by("-created_at", "-id")\<close>, and the slice of a page, which is SQL's \<open>LIMIT\<close> and \<open>OFFSET\<close>: an offset
  that is no PostgreSQL \<open>bigint\<close> is an error.
\<close>

definition search_rows :: "drf \<Rightarrow> client \<Rightarrow> search_values \<Rightarrow> db \<Rightarrow> meeting list" where
  "search_rows D u q d =
     rev (sort_key (\<lambda>m. (m_created_at m, m_id m)) (filter (search_matches D u q) (db_meetings d)))"

definition page_slice :: "int \<Rightarrow> int \<Rightarrow> 'a list \<Rightarrow> 'a list" where
  "page_slice page per rows = take (nat per) (drop (nat ((page - 1) * per)) rows)"

definition page_rows :: "int \<Rightarrow> int \<Rightarrow> 'a list \<Rightarrow> exn + 'a list" where
  "page_rows page per rows = (if (page - 1) * per \<ge> 2 ^ 63 then Inl DataError else Inr (page_slice page per rows))"

fun represent_all :: "env \<Rightarrow> meeting list \<Rightarrow> exn + json list" where
  "represent_all E [] = Inr []"
| "represent_all E (m # ms) =
     bind_r (representation E m None) (\<lambda>v. bind_r (represent_all E ms) (\<lambda>vs. Inr (v # vs)))"

definition list_view :: "env \<Rightarrow> drf \<Rightarrow> json \<Rightarrow> client \<Rightarrow> db \<Rightarrow> exn + nat \<times> json" where
  "list_view E D params u d =
     bind_r (require_scope u [''meeting:read'']) (\<lambda>_.
     bind_r (validated (search_request D params)) (\<lambda>q.
       let rows = search_rows D u q d in
       bind_r (page_rows (q_page q) (q_page_size q) rows) (\<lambda>page.
       bind_r (represent_all E page) (\<lambda>results.
         Inr (200, success (JObj [(''count'', JInt (int (length rows))), (''page'', JInt (q_page q)),
           (''pageSize'', JInt (q_page_size q)), (''results'', JArr results)]))))))"

definition detail_view :: "env \<Rightarrow> uuid \<Rightarrow> client \<Rightarrow> db \<Rightarrow> exn + nat \<times> json" where
  "detail_view E pk u d =
     bind_r (require_scope u [''meeting:read'']) (\<lambda>_.
     bind_r (owned u pk d) (\<lambda>m.
     bind_r (representation E m None) (\<lambda>body. Inr (200, success body))))"

subsection \<open>Tokens and availability\<close>

definition token_body :: "env \<Rightarrow> meeting \<Rightarrow> provider_auth_result \<Rightarrow> json" where
  "token_body E m t = success (JObj [(''id'', JStr (show_uuid (m_id m))),
     (''convay'', JObj [(''calendarId'', opt_str (m_provider_calendar_id m)), (''authorization'', authorization E t)])])"

definition token_view :: "env \<Rightarrow> uuid \<Rightarrow> client \<Rightarrow> world \<Rightarrow> (exn + nat \<times> json) \<times> world" where
  "token_view E pk u w =
     bind_w (bind_r (require_scope u [''meeting:token'']) (\<lambda>_. owned u pk (w_db w)), w) (\<lambda>m w.
       if m_status m \<notin> {READY, LIVE} \<or> m_room m = None
       then (Inl (conflict ''INVALID_STATE'' ''Tokens are available only for ready or live meetings.''), w)
       else (case get_room (the (m_room m)) (w_db w) of
           None \<Rightarrow> (Inl DoesNotExist, w)
         | Some r \<Rightarrow>
             (case get_token E r False w of
                (Inl (ProviderExn e), w1) \<Rightarrow>
                  (Inl (GatewayError (pe_code e) ''Provider authentication failed.''
                     (if pe_code e \<in> {''PROVIDER_RATE_LIMITED'', ''PROVIDER_UNAVAILABLE''} then 503 else 502)),
                   w1\<lparr>w_db := audit E (w_now w1) ''provider_error'' ''meetings.Meeting'' (m_id m) (Some (c_id u)) None
                        (Some e) (w_db w1)\<rparr>)
              | (Inl x, w1) \<Rightarrow> (Inl x, w1)
              | (Inr t, w1) \<Rightarrow>
                  (Inr (200, token_body E m t),
                   w1\<lparr>w_db := audit E (w_now w1) ''convay_token_issued'' ''meetings.Meeting'' (m_id m) (Some (c_id u)) None
                        None (w_db w1)\<rparr>))))"

text \<open>\<open>.astimezone(utc).isoformat().replace("+00:00", "Z")\<close> of the answer's instants.\<close>

definition zulu :: "env \<Rightarrow> int \<Rightarrow> string" where
  "zulu E t = py_replace ''+00:00'' ''Z'' (e_isoformat E (utc t))"

definition availability_view :: "env \<Rightarrow> drf \<Rightarrow> json \<Rightarrow> client \<Rightarrow> db \<Rightarrow> exn + nat \<times> json" where
  "availability_view E D params u d =
     bind_r (require_scope u [''room:read'']) (\<lambda>_.
     bind_r (validated (availability_request D params)) (\<lambda>(s, e).
     bind_r (availability E d u s e) (\<lambda>a.
       Inr (200, success (JObj [(''startAt'', JStr (zulu E (av_start_at a))), (''endAt'', JStr (zulu E (av_end_at a))),
         (''available'', JBool (av_available a))])))))"

subsection \<open>The error envelope and the middleware\<close>

definition error_body :: "string \<Rightarrow> string \<Rightarrow> json \<Rightarrow> string \<Rightarrow> json" where
  "error_body code message details request_id =
     JObj [(''success'', JBool False), (''code'', JStr code), (''message'', JStr message), (''details'', details),
       (''requestId'', JStr request_id)]"

text \<open>\<open>getattr(exc, "default_code", "REQUEST_ERROR").upper()\<close>; the gateway's own exceptions set the attribute.\<close>

definition error_code :: "drf \<Rightarrow> exn \<Rightarrow> string" where
  "error_code D x = upper (case x of
     GatewayError c m s \<Rightarrow> c
   | MachineAuthenticationError c \<Rightarrow> c
   | _ \<Rightarrow> (case d_default_code D x of None \<Rightarrow> ''REQUEST_ERROR'' | Some c \<Rightarrow> c))"

definition error_message :: "exn \<Rightarrow> string" where
  "error_message x = (case x of GatewayError c m s \<Rightarrow> m | _ \<Rightarrow> ''Request could not be processed.'')"

definition exception_handler :: "drf \<Rightarrow> string \<Rightarrow> exn \<Rightarrow> nat \<times> json" where
  "exception_handler D request_id x =
     (case d_handler D x of
        None \<Rightarrow> (500, error_body ''INTERNAL_ERROR'' ''An internal error occurred.'' (JObj []) request_id)
      | Some (st, data) \<Rightarrow>
          (st, error_body (error_code D x) (error_message x) (if st = 400 then data else JObj []) request_id))"

text \<open>
  \<open>RequestIDMiddleware\<close>: a response is its status, the data of a REST framework response (\<open>None\<close> for
  any other response) and its headers.
\<close>

record http_response =
  hr_status :: nat
  hr_data :: "json option"
  hr_headers :: "(string \<times> string) list"

definition middleware :: "string \<Rightarrow> string \<Rightarrow> http_response \<Rightarrow> http_response" where
  "middleware request_id path r =
     (let r1 = (if hr_status r \<ge> 400 \<and> starts_with path ''/api/'' \<and> hr_data r = None
                then \<lparr>hr_status = hr_status r, hr_data = Some (error_body
                       (if hr_status r = 404 then ''NOT_FOUND''
                        else if hr_status r \<ge> 500 then ''INTERNAL_ERROR'' else ''REQUEST_ERROR'')
                       (if hr_status r \<ge> 500 then ''An internal error occurred.'' else ''Request could not be processed.'')
                       (JObj []) request_id), hr_headers = []\<rparr>
                else r)
      in r1\<lparr>hr_headers := dict_set ''Cache-Control'' ''no-store'' (dict_set ''X-Request-ID'' request_id (hr_headers r1))\<rparr>)"

subsection \<open>Serving a request\<close>

text \<open>\<open>APIView.dispatch\<close>: authentication, the view, and the exception handler around both.\<close>

type_synonym view = "client \<Rightarrow> world \<Rightarrow> (exn + nat \<times> json) \<times> world"

definition reading :: "(client \<Rightarrow> db \<Rightarrow> exn + nat \<times> json) \<Rightarrow> view" where
  "reading f u w = (f u (w_db w), w)"

definition respond :: "drf \<Rightarrow> string \<Rightarrow> exn + nat \<times> json \<Rightarrow> nat \<times> json" where
  "respond D request_id res = (case res of Inr p \<Rightarrow> p | Inl x \<Rightarrow> exception_handler D request_id x)"

definition serve :: "auth_env \<Rightarrow> drf \<Rightarrow> view \<Rightarrow> string \<Rightarrow> string \<Rightarrow> world \<Rightarrow> (nat \<times> json) \<times> world" where
  "serve A D view header remote w =
     (let request_id = e_request_id (a_env A) in
      case authenticate_request A (w_now w) header remote (w_db w) of
        Inl x \<Rightarrow> (exception_handler D request_id x, w)
      | Inr ((u, _), d) \<Rightarrow>
          (case view u (w\<lparr>w_db := d\<rparr>) of (res, w1) \<Rightarrow> (respond D request_id res, w1)))"

end
