(* ===== verification/Access.thy ===== *)
theory Access
  imports Views "HOL-Library.Multiset"
begin

text \<open>
  What a request may do, whoever sends it: the contract of an endpoint as a locale (constraints kept,
  the meetings of other clients untouched, the audit trail extended), interpreted on every view, and
  the properties of the API as a whole: refused requests change nothing, clients are isolated from
  each other, pages partition a listing, errors are enveloped.
\<close>

subsection \<open>The frame of provisioning\<close>

lemma provider_create_outside: "outside_only w (snd (provider_create E j w))"
  unfolding provider_create_def
proof (rule token_op.bind_outside, goal_cases)
  case (1 tok w)
  obtain res w2 where s: "start_meeting E (j_room j) (j_payload j) (access_token tok) w = (res, w2)" by fastforce
  then have 2: "outside_only w w2"
    using start_op.outside[where E = E and r = "j_room j" and payload = "j_payload j" and token = "access_token tok" and w = w]
    by simp
  have again: "outside_only w3 (snd (bind_w (get_token E (j_room j) True w3) (\<lambda>tok' w4.
      bind_w (start_meeting E (j_room j) (j_payload j) (access_token tok') w4) (\<lambda>res w5. (Inr (res, tok'), w5)))))" for w3
    by (rule token_op.bind_outside, rule start_op.bind_outside) simp
  have "outside_only w2 (snd (bind_w (invalidate (j_room j) w2) (\<lambda>_ w3.
             bind_w (get_token E (j_room j) True w3) (\<lambda>tok' w4.
             bind_w (start_meeting E (j_room j) (j_payload j) (access_token tok') w4) (\<lambda>res w5.
               (Inr (res, tok'), w5))))))"
    by (rule invalidate_op.bind_outside) (rule again)
  then have "outside_only w (snd (bind_w (invalidate (j_room j) w2) (\<lambda>_ w3.
             bind_w (get_token E (j_room j) True w3) (\<lambda>tok' w4.
             bind_w (start_meeting E (j_room j) (j_payload j) (access_token tok') w4) (\<lambda>res w5.
               (Inr (res, tok'), w5))))))"
    by (rule outside_only_trans[OF 2])
  then show ?case
    using 2 by (cases res) (simp_all add: s)
qed

lemma get_meeting_audit [simp]:
  fixes d :: db
  shows "get_meeting k (audit E now a l ob c ad p d) = get_meeting k d"
  by (rule fetch_cong) simp

text \<open>A change about the meeting \<open>pk\<close> only.\<close>

definition only_meeting :: "uuid \<Rightarrow> db \<Rightarrow> db \<Rightarrow> bool" where
  "only_meeting pk d d' \<longleftrightarrow> run_frame d d' \<and> (\<forall>k. k \<noteq> pk \<longrightarrow> get_meeting k d' = get_meeting k d) \<and>
     db_clients d' = db_clients d"

lemma only_meeting_trans: "only_meeting pk d d1 \<Longrightarrow> only_meeting pk d1 d2 \<Longrightarrow> only_meeting pk d d2"
  using run_frame_trans unfolding only_meeting_def by metis

lemma tx_only_meeting: "tx_effect {pk} d d' \<Longrightarrow> only_meeting pk d d'"
  using tx_frame[of "{pk}" d d'] by (simp add: only_meeting_def tx_effect_def)

lemma only_meeting_refl: "db_wf d \<Longrightarrow> only_meeting pk d d"
  using tx_only_meeting tx_effect_refl by blast

lemma outside_only_meeting: "outside_only w w' \<Longrightarrow> db_wf (w_db w) \<Longrightarrow> only_meeting pk (w_db w) (w_db w')"
  using outside_frame outside_only_get unfolding only_meeting_def by (auto simp: outside_only_def)

lemma audit_only_meeting: "only_meeting pk d d1 \<Longrightarrow> only_meeting pk d (audit E now a l ob c ad p d1)"
proof -
  assume o: "only_meeting pk d d1"
  from o obtain rs where "db_audit d1 = db_audit d @ rs" unfolding only_meeting_def run_frame_def by blast
  then have "\<exists>rs. db_audit (audit E now a l ob c ad p d1) = db_audit d @ rs" by (simp add: audit_def audit_record_def)
  then show ?thesis using o by (simp add: only_meeting_def run_frame_def)
qed

lemma finish_only_meeting:
  assumes wf: "db_wf (w_db w)" and f: "provision_finish E j outcome w = (res, w')"
  shows "only_meeting (job_id j) (w_db w) (w_db w')"
proof -
  note refl = only_meeting_refl[OF wf, of "job_id j"]
  show ?thesis
  proof (cases outcome)
    case (Inr rt)
    obtain r tok where rt: "rt = (r, tok)" by (cases rt)
    obtain res1 w1 where t: "run_tx (record_success E (w_now w) (job_id j) (j_retrying j) r) w = (res1, w1)" by fastforce
    have "w' = w1" using f Inr rt t by (cases res1) (simp_all add: provision_finish_def job_id_def)
    then show ?thesis using success_tx.run_effect[OF wf t] tx_only_meeting by simp
  next
    case (Inl x)
    show ?thesis
    proof (cases "\<exists>e. x = ProviderExn e")
      case False
      then have "w' = w" using f Inl by (cases x) (simp_all add: provision_finish_def)
      then show ?thesis using refl by simp
    next
      case True
      then obtain e where e: "x = ProviderExn e" by blast
      obtain i w1 where i: "(if pe_status_code e = Some 401 then invalidate (j_room j) w else (Inr (), w)) = (i, w1)"
        by fastforce
      have db1: "w_db w1 = w_db w" using i by (auto simp: invalidate_def cache_delete_def split: if_splits)
      obtain res2 w2 where t: "run_tx (record_failure E (w_now w1) (job_id j) (j_retrying j) e) w1 = (res2, w2)" by fastforce
      have "w' = w1 \<or> w' = w2"
        using f Inl e i t by (cases i; cases res2) (simp_all add: provision_finish_def job_id_def)
      then show ?thesis
        using failure_tx.run_effect[OF _ t] tx_only_meeting refl wf db1 by auto
    qed
  qed
qed

lemma provision_only_meeting:
  assumes wf: "db_wf (w_db w)" and p: "provision E pk v w = (res, w')"
  shows "only_meeting pk (w_db w) (w_db w')"
proof -
  obtain b w1 where t: "run_tx (provision_begin E (w_now w) pk v) w = (b, w1)" by fastforce
  have 1: "only_meeting pk (w_db w) (w_db w1)" using begin_tx.run_effect[OF wf t] tx_only_meeting by simp
  show ?thesis
  proof (cases "\<exists>j. b = Inr (Started j)")
    case False
    then have "w' = w1" using p t by (cases b) (auto simp: provision_def split: begun.splits)
    then show ?thesis using 1 by simp
  next
    case True
    then obtain j where b: "b = Inr (Started j)" by blast
    have beg: "provision_begin E (w_now w) pk v (w_db w) = Inr (Started j, w_db w1)"
      using t b by (auto simp: run_tx_def split: sum.splits prod.splits)
    have wf1: "db_wf (w_db w1)" using 1 by (simp add: only_meeting_def run_frame_def)
    have id: "job_id j = pk" using begin_frame[OF wf beg] by blast
    obtain outcome w2 where c: "provider_create E j w1 = (outcome, w2)" by fastforce
    have 2: "only_meeting pk (w_db w1) (w_db w2)"
      using outside_only_meeting[of w1 w2] provider_create_outside[of w1 E j] c wf1 by simp
    then have wf2: "db_wf (w_db w2)" by (simp add: only_meeting_def run_frame_def)
    have "provision_finish E j outcome w2 = (res, w')" using p t b c by (simp add: provision_def)
    then have "only_meeting pk (w_db w2) (w_db w')" using finish_only_meeting[OF wf2] id by metis
    then show ?thesis using 1 2 only_meeting_trans by blast
  qed
qed

subsection \<open>The contract of an endpoint\<close>

text \<open>
  The endpoints of the API, with the scope each asks for and the arguments its route and body give
  it (\<open>config/urls.py\<close>).
\<close>

inductive api_endpoint :: "env \<Rightarrow> drf \<Rightarrow> string \<Rightarrow> view \<Rightarrow> bool" for E D where
  create: "api_endpoint E D ''meeting:write'' (create_view E D pk data)"
| listing: "api_endpoint E D ''meeting:read'' (reading (list_view E D params))"
| detail: "api_endpoint E D ''meeting:read'' (reading (detail_view E pk))"
| convay_token: "api_endpoint E D ''meeting:token'' (token_view E pk)"
| availability: "api_endpoint E D ''room:read'' (reading (availability_view E D params))"

inductive_cases api_endpointE: "api_endpoint E D scope view"

text \<open>
  What a request of the client \<open>u\<close> may do to the database: keep the constraints, every identity and
  the audit trail, leave the meetings of other clients as they are, add meetings of its own only.
\<close>

definition own_effect :: "client \<Rightarrow> db \<Rightarrow> db \<Rightarrow> bool" where
  "own_effect u d d' \<longleftrightarrow> run_frame d d' \<and>
     (\<forall>k m. get_meeting k d = Some m \<and> m_integration_client m \<noteq> c_id u \<longrightarrow> get_meeting k d' = Some m) \<and>
     (\<forall>k m'. get_meeting k d' = Some m' \<and> get_meeting k d = None \<longrightarrow> m_integration_client m' = c_id u)"

lemma own_effectI:
  assumes "run_frame d d'"
    and "\<And>k m. get_meeting k d = Some m \<Longrightarrow> m_integration_client m \<noteq> c_id u \<Longrightarrow> get_meeting k d' = Some m"
    and "\<And>k m. get_meeting k d' = Some m \<Longrightarrow> get_meeting k d = None \<Longrightarrow> m_integration_client m = c_id u"
  shows "own_effect u d d'"
  unfolding own_effect_def using assms by blast

lemma own_effectD:
  assumes "own_effect u d d'"
  shows "run_frame d d'"
    and "get_meeting k d = Some m \<Longrightarrow> m_integration_client m \<noteq> c_id u \<Longrightarrow> get_meeting k d' = Some m"
    and "get_meeting k d' = Some m \<Longrightarrow> get_meeting k d = None \<Longrightarrow> m_integration_client m = c_id u"
  using assms unfolding own_effect_def by blast+

lemma own_effect_refl: "db_wf d \<Longrightarrow> own_effect u d d"
  using only_meeting_refl by (auto simp: own_effect_def only_meeting_def)

lemma own_effect_trans:
  assumes 1: "own_effect u d d1" and 2: "own_effect u d1 d2"
  shows "own_effect u d d2"
proof (rule own_effectI)
  show "run_frame d d2" using own_effectD(1)[OF 1] own_effectD(1)[OF 2] by (rule run_frame_trans)
next
  fix k m
  assume "get_meeting k d = Some m" "m_integration_client m \<noteq> c_id u"
  then show "get_meeting k d2 = Some m" using own_effectD(2)[OF 1] own_effectD(2)[OF 2] by simp
next
  fix k m
  assume m: "get_meeting k d2 = Some m" and new: "get_meeting k d = None"
  show "m_integration_client m = c_id u"
  proof (cases "get_meeting k d1")
    case None
    then show ?thesis using own_effectD(3)[OF 2 m] by simp
  next
    case (Some m1)
    then have "m_integration_client m1 = c_id u" using own_effectD(3)[OF 1] new by simp
    moreover have "identity m = identity m1"
      using own_effectD(1)[OF 2] Some m unfolding run_frame_def by fastforce
    ultimately show ?thesis by (simp add: identity_def)
  qed
qed

lemma only_meeting_own:
  assumes "only_meeting pk d d'" and "get_meeting pk d = Some m" and "m_integration_client m = c_id u"
  shows "own_effect u d d'"
proof -
  have other: "get_meeting k d' = get_meeting k d" if "k \<noteq> pk" for k
    using assms(1) that by (simp add: only_meeting_def)
  show ?thesis
  proof (rule own_effectI)
    show "run_frame d d'" using assms(1) by (simp add: only_meeting_def)
    show "get_meeting k d' = Some x" if "get_meeting k d = Some x" "m_integration_client x \<noteq> c_id u" for k x
      using other[of k] that assms(2,3) by (cases "k = pk") auto
    show "m_integration_client x = c_id u" if "get_meeting k d' = Some x" "get_meeting k d = None" for k x
      using other[of k] that assms(2) by (cases "k = pk") auto
  qed
qed

lemma outside_own: "outside_only w w' \<Longrightarrow> db_wf (w_db w) \<Longrightarrow> own_effect u (w_db w) (w_db w')"
  using outside_frame outside_only_get by (auto simp: own_effect_def)

lemma audit_own: "own_effect u d d1 \<Longrightarrow> own_effect u d (audit E now a l ob c ad p d1)"
proof -
  assume o: "own_effect u d d1"
  then have "db_wf d1" by (simp add: own_effect_def run_frame_def)
  have "own_effect u d1 (audit E now a l ob c ad p d1)"
    using audit_only_meeting[OF only_meeting_refl[OF \<open>db_wf d1\<close>], where E = E and now = now and a = a and l = l
        and ob = ob and c = c and ad = ad and p = p]
    by (auto simp: own_effect_def only_meeting_def)
  with o show ?thesis by (rule own_effect_trans)
qed

lemma register_cong: "c_id c = c_id c' \<Longrightarrow> register E now pk c v d = register E now pk c' v d"
proof -
  assume "c_id c = c_id c'"
  then have "class_rows c (v_class_id v) d = class_rows c' (v_class_id v) d" "new_meeting pk c v = new_meeting pk c' v"
    by (simp_all add: class_rows_def new_meeting_def)
  then show ?thesis by (simp only: register_def)
qed

lemma register_own:
  assumes wf: "db_wf d" and u: "get_client (c_id u) d \<noteq> None" and r: "register E now pk u v d = (res, d')"
  shows "own_effect u d d' \<and> (\<forall>m b. res = Inr (m, b) \<longrightarrow>
    get_meeting (m_id m) d' = Some m \<and> m_integration_client m = c_id u \<and> (b \<longleftrightarrow> get_meeting (m_id m) d = None))"
proof -
  obtain row where row: "get_client (c_id u) d = Some row" using u by blast
  have "c_id row = c_id u" "row \<in> set (db_clients d)"
    using row by (auto dest: client_tbl.fetch_keyD client_tbl.fetch_mem)
  then have frame: "run_frame d d'" using register_frame[OF wf, of row] r register_cong[of row u] by metis
  have mwf: "meetings_wf d" using wf by (simp add: db_wf_def)
  show ?thesis
    using mwf r
  proof (cases rule: register_cases)
    case (fresh m d1)
    note ins = insert_meetingD[OF fresh(2)]
    have id: "m_id m = pk" "m_integration_client m = c_id u" by (simp_all add: ins(1) new_meeting_def)
    have new: "get_meeting pk d = None" using ins(4) by (simp add: new_meeting_def)
    have get: "get_meeting k d' = (if k = pk then Some m else get_meeting k d)" for k
      using new by (auto simp: fresh(4) ins(2) fetch_def row_get_append id split: option.split)
    then show ?thesis using frame new id fresh(3) by (auto simp: own_effect_def split: if_splits)
  next
    case (same m)
    have "m \<in> set (db_meetings d)" "m_integration_client m = c_id u"
      using arg_cong[OF same(1), of set] by (auto simp: class_rows_def)
    moreover from this have "get_meeting (m_id m) d = Some m"
      using mwf meeting_tbl.fetch_distinct by (auto simp: meetings_wf_def)
    ultimately show ?thesis using same own_effect_refl[OF wf] by auto
  next
    case (mismatch m)
    then show ?thesis using audit_own[OF own_effect_refl[OF wf]] by (simp add: audit_meeting_def)
  qed (use own_effect_refl[OF wf] in simp)
qed

text \<open>The principal of an authenticated request has a row.\<close>

lemma authenticated_client:
  assumes auth: "authenticate_request A now header remote d = Inr ((u, claims), d')"
  shows "get_client (c_id u) d' \<noteq> None"
proof -
  obtain row tok where vt: "validate_token A now tok remote d = Inr ((u, claims), d')"
    using auth by (auto simp: authenticate_request_def invalid_def split: list.splits if_splits)
  then obtain k where row: "get_client k d \<noteq> None" "c_id u = k"
    by (elim validate_tokenD) (auto dest: client_tbl.fetch_keyD)
  have "client_step d d'" using auth by (rule request_tx.step)
  then obtain ks where "map c_id (db_clients d') = map c_id (db_clients d) @ ks" by (auto simp: client_step_def)
  then have "set (map c_id (db_clients d)) \<subseteq> set (map c_id (db_clients d'))" by simp
  then show ?thesis using row by (auto simp: fetch_def row_get_None_iff)
qed

locale endpoint =
  fixes view :: view
  assumes own: "db_wf (w_db w) \<Longrightarrow> get_client (c_id u) (w_db w) \<noteq> None \<Longrightarrow> view u w = (res, w') \<Longrightarrow>
    own_effect u (w_db w) (w_db w')"
begin

text \<open>Served behind authentication, the principal's row has been touched before.\<close>

lemma served:
  assumes wf: "db_wf (w_db w)" "clients_valid (w_db w)" and s: "serve A D view header remote w = (resp, w')"
  shows "w' = w \<and> (\<exists>x. authenticate_request A (w_now w) header remote (w_db w) = Inl x) \<or>
    (\<exists>u claims d. authenticate_request A (w_now w) header remote (w_db w) = Inr ((u, claims), d) \<and>
       own_effect u (w_db w) (w_db w'))"
proof (cases "authenticate_request A (w_now w) header remote (w_db w)")
  case (Inl x)
  then show ?thesis using s by (simp add: serve_def Let_def)
next
  case (Inr p)
  obtain u claims d where p: "p = ((u, claims), d)" by (cases p) auto
  note auth = Inr[unfolded p]
  obtain res w1 where v: "view u (w\<lparr>w_db := d\<rparr>) = (res, w1)" by fastforce
  have w': "w' = w1" using s auth v by (simp add: serve_def Let_def)
  have wfd: "db_wf d" using request_tx.keeps_db_wf[OF auth wf] .
  have ms: "db_meetings d = db_meetings (w_db w)" using request_tx.keeps_meetings[OF auth] .
  have "get_client (c_id u) d \<noteq> None" using authenticated_client[OF auth] .
  with own[of "w\<lparr>w_db := d\<rparr>" u res w1] v wfd have "own_effect u d (w_db w1)" by simp
  moreover have "own_effect u (w_db w) d"
  proof -
    have "\<exists>rs. db_audit d = db_audit (w_db w) @ rs" using request_tx.extends_audit[OF auth] .
    moreover have "get_meeting k d = get_meeting k (w_db w)" for k by (rule fetch_cong) (rule ms)
    ultimately show ?thesis using wfd by (intro own_effectI) (auto simp: run_frame_def)
  qed
  ultimately show ?thesis using auth w' own_effect_trans by blast
qed

end

interpretation reading_endpoint: endpoint "reading f"
  by unfold_locales (auto simp: reading_def intro: own_effect_refl)

interpretation token_endpoint: endpoint "token_view E pk"
proof
  fix w u res w'
  assume wf: "db_wf (w_db w)" and v: "token_view E pk u w = (res, w')"
  note refl = own_effect_refl[OF wf, of u]
  show "own_effect u (w_db w) (w_db w')"
  proof (cases "w' = w")
    case False
    then obtain m r where "owned u pk (w_db w) = Inr m" "get_room (the (m_room m)) (w_db w) = Some r"
        "\<not> (m_status m \<notin> {READY, LIVE} \<or> m_room m = None)" "bind_r (require_scope u [''meeting:token'']) (\<lambda>_. owned u pk (w_db w)) = Inr m"
      using v by (cases "bind_r (require_scope u [''meeting:token'']) (\<lambda>_. owned u pk (w_db w))")
        (auto simp: token_view_def bind_r_Inr_iff split: if_splits option.splits)
    moreover obtain res1 w1 where g: "get_token E r False w = (res1, w1)" by fastforce
    moreover have 1: "own_effect u (w_db w) (w_db w1)"
      using outside_own[OF _ wf, of w1 u] token_op.outside[where E = E and r = r and force = False and w = w] g by simp
    ultimately show ?thesis
      using v audit_own[OF 1] by (auto simp: token_view_def split: sum.splits exn.splits)
  qed (use refl in simp)
qed

lemma response_token_own:
  assumes wf: "db_wf (w_db w)" and r: "response_token E u current token w = (res, w')"
  shows "own_effect u (w_db w) (w_db w')"
proof -
  note refl = own_effect_refl[OF wf, of u]
  obtain res1 w1 where g: "(case token of Some t \<Rightarrow> (Inr t, w)
          | None \<Rightarrow> (case m_room current of None \<Rightarrow> (Inl AttributeError, w)
               | Some k \<Rightarrow> (case get_room k (w_db w) of
                     None \<Rightarrow> (Inl DoesNotExist, w) | Some r \<Rightarrow> get_token E r False w))) = (res1, w1)"
    by (metis surj_pair)
  have 1: "own_effect u (w_db w) (w_db w1)"
  proof (cases "w1 = w")
    case False
    then obtain r where "get_token E r False w = (res1, w1)" using g by (auto split: option.splits)
    then show ?thesis
      using outside_own[OF _ wf, of w1 u] token_op.outside[where E = E and r = r and force = False and w = w] by simp
  qed (use refl in simp)
  show ?thesis
  proof (cases "''meeting:token'' \<in> set (c_scopes u)")
    case True
    then have "w' = w1 \<or> (\<exists>t. w_db w' = audit E (w_now w1) ''convay_token_issued'' ''meetings.Meeting'' (m_id current)
        (Some (c_id u)) None None (w_db w1))"
      using r g by (cases res1) (auto simp: response_token_def)
    then show ?thesis using 1 audit_own by auto
  next
    case False
    then show ?thesis using r refl by (simp add: response_token_def)
  qed
qed

text \<open>The stages of a creation request.\<close>

definition requested :: "drf \<Rightarrow> exn + json \<Rightarrow> request_values option" where
  "requested D data = (case data of Inl x \<Rightarrow> None | Inr body \<Rightarrow> create_request D body)"

lemma requestedD: "requested D data = Some v \<Longrightarrow> \<exists>body. data = Inr body \<and> create_request D body = Some v"
  by (cases data) (simp_all add: requested_def)

lemma create_viewD:
  assumes "create_view E D pk data u w = (res, w')"
  obtains (rejected) x where "res = Inl x" "w' = w"
      "bind_r (require_scope u [''meeting:write'']) (\<lambda>_. bind_r data (\<lambda>body. validated (create_request D body))) = Inl x"
  | (unregistered) v x d where "require_scope u [''meeting:write''] = Inr ()" "requested D data = Some v"
      "register E (w_now w) pk u v (w_db w) = (Inl x, d)" "res = Inl x" "w' = w\<lparr>w_db := d\<rparr>"
  | (unprovisioned) v m b d x where "require_scope u [''meeting:write''] = Inr ()" "requested D data = Some v"
      "register E (w_now w) pk u v (w_db w) = (Inr (m, b), d)" "provision E (m_id m) v (w\<lparr>w_db := d\<rparr>) = (Inl x, w')"
      "res = Inl x"
  | (untokened) v m b d current token w2 x where "require_scope u [''meeting:write''] = Inr ()"
      "requested D data = Some v" "register E (w_now w) pk u v (w_db w) = (Inr (m, b), d)"
      "provision E (m_id m) v (w\<lparr>w_db := d\<rparr>) = (Inr (current, token), w2)"
      "response_token E u current token w2 = (Inl x, w')" "res = Inl x"
  | (answered) v m b d current token w2 shown where "require_scope u [''meeting:write''] = Inr ()"
      "requested D data = Some v" "register E (w_now w) pk u v (w_db w) = (Inr (m, b), d)"
      "provision E (m_id m) v (w\<lparr>w_db := d\<rparr>) = (Inr (current, token), w2)"
      "response_token E u current token w2 = (Inr shown, w')"
      "res = bind_r (representation E current shown) (\<lambda>body. Inr (if b then 201 else 200, success body))"
proof (cases "bind_r (require_scope u [''meeting:write'']) (\<lambda>_. bind_r data (\<lambda>body. validated (create_request D body)))")
  case (Inl x)
  then show ?thesis using assms by (intro rejected[of x]) (auto simp: create_view_def)
next
  case (Inr v)
  then have v: "require_scope u [''meeting:write''] = Inr ()" "requested D data = Some v"
    by (auto simp: bind_r_Inr_iff validated_def requested_def split: option.splits)
  obtain reg d where r: "register E (w_now w) pk u v (w_db w) = (reg, d)" by fastforce
  show ?thesis
  proof (cases reg)
    case Inl2: (Inl x)
    then show ?thesis using assms Inr r v unregistered by (simp add: create_view_def)
  next
    case Inr2: (Inr mb)
    obtain m b where mb: "mb = (m, b)" by (cases mb)
    obtain p w2 where p: "provision E (m_id m) v (w\<lparr>w_db := d\<rparr>) = (p, w2)" by fastforce
    show ?thesis
    proof (cases p)
      case Inl3: (Inl x)
      then show ?thesis using assms Inr r v Inr2 mb p unprovisioned by (simp add: create_view_def)
    next
      case Inr3: (Inr ct)
      obtain current token where ct: "ct = (current, token)" by (cases ct)
      obtain t w3 where t: "response_token E u current token w2 = (t, w3)" by fastforce
      show ?thesis
        using assms Inr r v Inr2 mb p Inr3 ct t untokened[of v m b d current token w2] answered[of v m b d current token w2]
        by (cases t) (simp_all add: create_view_def)
    qed
  qed
qed

interpretation create_endpoint: endpoint "create_view E D pk data"
proof
  fix w u res w'
  assume wf: "db_wf (w_db w)" and u: "get_client (c_id u) (w_db w) \<noteq> None"
    and v: "create_view E D pk data u w = (res, w')"
  have reg: "own_effect u (w_db w) d \<and> db_wf d"
    if "register E (w_now w) pk u v (w_db w) = (r, d)" for v r d
    using register_own[OF wf u that] by (auto dest: own_effectD(1) simp: run_frame_def)
  have prov: "own_effect u (w_db w) (w_db w2) \<and> db_wf (w_db w2)"
    if r: "register E (w_now w) pk u v (w_db w) = (Inr (m, b), d)"
      and p: "provision E (m_id m) v (w\<lparr>w_db := d\<rparr>) = (p, w2)" for v m b d p w2
  proof -
    have m: "get_meeting (m_id m) d = Some m" "m_integration_client m = c_id u" using register_own[OF wf u r] by auto
    have "only_meeting (m_id m) d (w_db w2)" using provision_only_meeting[OF _ p] reg[OF r] by simp
    then have "own_effect u d (w_db w2)" using m by (rule only_meeting_own)
    then show ?thesis using reg[OF r] own_effect_trans by (auto dest: own_effectD(1) simp: run_frame_def)
  qed
  show "own_effect u (w_db w) (w_db w')"
    using v
  proof (cases rule: create_viewD)
    case (untokened v m b d current token w2 x)
    then show ?thesis using prov response_token_own own_effect_trans by blast
  next
    case (answered v m b d current token w2 shown)
    then show ?thesis using prov response_token_own own_effect_trans by blast
  qed (use reg prov own_effect_refl[OF wf] in auto)
qed

lemma api_endpoint_contract: "api_endpoint E D scope view \<Longrightarrow> endpoint view"
  by (erule api_endpointE)
    (simp_all add: create_endpoint.endpoint_axioms reading_endpoint.endpoint_axioms token_endpoint.endpoint_axioms)

subsection \<open>Requests that are refused\<close>

lemma authenticate_request_error:
  assumes "jwt_ok A" "authenticate_request A now header remote d = Inl x"
  shows "x \<in> MachineAuthenticationError ` {''TOKEN_EXPIRED'', ''INVALID_TOKEN''}"
  using assms validate_token_error[OF assms(1)]
  by (auto simp: authenticate_request_def invalid_def split: list.splits if_splits)

lemma handler_status:
  assumes "drf_handler_ok D"
  shows "\<exists>data. d_handler D (GatewayError c m s) = Some (s, data)"
    and "\<exists>data. d_handler D (MachineAuthenticationError c) = Some (401, data)"
    and "\<exists>data. d_handler D Http404 = Some (404, data)"
  using assms[unfolded drf_handler_ok_def, rule_format, of "GatewayError c m s"]
    assms[unfolded drf_handler_ok_def, rule_format, of "MachineAuthenticationError c"]
    assms[unfolded drf_handler_ok_def, rule_format, of Http404]
  by auto

lemma handled_gateway_error:
  assumes "drf_handler_ok D" "s \<noteq> 400"
  shows "exception_handler D rid (GatewayError c m s) = (s, error_body (upper c) m (JObj []) rid)"
  using handler_status(1)[OF assms(1), of c m s] assms(2)
  by (auto simp: exception_handler_def error_code_def error_message_def)

lemma handled_machine_error:
  assumes "drf_handler_ok D"
  shows "exception_handler D rid (MachineAuthenticationError c) =
    (401, error_body (upper c) ''Request could not be processed.'' (JObj []) rid)"
  using handler_status(2)[OF assms, of c] by (auto simp: exception_handler_def error_code_def error_message_def)

lemma scope_denied:
  assumes "api_endpoint E D scope view" "scope \<notin> set (c_scopes u)"
  shows "view u w = (Inl (GatewayError ''INSUFFICIENT_SCOPE'' ''Required scope is missing.'' 403), w)"
  using assms
  by (auto elim!: api_endpointE simp: create_view_def reading_def list_view_def detail_view_def token_view_def
      availability_view_def require_scope_def)

text \<open>
  C7, a refused request does nothing: without an acceptable token every endpoint answers 401 with
  TOKEN_EXPIRED or INVALID_TOKEN and the world stays as it is; with one that lacks the endpoint's
  scope it answers 403 INSUFFICIENT_SCOPE, and nothing changes but the client's last use, whatever
  the body and the parameters of the request are.
\<close>

theorem refused_requests_change_nothing:
  assumes "jwt_ok A" and "drf_handler_ok D" and "api_endpoint E D scope view"
  shows "(case authenticate_request A (w_now w) header remote (w_db w) of
      Inl x \<Rightarrow> \<exists>code. code \<in> {''TOKEN_EXPIRED'', ''INVALID_TOKEN''} \<and> serve A D view header remote w =
        ((401, error_body code ''Request could not be processed.'' (JObj []) (e_request_id (a_env A))), w)
    | Inr ((u, claims), d) \<Rightarrow> scope \<notin> set (c_scopes u) \<longrightarrow> serve A D view header remote w =
        ((403, error_body ''INSUFFICIENT_SCOPE'' ''Required scope is missing.'' (JObj []) (e_request_id (a_env A))),
         w\<lparr>w_db := d\<rparr>) \<and> (\<exists>row. d = touch_client (w_now w) row (w_db w)))"
proof (cases "authenticate_request A (w_now w) header remote (w_db w)")
  case (Inl x)
  then obtain code where x: "x = MachineAuthenticationError code" "code \<in> {''TOKEN_EXPIRED'', ''INVALID_TOKEN''}"
    using authenticate_request_error[OF assms(1)] by blast
  have "upper ''TOKEN_EXPIRED'' = ''TOKEN_EXPIRED''" "upper ''INVALID_TOKEN'' = ''INVALID_TOKEN''" by code_simp+
  then have "upper code = code" using x(2) by auto
  then show ?thesis
    using Inl x by (auto simp: serve_def Let_def handled_machine_error[OF assms(2)])
next
  case (Inr p)
  obtain u claims d where p: "p = ((u, claims), d)" by (cases p) auto
  have "upper ''INSUFFICIENT_SCOPE'' = ''INSUFFICIENT_SCOPE''" by code_simp
  moreover obtain tok where "validate_token A (w_now w) tok remote (w_db w) = Inr ((u, claims), d)"
    using Inr p by (auto simp: authenticate_request_def invalid_def split: list.splits if_splits)
  then have "\<exists>row. d = touch_client (w_now w) row (w_db w)" by (elim validate_tokenD) blast
  ultimately show ?thesis
    using Inr p scope_denied[OF assms(3), of u "w\<lparr>w_db := d\<rparr>"]
    by (auto simp: serve_def Let_def respond_def handled_gateway_error[OF assms(2)])
qed

text \<open>
  C6, clients cannot touch each other's meetings: a request on any endpoint, whatever it is and
  however it ends, keeps the schema's constraints and every meeting's identity, leaves every meeting
  of every other client exactly as it was, and adds meetings of the caller only.
\<close>

theorem requests_touch_own_meetings:
  assumes "api_endpoint E D scope view" and "db_wf (w_db w)" and "clients_valid (w_db w)"
    and "serve A D view header remote w = (resp, w')"
  shows "w' = w \<or> (\<exists>u claims d. authenticate_request A (w_now w) header remote (w_db w) = Inr ((u, claims), d) \<and>
    db_wf (w_db w') \<and> (\<exists>records. db_audit (w_db w') = db_audit (w_db w) @ records) \<and>
    (\<forall>k m. get_meeting k (w_db w) = Some m \<and> m_integration_client m \<noteq> c_id u \<longrightarrow> get_meeting k (w_db w') = Some m) \<and>
    (\<forall>k m. get_meeting k (w_db w) = Some m \<longrightarrow>
       (\<exists>m'. get_meeting k (w_db w') = Some m' \<and> identity m' = identity m)) \<and>
    (\<forall>k m'. get_meeting k (w_db w') = Some m' \<and> get_meeting k (w_db w) = None \<longrightarrow> m_integration_client m' = c_id u))"
  using endpoint.served[OF api_endpoint_contract[OF assms(1)] assms(2-4)]
  unfolding own_effect_def run_frame_def by blast

subsection \<open>Reading\<close>

abbreviation meetings_of :: "client \<Rightarrow> db \<Rightarrow> meeting list" where
  "meetings_of u d \<equiv> filter (\<lambda>m. m_integration_client m = c_id u) (db_meetings d)"

lemma search_rows_own: "search_rows D u q d = rev (sort_key (\<lambda>m. (m_created_at m, m_id m)) (filter (search_matches D u q) (meetings_of u d)))"
proof -
  have "filter (search_matches D u q) (db_meetings d) = filter (search_matches D u q) (meetings_of u d)"
    unfolding filter_filter by (intro filter_cong) (auto simp: search_matches_def)
  then show ?thesis by (simp add: search_rows_def)
qed

lemma owned_own: "owned u pk d = (case List.find (\<lambda>m. m_id m = pk) (meetings_of u d) of None \<Rightarrow> Inl Http404 | Some m \<Rightarrow> Inr m)"
proof -
  have "List.find (\<lambda>m. m_id m = pk \<and> m_integration_client m = c_id u) ms =
      List.find (\<lambda>m. m_id m = pk) (filter (\<lambda>m. m_integration_client m = c_id u) ms)" for ms :: "meeting list"
    by (induction ms) auto
  then show ?thesis unfolding owned_def by (simp only:)
qed

text \<open>
  C16, noninterference between clients: what the listing and the detail endpoint answer a client
  depends on nothing but the client's own meetings; two databases that agree on them give the same
  answers. A meeting of another client is not found, like one that does not exist, and asking for
  its provider token has no effect.
\<close>

theorem reads_depend_on_own_meetings:
  assumes "meetings_of u d1 = meetings_of u d2"
  shows "list_view E D params u d1 = list_view E D params u d2 \<and> detail_view E pk u d1 = detail_view E pk u d2 \<and>
    (pk \<notin> m_id ` set (meetings_of u d1) \<longrightarrow>
      detail_view E pk u d1 = bind_r (require_scope u [''meeting:read'']) (\<lambda>_. Inl Http404) \<and>
      (\<forall>w. w_db w = d1 \<longrightarrow> token_view E pk u w = (bind_r (require_scope u [''meeting:token'']) (\<lambda>_. Inl Http404), w)))"
proof -
  have rows: "search_rows D u q d1 = search_rows D u q d2" for q
    unfolding search_rows_own assms ..
  have own: "owned u k d1 = owned u k d2" for k unfolding owned_own assms ..
  have missing: "owned u pk d1 = Inl Http404" if "pk \<notin> m_id ` set (meetings_of u d1)"
  proof (cases "List.find (\<lambda>m. m_id m = pk) (meetings_of u d1)")
    case (Some m)
    then have "m \<in> set (meetings_of u d1) \<and> m_id m = pk" by (rule find_SomeD)
    with that show ?thesis by blast
  qed (simp add: owned_own)
  have "token_view E pk u w = (bind_r (require_scope u [''meeting:token'']) (\<lambda>_. Inl Http404), w)"
    if "pk \<notin> m_id ` set (meetings_of u d1)" "w_db w = d1" for w
    using missing[OF that(1)] that(2) by (cases "require_scope u [''meeting:token'']") (simp_all add: token_view_def)
  then show ?thesis
    using missing by (simp add: list_view_def detail_view_def rows own)
qed

subsection \<open>Listings and their pages\<close>

lemma concat_pages:
  "concat (map (\<lambda>i. page_slice (int i) per rows) [1..<Suc n]) = take (n * nat per) rows"
proof (induction n)
  case (Suc n)
  have "nat ((int (Suc n) - 1) * per) = n * nat per" by (cases "0 \<le> per") (simp_all add: nat_mult_distrib mult_nonneg_nonpos)
  then have "page_slice (int (Suc n)) per rows = take (nat per) (drop (n * nat per) rows)"
    by (simp add: page_slice_def)
  moreover have "[1..<Suc (Suc n)] = [1..<Suc n] @ [Suc n]" by simp
  moreover have "take (n * nat per + nat per) rows = take (n * nat per) rows @ take (nat per) (drop (n * nat per) rows)"
    by (rule take_add)
  ultimately show ?case using Suc by (simp add: add.commute del: upt_Suc)
qed simp

lemma represent_all_ok: "represent_all E ms = Inr (map (\<lambda>m. projr (representation E m None)) ms)"
  by (induction ms) (simp_all add: representation_def Let_def)

text \<open>
  C24, a listing is complete: it counts the caller's meetings that match, each once, ordered newest
  first with the id as tie-break; a page whose offset is a PostgreSQL \<open>bigint\<close> shows its slice of them in
  full, any later page ends in the database's error, and the pages up to any one that reaches the count,
  put together, are the whole listing with nothing twice or left out.
\<close>

theorem listing_is_paged_completely:
  assumes "search_request D params = Some q" and "''meeting:read'' \<in> set (c_scopes u)"
    and "distinct (map m_id (db_meetings d))"
  shows "\<exists>rows. mset rows = mset (filter (search_matches D u q) (db_meetings d)) \<and> distinct (map m_id rows) \<and>
    sorted_wrt (\<lambda>a b. (m_created_at b, m_id b) \<le> (m_created_at a, m_id a)) rows \<and>
    list_view E D params u d = (if (q_page q - 1) * q_page_size q < 2 ^ 63 then Inr (200, success (JObj
      [(''count'', JInt (int (length rows))), (''page'', JInt (q_page q)), (''pageSize'', JInt (q_page_size q)),
       (''results'', JArr (map (\<lambda>m. projr (representation E m None)) (page_slice (q_page q) (q_page_size q) rows)))]))
       else Inl DataError) \<and>
    (\<forall>n. length rows \<le> n * nat (q_page_size q) \<longrightarrow>
       concat (map (\<lambda>i. page_slice (int i) (q_page_size q) rows) [1..<Suc n]) = rows)"
proof (intro exI conjI allI impI)
  let ?rows = "search_rows D u q d"
  let ?key = "\<lambda>m. (m_created_at m, m_id m)"
  show m: "mset ?rows = mset (filter (search_matches D u q) (db_meetings d))" by (simp add: search_rows_def)
  have "mset (map m_id ?rows) = mset (map m_id (filter (search_matches D u q) (db_meetings d)))"
    using m by simp
  moreover have "distinct (map m_id (filter (search_matches D u q) (db_meetings d)))"
    using assms(3) by (rule distinct_map_filter)
  ultimately show "distinct (map m_id ?rows)" by (metis mset_eq_imp_distinct_iff)
  have "sorted_wrt (\<lambda>a b. ?key a \<le> ?key b) (sort_key ?key (filter (search_matches D u q) (db_meetings d)))"
    using sorted_sort_key[of ?key] by (simp add: sorted_map)
  then show "sorted_wrt (\<lambda>a b. ?key b \<le> ?key a) ?rows" by (simp add: search_rows_def sorted_wrt_rev)
  show "list_view E D params u d = (if (q_page q - 1) * q_page_size q < 2 ^ 63 then Inr (200, success (JObj
      [(''count'', JInt (int (length ?rows))), (''page'', JInt (q_page q)), (''pageSize'', JInt (q_page_size q)),
       (''results'', JArr (map (\<lambda>m. projr (representation E m None)) (page_slice (q_page q) (q_page_size q) ?rows)))]))
       else Inl DataError)"
    using assms(1,2) by (simp add: list_view_def require_scope_def validated_def represent_all_ok page_rows_def Let_def)
  show "concat (map (\<lambda>i. page_slice (int i) (q_page_size q) ?rows) [1..<Suc n]) = ?rows"
    if "length ?rows \<le> n * nat (q_page_size q)" for n
    using that by (simp only: concat_pages take_all)
qed

subsection \<open>Creating\<close>

lemma create_requestD:
  assumes "create_request D data = Some v"
  obtains kvs title tid tname bid bname s e cid day where "strict create_fields data = Some kvs"
    "required_field (d_char D True (Some 250)) kvs ''meetingTitle'' = Some title"
    "required_field (reference_fields D) kvs ''teacher'' = Some (tid, tname)"
    "required_field (reference_fields D) kvs ''batch'' = Some (bid, bname)"
    "required_field (aware_datetime D) kvs ''startAt'' = Some s"
    "required_field (aware_datetime D) kvs ''endAt'' = Some e"
    "required_field (class_fields D) kvs ''class'' = Some (cid, day)" "dt_instant s < dt_instant e"
    "v = \<lparr>v_title = title, v_class_id = cid, v_class_date = day, v_teacher_id = tid, v_teacher_name = tname,
         v_batch_id = bid, v_batch_name = bname, v_schedule_type = None, v_start = Some s, v_end = Some e\<rparr>"
  using assms by (auto simp: create_request_def bind_eq_Some_conv not_le split: if_splits)

lemma required_char: "drf_fields_ok D \<Longrightarrow> required_field (d_char D trim limit) kvs k = Some s \<Longrightarrow> text_fits limit s"
  by (auto simp: required_field_def bind_eq_Some_conv intro: char_ok)

lemma reference_ok:
  "drf_fields_ok D \<Longrightarrow> required_field (reference_fields D) kvs k = Some (i, n) \<Longrightarrow> text_fits (Some 160) i \<and> text_fits (Some 200) n"
  by (auto simp: required_field_def[of "reference_fields D"] reference_fields_def bind_eq_Some_conv intro: required_char)

lemma class_ok: "drf_fields_ok D \<Longrightarrow> required_field (class_fields D) kvs k = Some (i, day) \<Longrightarrow> text_fits (Some 160) i"
  by (auto simp: required_field_def[of "class_fields D"] class_fields_def bind_eq_Some_conv intro: required_char)

lemma required_aware: "drf_fields_ok D \<Longrightarrow> required_field (aware_datetime D) kvs k = Some x \<Longrightarrow> \<not> is_naive x"
  by (auto simp: required_field_def bind_eq_Some_conv dest: aware_datetime_ok)

lemma registration_answer:
  assumes "meetings_wf d" and "get_meeting pk d = None" and r: "register E now pk u v d = (res, d')"
    and m: "m0 = (new_meeting pk u v)\<lparr>m_created_at := now, m_updated_at := now\<rparr>"
    and ins: "class_rows u (v_class_id v) d = [] \<Longrightarrow>
      insert_meeting now (new_meeting pk u v) d = Inr (m0, d\<lparr>db_meetings := db_meetings d @ [m0]\<rparr>)"
  shows "case res of
       Inr (m, created) \<Rightarrow> get_meeting (m_id m) d' = Some m \<and> m_integration_client m = c_id u \<and>
         m_external_class_id m = v_class_id v \<and> (created \<longleftrightarrow> class_rows u (v_class_id v) d = []) \<and>
         (created \<longrightarrow> m_status m = DRAFT)
     | Inl x \<Rightarrow> db_meetings d' = db_meetings d \<and>
         x = GatewayError ''EXISTING_MEETING_MISMATCH'' ''Original meeting request data differs.'' 409"
  using assms(1) r
proof (cases rule: register_cases)
  case (fresh m d1)
  have new: "m = m0" "d1 = d\<lparr>db_meetings := db_meetings d @ [m0]\<rparr>" using ins[OF fresh(1)] fresh(2) by simp_all
  have id: "m_id m = pk" "m_integration_client m = c_id u" "m_external_class_id m = v_class_id v" "m_status m = DRAFT"
    by (simp_all add: new(1) m new_meeting_def)
  have "get_meeting pk d' = Some m"
    using assms(2) id(1) new(1) by (simp add: fresh(4) new(2) fetch_def row_get_append)
  then show ?thesis using fresh id by simp
next
  case (refused x)
  then show ?thesis using ins by simp
next
  case (same m)
  have "m \<in> set (db_meetings d)" "m_integration_client m = c_id u" "m_external_class_id m = v_class_id v"
    using arg_cong[OF same(1), of set] by (auto simp: class_rows_def)
  moreover from this have "get_meeting (m_id m) d = Some m"
    using assms(1) meeting_tbl.fetch_distinct by (auto simp: meetings_wf_def)
  ultimately show ?thesis using same by auto
next
  case (mismatch m)
  then show ?thesis by simp
qed

text \<open>
  C22, what the serializer accepts the database stores: an accepted body gives timezone-aware times in
  order and texts that fit their columns, so that registering it for a class without a row inserts a
  draft, and the only way registration can fail is the mismatch with an earlier request; no request
  body can make the insert violate a constraint or a column.
\<close>

theorem accepted_body_is_registered:
  assumes "drf_fields_ok D" and "create_request D data = Some v" and "meetings_wf d" and "get_meeting pk d = None"
  shows "aware_values v \<and> (\<exists>s e. v_start v = Some s \<and> v_end v = Some e \<and> dt_instant s < dt_instant e) \<and>
    (case register E now pk u v d of
       (Inr (m, created), d') \<Rightarrow> get_meeting (m_id m) d' = Some m \<and> m_integration_client m = c_id u \<and>
         m_external_class_id m = v_class_id v \<and> (created \<longleftrightarrow> class_rows u (v_class_id v) d = []) \<and>
         (created \<longrightarrow> m_status m = DRAFT)
     | (Inl x, d') \<Rightarrow> db_meetings d' = db_meetings d \<and>
         x = GatewayError ''EXISTING_MEETING_MISMATCH'' ''Original meeting request data differs.'' 409)"
proof -
  from assms(2) obtain kvs title tid tname bid bname s e cid day where c:
    "required_field (d_char D True (Some 250)) kvs ''meetingTitle'' = Some title"
    "required_field (reference_fields D) kvs ''teacher'' = Some (tid, tname)"
    "required_field (reference_fields D) kvs ''batch'' = Some (bid, bname)"
    "required_field (aware_datetime D) kvs ''startAt'' = Some s"
    "required_field (aware_datetime D) kvs ''endAt'' = Some e"
    "required_field (class_fields D) kvs ''class'' = Some (cid, day)" and lt: "dt_instant s < dt_instant e"
    and v: "v = \<lparr>v_title = title, v_class_id = cid, v_class_date = day, v_teacher_id = tid, v_teacher_name = tname,
         v_batch_id = bid, v_batch_name = bname, v_schedule_type = None, v_start = Some s, v_end = Some e\<rparr>"
    by (rule create_requestD)
  note ok = required_char[OF assms(1) c(1)] reference_ok[OF assms(1) c(2)] reference_ok[OF assms(1) c(3)]
    class_ok[OF assms(1) c(6)] required_aware[OF assms(1) c(4)] required_aware[OF assms(1) c(5)]
  have aware: "aware_values v" using ok(5,6) by (simp add: aware_values_def v)
  let ?m = "(new_meeting pk u v)\<lparr>m_created_at := now, m_updated_at := now\<rparr>"
  have tx: "meeting_text_ok ?m"
    using ok by (simp add: meeting_text_ok_def new_meeting_def v text_fits_def[of _ "[]"] opt_fits_def text_fits_def[of _ "_ # _"])
  have ins: "insert_meeting now (new_meeting pk u v) d = Inr (?m, d\<lparr>db_meetings := db_meetings d @ [?m]\<rparr>)"
    if none: "class_rows u (v_class_id v) d = []"
  proof -
    have "\<not> same_class ?m x" if "x \<in> set (db_meetings d)" for x
      using arg_cong[OF none, of set] that by (auto simp: class_rows_def same_class_def new_meeting_def v)
    moreover have "meeting_checks ?m"
      using lt by (simp add: meeting_checks_def new_meeting_def v active_reservation_complete_def
          positive_meeting_interval_def reservation_range_valid_def)
    ultimately have "meeting_violation ?m d = None"
      using tx by (simp add: meeting_violation_None_iff room_conflict_def) (simp add: new_meeting_def)
    then show ?thesis using assms(4) by (simp add: insert_meeting_def Let_def new_meeting_def)
  qed
  obtain res d' where r: "register E now pk u v d = (res, d')" by fastforce
  note registration_answer[OF assms(3,4) r refl ins]
  then show ?thesis using aware lt r by (cases res) (auto simp: v)
qed

lemma provision_ok:
  assumes wf: "db_wf (w_db w)" and p: "provision E pk v w = (Inr (current, token), w')"
  shows "get_meeting pk (w_db w') = Some current \<and> m_status current \<in> {READY, LIVE}"
proof -
  obtain b w1 where t: "run_tx (provision_begin E (w_now w) pk v) w = (b, w1)" by fastforce
  then obtain b' where b: "b = Inr b'" using p by (cases b) (simp_all add: provision_def)
  have beg: "provision_begin E (w_now w) pk v (w_db w) = Inr (b', w_db w1)"
    using t b by (auto simp: run_tx_def split: sum.splits prod.splits)
  show ?thesis
  proof (cases b')
    case (Replayed m)
    then have r: "current = m" "w' = w1" using p t b by (simp_all add: provision_def)
    show ?thesis
      using beg
    proof (cases rule: provision_begin_cases)
      case (replay m')
      have "get_meeting pk (w_db w1) = get_meeting pk (w_db w)" by (rule fetch_cong) (simp add: replay(4))
      then show ?thesis using replay r Replayed by auto
    next
      case (begun locked)
      then show ?thesis using begin_creation_effect[OF wf begun] Replayed by auto
    qed
  next
    case (Started j)
    obtain outcome w2 where c: "provider_create E j w1 = (outcome, w2)" by fastforce
    have f: "provision_finish E j outcome w2 = (Inr (current, token), w')"
      using p t b Started c by (simp add: provision_def)
    have id: "job_id j = pk" using begin_frame[OF wf beg] Started by blast
    show ?thesis
    proof (cases outcome)
      case (Inl x)
      then show ?thesis
        using f by (cases x) (auto simp: provision_finish_def bind_w_def Let_def split: prod.splits sum.splits)
    next
      case (Inr rt)
      obtain r tok where rt: "rt = (r, tok)" by (cases rt)
      obtain res3 w3 where t3: "run_tx (record_success E (w_now w2) pk (j_retrying j) r) w2 = (res3, w3)" by fastforce
      then have "res3 = Inr current" "w' = w3"
        using f Inr rt id by (cases res3; simp add: provision_finish_def job_id_def)+
      then have "record_success E (w_now w2) pk (j_retrying j) r (w_db w2) = Inr (current, w_db w')"
        using t3 by (auto simp: run_tx_def split: sum.splits prod.splits)
      from record_success_status[OF this] show ?thesis by simp
    qed
  qed
qed

lemma response_token_frame:
  assumes "response_token E u current token w = (Inr shown, w')"
  shows "get_meeting k (w_db w') = get_meeting k (w_db w)" "shown \<noteq> None \<longleftrightarrow> ''meeting:token'' \<in> set (c_scopes u)"
proof -
  have tok: "get_meeting k (w_db w1) = get_meeting k (w_db w)" if "get_token E r False w = (res, w1)" for r res w1
    using outside_only_get[of w w1 k] token_op.outside[where E = E and r = r and force = False and w = w] that by simp
  show "get_meeting k (w_db w') = get_meeting k (w_db w)"
    using assms tok
    by (auto simp: response_token_def bind_w_def split: if_splits option.splits prod.splits sum.splits)
  show "shown \<noteq> None \<longleftrightarrow> ''meeting:token'' \<in> set (c_scopes u)"
    using assms by (auto simp: response_token_def bind_w_def split: if_splits prod.splits sum.splits)
qed

text \<open>The row of a successful creation request, from its registration to its answer.\<close>

lemma created_answer_row:
  assumes "db_wf (w_db w)" and "get_client (c_id u) (w_db w) \<noteq> None"
    and "create_view E D pk data u w = (Inr (st, body), w')"
  shows "\<exists>parsed v m rep shown. data = Inr parsed \<and> create_request D parsed = Some v \<and> get_meeting (m_id m) (w_db w') = Some m \<and>
    m_integration_client m = c_id u \<and> m_external_class_id m = v_class_id v \<and> m_status m \<in> {READY, LIVE} \<and>
    st = (if class_rows u (v_class_id v) (w_db w) = [] then 201 else 200) \<and>
    body = success rep \<and> representation E m shown = Inr rep \<and>
    (shown \<noteq> None \<longleftrightarrow> ''meeting:token'' \<in> set (c_scopes u)) \<and>
    (\<exists>m0 b d. register E (w_now w) pk u v (w_db w) = (Inr (m0, b), d) \<and> identity m = identity m0)"
  using assms(3)
proof (cases rule: create_viewD)
  case (answered v m b d current token w2 shown)
  have mwf: "meetings_wf (w_db w)" using assms(1) by (simp add: db_wf_def)
  have own: "own_effect u (w_db w) d" "get_meeting (m_id m) d = Some m" "m_integration_client m = c_id u"
    using register_own[OF assms(1,2) answered(3)] by simp_all
  then have wfd: "db_wf d" by (auto dest: own_effectD(1) simp: run_frame_def)
  have cls: "m_external_class_id m = v_class_id v" "b \<longleftrightarrow> class_rows u (v_class_id v) (w_db w) = []"
    using mwf answered(3)
  proof (atomize(full), cases rule: register_cases)
    case (fresh m1 d1)
    then show "m_external_class_id m = v_class_id v \<and> b = (class_rows u (v_class_id v) (w_db w) = [])"
      using insert_meetingD(1)[OF fresh(2)] by (simp add: new_meeting_def)
  next
    case (same m1)
    have "m1 \<in> set (class_rows u (v_class_id v) (w_db w))" by (simp add: same(1))
    then have "m_external_class_id m1 = v_class_id v" by (simp add: class_rows_def)
    then show "m_external_class_id m = v_class_id v \<and> b = (class_rows u (v_class_id v) (w_db w) = [])"
      using same by simp
  qed simp_all
  have cur: "get_meeting (m_id m) (w_db w2) = Some current" "m_status current \<in> {READY, LIVE}"
    using provision_ok[OF _ answered(4)] wfd by simp_all
  obtain m2 where "get_meeting (m_id m) (w_db w2) = Some m2" "identity m2 = identity m"
    using provision_only_meeting[OF _ answered(4)] wfd own(2) unfolding only_meeting_def run_frame_def by force
  then have ident: "identity current = identity m" using cur(1) by simp
  have "get_meeting (m_id current) (w_db w') = Some current"
    using response_token_frame(1)[OF answered(5)] cur(1) ident by (simp add: identity_def)
  moreover obtain rep where "representation E current shown = Inr rep" "st = (if b then 201 else 200)" "body = success rep"
    using answered(6)[symmetric] by (auto simp: bind_r_Inr_iff)
  moreover obtain parsed where "data = Inr parsed" "create_request D parsed = Some v" using requestedD[OF answered(2)] by blast
  ultimately show ?thesis
    using answered(3) cls ident own(3) cur(2) response_token_frame(2)[OF answered(5)]
    by (intro exI[of _ parsed] exI[of _ v] exI[of _ current] exI[of _ rep] exI[of _ shown]) (simp add: identity_def)
qed simp_all

text \<open>
  C13, what a successful creation request answers: the caller owns a meeting for the requested class
  that is READY or LIVE in the database after the request, the status is 201 exactly when the class
  had no meeting before and 200 otherwise, and the body represents that very row, with the
  provider's authorization and start URL exactly for a caller with the scope meeting:token.
\<close>

theorem created_answer:
  assumes "db_wf (w_db w)" and "get_client (c_id u) (w_db w) \<noteq> None"
    and "create_view E D pk data u w = (Inr (st, body), w')"
  shows "\<exists>parsed v m rep shown. data = Inr parsed \<and> create_request D parsed = Some v \<and> get_meeting (m_id m) (w_db w') = Some m \<and>
    m_integration_client m = c_id u \<and> m_external_class_id m = v_class_id v \<and> m_status m \<in> {READY, LIVE} \<and>
    st = (if class_rows u (v_class_id v) (w_db w) = [] then 201 else 200) \<and>
    body = success rep \<and> representation E m shown = Inr rep \<and>
    (shown \<noteq> None \<longleftrightarrow> ''meeting:token'' \<in> set (c_scopes u))"
  using created_answer_row[OF assms] by blast

text \<open>
  A gap: on a replay, a provider error of the token request is not caught as it is in the token
  endpoint; it reaches the exception handler, which does not know it, as an internal error.
\<close>

lemma replay_provider_error_is_internal:
  assumes "drf_handler_ok D" and "{''meeting:write'', ''meeting:token''} \<subseteq> set (c_scopes u)"
    and "create_request D parsed = Some v" and "register E (w_now w) pk u v (w_db w) = (Inr (m, b), d)"
    and "provision E (m_id m) v (w\<lparr>w_db := d\<rparr>) = (Inr (current, None), w2)"
    and "m_room current = Some k" and "get_room k (w_db w2) = Some r"
    and "get_token E r False w2 = (Inl (ProviderExn e), w3)"
  shows "create_view E D pk (Inr parsed) u w = (Inl (ProviderExn e), w3) \<and>
    exception_handler D rid (ProviderExn e) =
      (500, error_body ''INTERNAL_ERROR'' ''An internal error occurred.'' (JObj []) rid)"
proof -
  have "d_handler D (ProviderExn e) = None"
    using assms(1)[unfolded drf_handler_ok_def, rule_format, of "ProviderExn e"] by simp
  then show ?thesis
    using assms(2-) by (simp add: create_view_def require_scope_def validated_def response_token_def exception_handler_def)
qed

subsection \<open>Errors\<close>

text \<open>
  C27, errors are enveloped: a failed response under the API's path, be it the exception handler's or
  one that never reached the REST framework, keeps its status and carries the error envelope with the
  request's id and, unless it is a 400, no details; what an unexpected exception holds appears nowhere,
  and a message other than the two fixed ones is a gateway error's own. Every response names the
  request id and forbids caching.
\<close>

theorem api_errors_are_enveloped:
  assumes "drf_handler_ok D" and "starts_with path ''/api/''" and "400 \<le> hr_status r"
    and "hr_data r = None \<or> exception_handler D rid x = (hr_status r, the (hr_data r))"
  shows "\<exists>code message details. hr_data (middleware rid path r) = Some (error_body code message details rid) \<and>
    hr_status (middleware rid path r) = hr_status r \<and> (hr_status r \<noteq> 400 \<longrightarrow> details = JObj []) \<and>
    (message \<in> {''Request could not be processed.'', ''An internal error occurred.''} \<or>
       (\<exists>c s. x = GatewayError c message s)) \<and>
    (hr_data r \<noteq> None \<and> (\<forall>s. map_option fst (d_handler D x) \<noteq> Some s) \<longrightarrow>
       hr_status r = 500 \<and> code = ''INTERNAL_ERROR'' \<and> message = ''An internal error occurred.'') \<and>
    map_of (hr_headers (middleware rid path r)) ''X-Request-ID'' = Some rid \<and>
    map_of (hr_headers (middleware rid path r)) ''Cache-Control'' = Some ''no-store''"
proof (cases "hr_data r")
  case None
  then show ?thesis
    using assms(2,3) by (simp add: middleware_def Let_def error_body_def)
next
  case (Some body)
  then have h: "exception_handler D rid x = (hr_status r, body)" using assms(4) by simp
  have mid: "hr_data (middleware rid path r) = Some body" "hr_status (middleware rid path r) = hr_status r"
      "map_of (hr_headers (middleware rid path r)) ''X-Request-ID'' = Some rid"
      "map_of (hr_headers (middleware rid path r)) ''Cache-Control'' = Some ''no-store''"
    using Some by (simp_all add: middleware_def Let_def)
  show ?thesis
  proof (cases "d_handler D x")
    case None
    then show ?thesis
      using h mid Some by (intro exI[of _ "''INTERNAL_ERROR''"] exI[of _ "''An internal error occurred.''"] exI[of _ "JObj []"])
        (auto simp: exception_handler_def)
  next
    case handled: (Some p)
    obtain s data where p: "p = (s, data)" by (cases p)
    have "error_message x = ''Request could not be processed.'' \<or> (\<exists>c s. x = GatewayError c (error_message x) s)"
      by (cases x) (simp_all add: error_message_def)
    then show ?thesis
      using h mid Some handled p
      by (intro exI[of _ "error_code D x"] exI[of _ "error_message x"] exI[of _ "if s = 400 then data else JObj []"])
        (auto simp: exception_handler_def)
  qed
qed

subsection \<open>Witnesses\<close>

lemma sample_handler_ok: "drf_handler_ok sample_drf"
  by (simp add: drf_handler_ok_def sample_drf_def sample_handler_def split: exn.split)

lemma sample_fields_ok: "drf_fields_ok sample_drf"
  by (auto simp: drf_fields_ok_def sample_drf_def sample_char_def Let_def split: json.splits if_splits option.splits)

lemma login_db_wf: "db_wf login_db"
proof -
  have "meetings_wf login_db" "rooms_wf login_db"
    using sample_db_wf unfolding db_wf_def by (simp_all add: meetings_wf_def rooms_wf_def login_db_def)
  moreover have "refs_wf login_db" by (simp add: refs_wf_def fetch_def) (simp add: login_db_def sample_rows)
  ultimately show ?thesis using login_valid by (simp add: db_wf_def clients_valid_def)
qed

theorem refused_requests_change_nothing_witness:
  "\<exists>code. serve sample_auth_env sample_drf (create_view sample_env sample_drf (UUID 50) (Inr JNull)) ''Basic x'' ''10.1.2.3'' login_world =
     ((401, error_body code ''Request could not be processed.'' (JObj []) (e_request_id sample_env)), login_world)"
proof -
  have "authenticate_request sample_auth_env (w_now login_world) ''Basic x'' ''10.1.2.3'' (w_db login_world) =
      Inl (MachineAuthenticationError ''INVALID_TOKEN'')"
  proof -
    have "split_words [] ''Basic x'' = [''Basic'', ''x'']" "lower ''Basic'' \<noteq> ''bearer''" by code_simp+
    then show ?thesis by (simp add: authenticate_request_def invalid_def)
  qed
  then show ?thesis
    using refused_requests_change_nothing[where w = login_world and header = "''Basic x''" and remote = "''10.1.2.3''",
        OF sample_jwt_ok sample_handler_ok api_endpoint.create[of sample_env sample_drf "UUID 50" "Inr JNull"]]
    by (auto simp: sample_auth_env_def)
qed

theorem requests_touch_own_meetings_witness:
  "\<exists>resp w' u claims d. serve sample_auth_env sample_drf (token_view sample_env (UUID 32)) (''Bearer '' @ login_token) ''10.1.2.3''
       (login_world\<lparr>w_now := 1000000\<rparr>) = (resp, w') \<and>
     (w' = login_world\<lparr>w_now := 1000000\<rparr> \<or> authenticate_request sample_auth_env 1000000 (''Bearer '' @ login_token)
        ''10.1.2.3'' login_db = Inr ((u, claims), d) \<and> db_wf (w_db w'))"
proof -
  obtain resp w' where s: "serve sample_auth_env sample_drf (token_view sample_env (UUID 32)) (''Bearer '' @ login_token)
      ''10.1.2.3'' (login_world\<lparr>w_now := 1000000\<rparr>) = (resp, w')" by fastforce
  let ?w = "login_world\<lparr>w_now := 1000000\<rparr>"
  have eq: "w_db ?w = login_db" "w_now ?w = 1000000" by simp_all
  have "db_wf (w_db ?w)" "clients_valid (w_db ?w)"
    unfolding eq by (rule login_db_wf, rule login_valid)
  from requests_touch_own_meetings[OF api_endpoint.convay_token this s]
  have "w' = ?w \<or> (\<exists>u claims d. authenticate_request sample_auth_env 1000000 (''Bearer '' @ login_token) ''10.1.2.3''
      login_db = Inr ((u, claims), d) \<and> db_wf (w_db w'))"
    unfolding eq by blast
  then show ?thesis using s by blast
qed

theorem reads_depend_on_own_meetings_witness:
  "list_view sample_env sample_drf (JObj []) sample_client sample_db =
     list_view sample_env sample_drf (JObj []) sample_client (sample_db\<lparr>db_rooms := []\<rparr>) \<and>
   detail_view sample_env (UUID 99) sample_client sample_db =
     bind_r (require_scope sample_client [''meeting:read'']) (\<lambda>_. Inl Http404)"
proof -
  have eq: "meetings_of sample_client sample_db = meetings_of sample_client (sample_db\<lparr>db_rooms := []\<rparr>)" by simp
  have "UUID 99 \<notin> m_id ` set (meetings_of sample_client sample_db)" by (simp add: sample_rows)
  with reads_depend_on_own_meetings[OF eq, of sample_env sample_drf "JObj []" "UUID 99"] show ?thesis by blast
qed

theorem listing_is_paged_completely_witness:
  "\<exists>body. list_view sample_env sample_drf (JObj []) sample_client sample_db = Inr (200, body)"
proof -
  have q: "search_request sample_drf (JObj []) = Some \<lparr>q_id = None, q_external_class_id = None, q_teacher_id = None,
      q_teacher_name = None, q_batch_id = None, q_provider_calendar_id = None, q_status = None, q_class_date = None,
      q_start_from = None, q_start_to = None, q_created_from = None, q_created_to = None, q_page = 1, q_page_size = 25\<rparr>"
    by (simp add: search_request_def strict_def optional_field_def Let_def)
  have "''meeting:read'' \<in> set (c_scopes sample_client)" "distinct (map m_id (db_meetings sample_db))"
    by (simp_all add: sample_rows)
  from listing_is_paged_completely[OF q this, of sample_env] show ?thesis by auto
qed

definition sample_body :: "string \<Rightarrow> datetime \<Rightarrow> datetime \<Rightarrow> json" where
  "sample_body cls s e = JObj
     [(''meetingTitle'', JStr ''Maths''), (''teacher'', JObj [(''id'', JStr ''t''), (''name'', JStr ''T'')]),
      (''batch'', JObj [(''id'', JStr ''b''), (''name'', JStr ''B'')]),
      (''class'', JObj [(''id'', JStr cls), (''date'', JStr ''1970-01-01'')]),
      (''startAt'', JStr (e_isoformat sample_env s)), (''endAt'', JStr (e_isoformat sample_env e))]"

lemma sample_chars: "sample_char True (Some 250) (JStr ''Maths'') = Some ''Maths''"
    "sample_char True (Some 160) (JStr ''c2'') = Some ''c2''"
    "sample_char True (Some 160) (JStr ''t'') = Some ''t''" "sample_char True (Some 200) (JStr ''T'') = Some ''T''"
    "sample_char True (Some 160) (JStr ''b'') = Some ''b''" "sample_char True (Some 200) (JStr ''B'') = Some ''B''"
  by (simp_all add: sample_char_def strip_def lstrip_def py_space_def)

lemma sample_create_request:
  assumes "\<not> is_naive s" "\<not> is_naive e" "dt_instant s < dt_instant e"
  shows "create_request sample_drf (sample_body ''c2'' s e) = Some \<lparr>v_title = ''Maths'', v_class_id = ''c2'', v_class_date = 0,
    v_teacher_id = ''t'', v_teacher_name = ''T'', v_batch_id = ''b'', v_batch_name = ''B'', v_schedule_type = None,
    v_start = Some s, v_end = Some e\<rparr>"
proof -
  have iso: "e_fromisoformat sample_env (e_isoformat sample_env d) = Some d" if "\<not> is_naive d" for d
    using sample_env_ok(2) that unfolding isoformat_ok_def by blast
  show ?thesis
    using assms by (simp add: create_request_def sample_body_def strict_def create_fields_def required_field_def sample_drf_def
        sample_chars reference_fields_def class_fields_def aware_datetime_def iso)
qed

theorem accepted_body_is_registered_witness:
  "\<exists>v m d'. create_request sample_drf (sample_body ''c2'' (utc 0) (utc 1)) = Some v \<and> aware_values v \<and>
     register sample_env 0 (UUID 50) sample_client v (sample_db\<lparr>db_meetings := []\<rparr>) = (Inr (m, True), d')"
proof -
  let ?d = "sample_db\<lparr>db_meetings := []\<rparr>"
  let ?v = "\<lparr>v_title = ''Maths'', v_class_id = ''c2'', v_class_date = 0,
    v_teacher_id = ''t'', v_teacher_name = ''T'', v_batch_id = ''b'', v_batch_name = ''B'', v_schedule_type = None,
    v_start = Some (utc 0), v_end = Some (utc 1)\<rparr>"
  have c: "create_request sample_drf (sample_body ''c2'' (utc 0) (utc 1)) = Some ?v"
    by (rule sample_create_request) (simp_all add: utc_def is_naive_def)
  obtain res d' where r: "register sample_env 0 (UUID 50) sample_client ?v ?d = (res, d')" by fastforce
  have "\<exists>m. res = Inr (m, True)"
  proof -
    have none: "class_rows sample_client (v_class_id ?v) ?d = []" by (simp add: class_rows_def)
    have "meetings_wf ?d" "get_meeting (UUID 50) ?d = None" by (simp_all add: meetings_wf_def fetch_def)
    from accepted_body_is_registered[OF sample_fields_ok c this, where E = sample_env and now = 0 and u = sample_client] r none show ?thesis
      by (cases res) (auto simp: register_def insert_meeting_def Let_def meeting_violation_def split: sum.splits prod.splits option.splits if_splits)
  qed
  moreover have "aware_values ?v" by (simp add: aware_values_def utc_def is_naive_def)
  ultimately show ?thesis using c r by blast
qed

theorem created_answer_witness:
  "\<exists>body w' m. create_view sample_env sample_drf (UUID 50) (Inr (sample_body ''c2'' (utc hour_us) (utc (2 * hour_us)))) sample_client
       sample_world = (Inr (200, body), w') \<and> get_meeting (m_id m) (w_db w') = Some m \<and> m_status m \<in> {READY, LIVE}"
proof -
  let ?v = "\<lparr>v_title = ''Maths'', v_class_id = ''c2'', v_class_date = 0,
    v_teacher_id = ''t'', v_teacher_name = ''T'', v_batch_id = ''b'', v_batch_name = ''B'', v_schedule_type = None,
    v_start = Some (utc hour_us), v_end = Some (utc (2 * hour_us))\<rparr>"
  have c: "create_request sample_drf (sample_body ''c2'' (utc hour_us) (utc (2 * hour_us))) = Some ?v"
    by (rule sample_create_request) (simp_all add: utc_def is_naive_def hour_us_def)
  have rows: "class_rows sample_client ''c2'' sample_db = [sample_ready]"
    by (simp add: class_rows_def sample_rows)
  have reg: "register sample_env (w_now sample_world) (UUID 50) sample_client ?v (w_db sample_world) = (Inr (sample_ready, False), sample_db)"
  proof -
    have "dt_matches hour_us (Some (utc hour_us))" "dt_matches (2 * hour_us) (Some (utc (2 * hour_us)))"
      by (simp_all add: dt_matches_def utc_def is_naive_def)
    then have "\<not> request_differs sample_ready ?v"
      by (simp add: request_differs_def stored_time_differs_def sample_rows)
    then show ?thesis using rows by (simp only: register_def) (simp add: sample_world_def)
  qed
  have "get_meeting (m_id sample_ready) sample_db = Some sample_ready" by (simp add: fetch_def sample_rows)
  moreover have "m_status sample_ready = READY" by (simp add: sample_rows)
  ultimately have prov: "\<exists>w2. provision sample_env (m_id sample_ready) ?v sample_world = (Inr (sample_ready, None), w2)"
    by (simp add: provision_def run_tx_def provision_begin_def sample_world_def)
  have scopes: "''meeting:token'' \<notin> set (c_scopes sample_client)" "''meeting:write'' \<in> set (c_scopes sample_client)"
    by (simp_all add: sample_rows)
  have db: "sample_world\<lparr>w_db := sample_db\<rparr> = sample_world" by (simp add: sample_world_def)
  obtain st body w' where v: "create_view sample_env sample_drf (UUID 50) (Inr (sample_body ''c2'' (utc hour_us) (utc (2 * hour_us))))
      sample_client sample_world = (Inr (st, body), w')"
    using prov by (elim exE)
      (simp add: create_view_def require_scope_def validated_def c scopes reg db response_token_def
        representation_def Let_def)
  have wf: "db_wf (w_db sample_world)" "get_client (c_id sample_client) (w_db sample_world) \<noteq> None"
    by (simp_all add: sample_world_def fetch_def) (simp add: sample_rows)
  from created_answer[OF wf v] obtain m where "get_meeting (m_id m) (w_db w') = Some m" "m_status m \<in> {READY, LIVE}"
      "st = (if class_rows sample_client ''c2'' (w_db sample_world) = [] then 201 else 200)"
    by (auto simp: c)
  then show ?thesis using v rows by (intro exI[of _ body] exI[of _ w'] exI[of _ m]) (simp add: sample_world_def)
qed

theorem api_errors_are_enveloped_witness:
  "\<exists>code message details. hr_data (middleware ''id'' ''/api/v1/x'' \<lparr>hr_status = 404, hr_data = None, hr_headers = []\<rparr>) =
     Some (error_body code message details ''id'')"
proof -
  have "starts_with ''/api/v1/x'' ''/api/''" by (simp add: starts_with_def)
  from api_errors_are_enveloped[OF sample_handler_ok this, of "\<lparr>hr_status = 404, hr_data = None, hr_headers = []\<rparr>" "''id''" Http404]
  show ?thesis by auto
qed

end
