(* ===== verification/Service.thy ===== *)
theory Service
  imports Access
begin

text \<open>
  The API on top of the workflow: whatever a request does, it does by steps of the workflow, so that
  everything that holds of all runs holds of the service while it answers requests. A stage of a
  request is related to the run it makes, stages compose, and the contract is a locale that every
  endpoint interprets.
\<close>

subsection \<open>Worlds and runs\<close>

text \<open>The same HTTP script, with more requests sent.\<close>

definition later :: "world \<Rightarrow> world \<Rightarrow> bool" where
  "later w w' \<longleftrightarrow> w_script w' = w_script w \<and> (\<exists>rqs. w_sent w' = w_sent w @ rqs)"

lemma later_refl [simp]: "later w w"
  by (simp add: later_def)

lemma later_trans: "later w w1 \<Longrightarrow> later w1 w2 \<Longrightarrow> later w w2"
  by (auto simp: later_def)

lemma later_db [simp]: "later w (w1\<lparr>w_db := d\<rparr>) = later w w1" "later (w\<lparr>w_db := d\<rparr>) w1 = later w w1"
  by (simp_all add: later_def)

lemma outside_later: "outside_only w w' \<Longrightarrow> later w w'"
  by (simp add: later_def outside_only_def)

lemma later_raises: "later w w' \<Longrightarrow> foreign_raises w' = foreign_raises w"
  by (simp add: later_def foreign_raises_def)

lemma attempts_later:
  assumes "later w w1" and "later w1 w2"
  shows "attempts E w w2 = attempts E w w1 @ attempts E w1 w2"
proof -
  have "w_script w1 = w_script w" "w_script w2 = w_script w" using assms by (simp_all add: later_def)
  moreover obtain a b where "w_sent w1 = w_sent w @ a" "w_sent w2 = w_sent w @ a @ b"
    using assms by (auto simp: later_def)
  moreover have "outside_only w (w\<lparr>w_sent := w_sent w @ a\<rparr>)"
      "outside_only (w\<lparr>w_sent := w_sent w @ a\<rparr>) (w\<lparr>w_sent := w_sent w @ a @ b\<rparr>)"
    by (simp_all add: outside_only_def)
  from attempts_chain[OF this, of E]
  have "attempts E w (w\<lparr>w_sent := w_sent w @ a @ b\<rparr>) =
      attempts E w (w\<lparr>w_sent := w_sent w @ a\<rparr>) @ attempts E (w\<lparr>w_sent := w_sent w @ a\<rparr>) (w\<lparr>w_sent := w_sent w @ a @ b\<rparr>)" .
  ultimately show ?thesis by (simp add: attempts_def)
qed

lemma attempts_same: "w_sent w' = w_sent w \<Longrightarrow> attempts E w w' = []"
  by (simp add: attempts_def)

lemma attempts_db [simp]:
  "attempts E w (w'\<lparr>w_db := d\<rparr>) = attempts E w w'" "attempts E (w\<lparr>w_db := d\<rparr>) w' = attempts E w w'"
  by (simp_all add: attempts_def)

text \<open>
  From \<open>w\<close> to \<open>w'\<close> by steps of the workflow, wherever it stands: afterwards the database is that of
  \<open>w'\<close>, no call of this request is under way, and the history has the creation requests sent in
  between, as requests for \<open>k\<close>.
\<close>

definition by_steps :: "env \<Rightarrow> uuid \<Rightarrow> world \<Rightarrow> world \<Rightarrow> bool" where
  "by_steps E k w w' \<longleftrightarrow> later w w' \<and> (\<forall>s. reachable E s \<and> s_db s = w_db w \<longrightarrow>
     (step E)\<^sup>*\<^sup>* s (s\<lparr>s_db := w_db w', s_history := s_history s @ map (Pair k) (attempts E w w')\<rparr>))"

lemma reachable_steps: "(step E)\<^sup>*\<^sup>* s s' \<Longrightarrow> reachable E s \<Longrightarrow> reachable E s'"
  by (induction rule: rtranclp_induct) (auto intro: reachable.step)

lemma by_steps_refl: "by_steps E k w w"
proof -
  have "(step E)\<^sup>*\<^sup>* s (s\<lparr>s_db := w_db w, s_history := s_history s @ map (Pair k) (attempts E w w)\<rparr>)"
    if "s_db s = w_db w" for s
  proof -
    have "s\<lparr>s_db := w_db w, s_history := s_history s @ []\<rparr> = s" using that by (cases s) simp
    then show ?thesis by (simp only: attempts_same[OF refl] list.map rtranclp.rtrancl_refl)
  qed
  then show ?thesis by (simp add: by_steps_def)
qed

lemma by_steps_trans:
  assumes 1: "by_steps E k w w1" and 2: "by_steps E k w1 w2"
  shows "by_steps E k w w2"
proof -
  have l: "later w w1" "later w1 w2" using 1 2 by (simp_all add: by_steps_def)
  have "(step E)\<^sup>*\<^sup>* s (s\<lparr>s_db := w_db w2, s_history := s_history s @ map (Pair k) (attempts E w w2)\<rparr>)"
    if s: "reachable E s" "s_db s = w_db w" for s
  proof -
    let ?s1 = "s\<lparr>s_db := w_db w1, s_history := s_history s @ map (Pair k) (attempts E w w1)\<rparr>"
    have a: "(step E)\<^sup>*\<^sup>* s ?s1" using 1 s by (simp add: by_steps_def)
    then have "reachable E ?s1" using s(1) by (rule reachable_steps)
    then have "(step E)\<^sup>*\<^sup>* ?s1 (?s1\<lparr>s_db := w_db w2, s_history := s_history ?s1 @ map (Pair k) (attempts E w1 w2)\<rparr>)"
      using 2[unfolded by_steps_def, THEN conjunct2, rule_format, of ?s1] by simp
    then have "(step E)\<^sup>*\<^sup>* ?s1 (s\<lparr>s_db := w_db w2, s_history := s_history s @ map (Pair k) (attempts E w w2)\<rparr>)"
      by (simp add: attempts_later[OF l])
    with a show ?thesis by (rule rtranclp_trans)
  qed
  then show ?thesis using later_trans[OF l] by (simp add: by_steps_def)
qed

text \<open>One step that sends no creation request.\<close>

lemma by_stepsI:
  assumes "later w w'" and "attempts E w w' = []"
    and "\<And>s. reachable E s \<Longrightarrow> s_db s = w_db w \<Longrightarrow> step E s (s\<lparr>s_db := w_db w'\<rparr>)"
  shows "by_steps E k w w'"
proof -
  have "s\<lparr>s_db := d, s_history := s_history s\<rparr> = s\<lparr>s_db := d\<rparr>" for s :: system and d by simp
  then show ?thesis using assms by (auto simp: by_steps_def)
qed

lemma elsewhere_by_steps:
  assumes wf: "db_wf (w_db w) \<Longrightarrow> db_wf d"
    and ms: "db_meetings d = db_meetings (w_db w)" "db_audit d = db_audit (w_db w) @ records"
      "db_rooms d = db_rooms (w_db w)"
  shows "by_steps E k w (w\<lparr>w_db := d\<rparr>)"
proof (rule by_stepsI)
  fix s
  assume s: "reachable E s" "s_db s = w_db w"
  then have "db_wf (w_db w)" using reachable_wf[OF s(1)] by (simp add: system_wf_def)
  moreover have "get_room k d = get_room k (s_db s)" for k by (rule fetch_cong) (simp add: ms(3) s(2))
  ultimately show "step E s (s\<lparr>s_db := w_db (w\<lparr>w_db := d\<rparr>)\<rparr>)" using elsewhere[of d s records E] wf ms(1,2) s(2) by simp
qed (simp_all add: attempts_same)

lemma audit_by_steps:
  shows "by_steps E k w (w\<lparr>w_db := audit F now a l ob c ad p (w_db w)\<rparr>)"
proof (rule elsewhere_by_steps)
  show "db_wf (audit F now a l ob c ad p (w_db w))" if "db_wf (w_db w)"
    using audit_only_meeting[OF only_meeting_refl[OF that]] by (simp add: only_meeting_def run_frame_def)
  show "db_audit (audit F now a l ob c ad p (w_db w)) = db_audit (w_db w) @ [last (db_audit (audit F now a l ob c ad p (w_db w)))]"
    by (simp add: audit_def audit_record_def)
qed simp_all

lemma outside_by_steps:
  assumes "outside_only w w'" and "attempts E w w' = []"
  shows "by_steps E k w w'"
  using outside_later[OF assms(1)] assms(2) by (rule by_stepsI) (rule authenticated[OF assms(1)], simp)

lemma token_by_steps:
  assumes "get_token F r force w = (res, w')" and "paths_differ E" and F: "same_settings F E"
  shows "by_steps E k w w'"
proof (rule outside_by_steps)
  show "outside_only w w'" using token_op.outside[of w F r force] assms(1) by simp
  have "paths_differ F" using assms(2) F by (simp add: paths_differ_def same_settings_def)
  then show "attempts E w w' = []" using get_token_attempts[OF assms(1)] same_attempts[OF F] by simp
qed

subsection \<open>Provisioning\<close>

lemma finish_later:
  assumes "provision_finish E j outcome w = (res, w')"
  shows "w_script w' = w_script w \<and> w_sent w' = w_sent w"
proof -
  have tx: "w_script w2 = w_script w1 \<and> w_sent w2 = w_sent w1" if "run_tx f w1 = (r, w2)"
    for f :: "db \<Rightarrow> exn + 'b \<times> db" and w1 w2 r
    using that by (auto simp: run_tx_def split: sum.splits)
  have inv: "w_script w2 = w_script w1 \<and> w_sent w2 = w_sent w1" if "invalidate (j_room j) w1 = (r, w2)" for w1 w2 r
    using that by (auto simp: invalidate_def cache_delete_def split: if_splits)
  show ?thesis
  proof (cases outcome)
    case (Inr rt)
    obtain r tok where rt: "rt = (r, tok)" by (cases rt)
    obtain r2 w2 where t: "run_tx (record_success E (w_now w) (job_id j) (j_retrying j) r) w = (r2, w2)" by fastforce
    then have "w' = w2" using assms Inr rt by (cases r2) (simp_all add: provision_finish_def job_id_def)
    then show ?thesis using tx[OF t] by simp
  next
    case (Inl x)
    show ?thesis
    proof (cases "\<exists>e. x = ProviderExn e")
      case False
      then show ?thesis using assms Inl by (cases x) (simp_all add: provision_finish_def)
    next
      case True
      then obtain e where e: "x = ProviderExn e" by blast
      obtain i w1 where i: "(if pe_status_code e = Some 401 then invalidate (j_room j) w else (Inr (), w)) = (i, w1)"
        by fastforce
      obtain r2 w2 where t: "run_tx (record_failure E (w_now w1) (job_id j) (j_retrying j) e) w1 = (r2, w2)" by fastforce
      have "w' = w1 \<or> w' = w2"
        using assms Inl e i t by (cases i; cases r2) (simp_all add: provision_finish_def job_id_def)
      moreover have "w_script w1 = w_script w \<and> w_sent w1 = w_sent w" using i inv by (auto split: if_splits)
      ultimately show ?thesis using tx[OF t] by auto
    qed
  qed
qed

text \<open>The steps of a process from the start of a creation to its record, with nobody in between.\<close>

lemma creation_run:
  assumes s: "reachable E s" and paths: "paths_differ E" and F: "same_settings F E" and raises: "foreign_raises w1"
    and b: "provision_begin F now pk v (s_db s) = Inr (Started j, w_db w1)"
    and c: "provider_create F j w1 = (outcome, w2)" and f: "provision_finish F j outcome w2 = (res, w')"
  shows "(step E)\<^sup>*\<^sup>* s (s\<lparr>s_db := w_db w', s_history := s_history s @ map (Pair (job_id j)) (attempts F w1 w2)\<rparr>)"
proof -
  let ?s1 = "s\<lparr>s_db := w_db w1, s_calls := s_calls s @ [j]\<rparr>"
  let ?s2 = "s\<lparr>s_db := w_db w2, s_calls := s_calls s @ [j]\<rparr>"
  let ?h = "s_history s @ map (Pair (job_id j)) (attempts F w1 w2)"
  let ?s3 = "s\<lparr>s_db := w_db w2, s_done := s_done s @ [(j, outcome)], s_history := ?h\<rparr>"
  have 1: "step E s ?s1" using F b by (rule started)
  have "outside_only w1 w2" using provider_create_outside[of w1 F j] c by simp
  then have "step E ?s1 (?s1\<lparr>s_db := w_db w2\<rparr>)" by (rule authenticated) simp
  then have 2: "step E ?s1 ?s2" by (cases s) simp
  have "step E ?s2 (?s2\<lparr>s_calls := s_calls s @ [], s_done := s_done ?s2 @ [(j, outcome)],
      s_history := s_history ?s2 @ map (Pair (job_id j)) (attempts F w1 w2)\<rparr>)"
    using F _ raises c by (rule called) simp
  then have 3: "step E ?s2 ?s3" by simp
  have "step E ?s3 (?s3\<lparr>s_db := w_db w', s_done := s_done s @ []\<rparr>)"
    using F _ _ f by (rule recorded) simp_all
  then have 4: "step E ?s3 (s\<lparr>s_db := w_db w', s_history := ?h\<rparr>)" by (cases s) simp
  show ?thesis using 1 2 3 4 by (auto intro: converse_rtranclp_into_rtranclp)
qed

lemma provision_by_steps:
  assumes paths: "paths_differ E" and F: "same_settings F E" and raises: "foreign_raises w"
    and p: "provision F pk v w = (res, w')"
  shows "by_steps E pk w w'"
proof -
  obtain b w1 where t: "run_tx (provision_begin F (w_now w) pk v) w = (b, w1)" by fastforce
  show ?thesis
  proof (cases "\<exists>j. b = Inr (Started j)")
    case False
    then have w': "w' = w1" using p t by (cases b) (auto simp: provision_def split: begun.splits)
    show ?thesis
    proof (cases b)
      case (Inl x)
      then have "w' = w" using t w' by (auto simp: run_tx_def split: sum.splits)
      then show ?thesis by (simp add: by_steps_refl)
    next
      case (Inr m')
      then obtain m where m: "provision_begin F (w_now w) pk v (w_db w) = Inr (Replayed m, w_db w1)" "w1 = w\<lparr>w_db := w_db w1\<rparr>"
        using False t by (cases m') (auto simp: run_tx_def split: sum.splits)
      have "later w w1" "attempts E w w1 = []" by (subst m(2), simp add: attempts_same)+
      then show ?thesis
        unfolding w' by (rule by_stepsI) (rule replayed[OF F, where m = m and v = v and pk = pk and now = "w_now w"], simp add: m(1))
    qed
  next
    case True
    then obtain j where b: "b = Inr (Started j)" by blast
    have beg: "provision_begin F (w_now w) pk v (w_db w) = Inr (Started j, w_db w1)" and w1: "w1 = w\<lparr>w_db := w_db w1\<rparr>"
      using t b by (auto simp: run_tx_def split: sum.splits)
    obtain outcome w2 where c: "provider_create F j w1 = (outcome, w2)" by fastforce
    have f: "provision_finish F j outcome w2 = (res, w')" using p t b c by (simp add: provision_def)
    have l1: "later w w1" by (subst w1) simp
    have l2: "later w1 w2" using provider_create_outside[of w1 F j] c outside_later by simp
    have l3: "later w2 w'" "attempts E w2 w' = []" using finish_later[OF f] by (simp_all add: later_def attempts_same)
    have "attempts E w w1 = []" by (subst w1) (simp add: attempts_same)
    then have a: "attempts E w w' = attempts F w1 w2"
      using attempts_later[OF later_trans[OF l1 l2] l3(1), of E] attempts_later[OF l1 l2, of E] l3(2) same_attempts[OF F]
      by simp
    have "(step E)\<^sup>*\<^sup>* s (s\<lparr>s_db := w_db w', s_history := s_history s @ map (Pair pk) (attempts E w w')\<rparr>)"
      if s: "reachable E s" "s_db s = w_db w" for s
    proof -
      have "db_wf (w_db w)" using reachable_wf[OF s(1)] s(2) by (simp add: system_wf_def)
      then have "job_id j = pk" using begin_frame[OF _ beg] by blast
      then show ?thesis
        using creation_run[OF s(1) paths F _ beg[folded s(2)] c f] later_raises[OF l1] raises a by simp
    qed
    then show ?thesis using later_trans[OF later_trans[OF l1 l2] l3(1)] by (simp add: by_steps_def)
  qed
qed

subsection \<open>Requests\<close>

lemma register_by_steps:
  assumes F: "same_settings F E" and u: "get_client (c_id u) (w_db w) \<noteq> None"
    and r: "register F now pk u v (w_db w) = (res, d)"
  shows "by_steps E k w (w\<lparr>w_db := d\<rparr>)"
proof (rule by_stepsI)
  fix s
  assume s: "reachable E s" "s_db s = w_db w"
  obtain row where row: "get_client (c_id u) (w_db w) = Some row" using u by blast
  have "c_id row = c_id u" "row \<in> set (db_clients (w_db w))"
    using row by (auto dest: client_tbl.fetch_keyD client_tbl.fetch_mem)
  then show "step E s (s\<lparr>s_db := w_db (w\<lparr>w_db := d\<rparr>)\<rparr>)"
    using registered[OF F, of row s now pk v res d] r register_cong[of row u] s(2) by simp
qed (simp_all add: attempts_same)

lemma response_token_by_steps:
  assumes paths: "paths_differ E" and F: "same_settings F E" and r: "response_token F u current token w = (res, w')"
  shows "by_steps E k w w'"
proof (cases "''meeting:token'' \<in> set (c_scopes u)")
  case False
  then show ?thesis using r by (simp add: response_token_def by_steps_refl)
next
  case True
  obtain res1 w1 where g: "(case token of Some t \<Rightarrow> (Inr t, w)
          | None \<Rightarrow> (case m_room current of None \<Rightarrow> (Inl AttributeError, w)
               | Some k \<Rightarrow> (case get_room k (w_db w) of
                     None \<Rightarrow> (Inl DoesNotExist, w) | Some r \<Rightarrow> get_token F r False w))) = (res1, w1)"
    by (metis surj_pair)
  have 1: "by_steps E k w w1"
  proof (cases "w1 = w")
    case False
    then obtain r where "get_token F r False w = (res1, w1)" using g by (auto split: option.splits)
    then show ?thesis using paths F by (rule token_by_steps)
  qed (simp add: by_steps_refl)
  moreover have "w' = w1 \<or> w' = w1\<lparr>w_db := audit F (w_now w1) ''convay_token_issued'' ''meetings.Meeting'' (m_id current)
      (Some (c_id u)) None None (w_db w1)\<rparr>"
    using r g True by (cases res1) (auto simp: response_token_def)
  ultimately show ?thesis using by_steps_trans[OF 1 audit_by_steps] by auto
qed

text \<open>The contract of an endpoint: its requests are runs of the workflow.\<close>

locale served_by_steps =
  fixes F :: env and view :: view
  assumes runs: "paths_differ E \<Longrightarrow> same_settings F E \<Longrightarrow> foreign_raises w \<Longrightarrow>
    get_client (c_id u) (w_db w) \<noteq> None \<Longrightarrow> view u w = (res, w') \<Longrightarrow> \<exists>k. by_steps E k w w'"
begin

lemma served:
  assumes paths: "paths_differ E" and F: "same_settings F E" and raises: "foreign_raises w"
    and wf: "db_wf (w_db w)" "clients_valid (w_db w)" and s: "serve A D view header remote w = (resp, w')"
  shows "\<exists>k. by_steps E k w w'"
proof (cases "authenticate_request A (w_now w) header remote (w_db w)")
  case (Inl x)
  then have "w' = w" using s by (simp add: serve_def Let_def)
  then show ?thesis using by_steps_refl by blast
next
  case (Inr p)
  obtain u claims d where p: "p = ((u, claims), d)" by (cases p) auto
  note auth = Inr[unfolded p]
  obtain res w1 where v: "view u (w\<lparr>w_db := d\<rparr>) = (res, w1)" by fastforce
  have w': "w' = w1" using s auth v by (simp add: serve_def Let_def)
  obtain records where "db_audit d = db_audit (w_db w) @ records" using request_tx.extends_audit[OF auth] by blast
  then have touched: "by_steps E k w (w\<lparr>w_db := d\<rparr>)" for k
    by (rule elsewhere_by_steps[OF request_tx.keeps_db_wf[OF auth wf] request_tx.keeps_meetings[OF auth] _ request_tx.keeps_rooms[OF auth]])
  have "get_client (c_id u) d \<noteq> None" using authenticated_client[OF auth] .
  then obtain k where "by_steps E k (w\<lparr>w_db := d\<rparr>) w1"
    using runs[OF paths F _ _ v] raises by (auto simp: foreign_raises_def)
  then show ?thesis using by_steps_trans[OF touched] w' by blast
qed

end

interpretation reading_steps: served_by_steps F "reading f"
  by unfold_locales (auto simp: reading_def intro: by_steps_refl)

interpretation token_steps: served_by_steps F "token_view F pk"
proof
  fix E w u res w'
  assume paths: "paths_differ E" and F: "same_settings F E" and v: "token_view F pk u w = (res, w')"
  show "\<exists>k. by_steps E k w w'"
  proof (cases "w' = w")
    case True
    then show ?thesis using by_steps_refl by blast
  next
    case False
    then obtain m r where "owned u pk (w_db w) = Inr m" "get_room (the (m_room m)) (w_db w) = Some r"
        "\<not> (m_status m \<notin> {READY, LIVE} \<or> m_room m = None)" "bind_r (require_scope u [''meeting:token'']) (\<lambda>_. owned u pk (w_db w)) = Inr m"
      using v by (cases "bind_r (require_scope u [''meeting:token'']) (\<lambda>_. owned u pk (w_db w))")
        (auto simp: token_view_def bind_r_Inr_iff split: if_splits option.splits)
    moreover obtain res1 w1 where g: "get_token F r False w = (res1, w1)" by fastforce
    moreover have a: "by_steps E pk w w1" using g paths F by (rule token_by_steps)
    moreover have "by_steps E pk w (w1\<lparr>w_db := audit F (w_now w1) b l ob c ad x (w_db w1)\<rparr>)" for b l ob c ad x
      using a audit_by_steps by (rule by_steps_trans)
    ultimately show ?thesis
      using v by (intro exI[of _ pk]) (auto simp: token_view_def split: sum.splits exn.splits)
  qed
qed

interpretation create_steps: served_by_steps F "create_view F D pk data"
proof
  fix E w u res w'
  assume paths: "paths_differ E" and F: "same_settings F E" and raises: "foreign_raises w"
    and u: "get_client (c_id u) (w_db w) \<noteq> None" and v: "create_view F D pk data u w = (res, w')"
  have reg: "by_steps E k w (w\<lparr>w_db := d\<rparr>)" if "register F (w_now w) pk u v (w_db w) = (r, d)" for v r d k
    using register_by_steps[OF F u that] .
  have prov: "by_steps E (m_id m) w w2"
    if "register F (w_now w) pk u v (w_db w) = (r, d)" "provision F (m_id m) v (w\<lparr>w_db := d\<rparr>) = (p, w2)" for v r m d p w2
    using that(2) raises
    by (intro by_steps_trans[OF reg[OF that(1)]] provision_by_steps[OF paths F]) (simp_all add: foreign_raises_def)
  show "\<exists>k. by_steps E k w w'"
    using v
  proof (cases rule: create_viewD)
    case (untokened v m b d current token w2 x)
    then show ?thesis using by_steps_trans[OF prov response_token_by_steps[OF paths F]] by blast
  next
    case (answered v m b d current token w2 shown)
    then show ?thesis using by_steps_trans[OF prov response_token_by_steps[OF paths F]] by blast
  qed (use reg prov by_steps_refl in blast)+
qed

lemma api_by_steps: "api_endpoint F D scope view \<Longrightarrow> served_by_steps F view"
  by (erule api_endpointE)
    (simp_all add: create_steps.served_by_steps_axioms reading_steps.served_by_steps_axioms token_steps.served_by_steps_axioms)

text \<open>
  C3, the service refines the workflow: wherever a run of the workflow stands, a request on any
  endpoint takes it, by steps of the workflow, to the database the request leaves; the calls and
  outcomes of other processes stay as they are, and exactly the creation requests that the request
  sent are added to the history, all for one meeting.
\<close>

theorem requests_refine_workflow:
  assumes "reachable E s" and "s_db s = w_db w" and "paths_differ E" and "same_settings F E" and "foreign_raises w"
    and "clients_valid (w_db w)" and "api_endpoint F D scope view"
    and "serve A D view header remote w = (resp, w')"
  shows "\<exists>k. (step E)\<^sup>*\<^sup>* s (s\<lparr>s_db := w_db w', s_history := s_history s @ map (Pair k) (attempts E w w')\<rparr>)"
proof -
  have "db_wf (w_db w)" using reachable_wf[OF assms(1)] assms(2) by (simp add: system_wf_def)
  then obtain k where "by_steps E k w w'"
    using served_by_steps.served[OF api_by_steps[OF assms(7)] assms(3-5) _ assms(6,8)] by blast
  then show ?thesis using assms(1,2) unfolding by_steps_def by blast
qed

theorem requests_refine_workflow_witness:
  "\<exists>resp w' k. serve sample_auth_env sample_drf (create_view sample_env sample_drf (UUID 50)
       (Inr (sample_body ''c2'' (utc hour_us) (utc (2 * hour_us))))) (''Bearer '' @ login_token) ''10.1.2.3'' login_world = (resp, w') \<and>
     (step sample_env)\<^sup>*\<^sup>* (system_on login_db)
       ((system_on (w_db w'))\<lparr>s_history := map (Pair k) (attempts sample_env login_world w')\<rparr>)"
proof -
  let ?s = "system_on login_db"
  obtain resp w' where s: "serve sample_auth_env sample_drf (create_view sample_env sample_drf (UUID 50)
      (Inr (sample_body ''c2'' (utc hour_us) (utc (2 * hour_us))))) (''Bearer '' @ login_token) ''10.1.2.3'' login_world = (resp, w')"
    by fastforce
  have w: "s_db ?s = w_db login_world" "foreign_raises login_world"
    by (simp_all add: system_on_def login_world_def foreign_raises_def sample_world_def)
  have "clients_valid (w_db login_world)" using login_valid w(1) by simp
  from requests_refine_workflow[OF reachable.start[OF login_db_wf] w(1) sample_paths _ w(2) this api_endpoint.create s]
  obtain k where "(step sample_env)\<^sup>*\<^sup>* ?s
      (?s\<lparr>s_db := w_db w', s_history := s_history ?s @ map (Pair k) (attempts sample_env login_world w')\<rparr>)"
    by (auto simp: same_settings_def)
  then show ?thesis using s by (auto simp: system_on_def)
qed

end
