(* ===== verification/Responses.thy ===== *)
theory Responses
  imports Access
begin

text \<open>
  The response serializers of \<open>apps/meetings/serializers.py\<close>, \<open>apps/integrations/views.py\<close> and
  \<open>common/health.py\<close>. The code uses them only to publish the API's schema; here they are what the
  answers are checked against: a value conforms to a field when the field would accept it. The fields
  themselves are the REST framework's (the record \<open>drf\<close>), and \<open>URLField\<close> also runs Django's URL validator,
  which is a parameter.
\<close>

subsection \<open>Schemas\<close>

text \<open>The fields of a serializer with their names and whether they are required.\<close>

datatype schema =
    CharField "nat option" | UUIDField | DateField | DateTimeField | URLField
  | BooleanField | IntegerField | JSONField
  | ChoiceField "string list"
  | AllowNull schema
  | ListField schema
  | Serializer "(string \<times> bool \<times> schema) list"

fun conforms :: "drf \<Rightarrow> (string \<Rightarrow> bool) \<Rightarrow> schema \<Rightarrow> json \<Rightarrow> bool" where
  "conforms D valid_url (CharField limit) v = (d_char D True limit v \<noteq> None)"
| "conforms D valid_url UUIDField v = (d_uuid D v \<noteq> None)"
| "conforms D valid_url DateField v = (d_date D v \<noteq> None)"
| "conforms D valid_url DateTimeField v = (d_datetime D v \<noteq> None)"
| "conforms D valid_url URLField v = (case d_char D True None v of None \<Rightarrow> False | Some s \<Rightarrow> valid_url s)"
| "conforms D valid_url BooleanField v = (case v of JBool b \<Rightarrow> True | _ \<Rightarrow> False)"
| "conforms D valid_url IntegerField v = (case v of JInt i \<Rightarrow> True | _ \<Rightarrow> False)"
| "conforms D valid_url JSONField v = (v \<noteq> JNull)"
| "conforms D valid_url (ChoiceField choices) v = (case v of JStr s \<Rightarrow> s \<in> set choices | _ \<Rightarrow> False)"
| "conforms D valid_url (AllowNull f) v = (v = JNull \<or> conforms D valid_url f v)"
| "conforms D valid_url (ListField f) v = (case v of JArr vs \<Rightarrow> list_all (conforms D valid_url f) vs | _ \<Rightarrow> False)"
| "conforms D valid_url (Serializer fs) v = (case v of
     JObj kvs \<Rightarrow>
       distinct (map fst kvs) \<and> list_all (\<lambda>k. k \<in> fst ` set fs) (map fst kvs) \<and>
       list_all (\<lambda>(name, required, f). case map_of kvs name of
           None \<Rightarrow> \<not> required | Some x \<Rightarrow> conforms D valid_url f x) fs
   | _ \<Rightarrow> False)"

definition ReferenceSerializer :: schema where
  "ReferenceSerializer = Serializer [(''id'', True, CharField (Some 160)), (''name'', True, CharField (Some 200))]"

definition ClassInfoSerializer :: schema where
  "ClassInfoSerializer = Serializer [(''classId'', True, CharField None), (''teacher'', True, ReferenceSerializer),
     (''batch'', True, ReferenceSerializer)]"

definition MeetingInfoSerializer :: schema where
  "MeetingInfoSerializer = Serializer
     [(''meetingTitle'', True, CharField None), (''classDate'', True, DateField),
      (''scheduleType'', True, ChoiceField [''scheduled'', ''instant'']),
      (''startAt'', True, AllowNull DateTimeField), (''endAt'', True, AllowNull DateTimeField),
      (''status'', True, ChoiceField [''DRAFT'', ''RESERVED'', ''PROVISIONING'', ''READY'', ''LIVE'', ''ENDED'', ''CANCELLED'',
         ''FAILED'', ''PROVIDER_RESPONSE_INVALID'', ''PROVIDER_STATE_UNKNOWN''])]"

definition ProviderAuthorizationSerializer :: schema where
  "ProviderAuthorizationSerializer = Serializer
     [(''accessToken'', True, CharField None), (''tokenType'', True, CharField None), (''expiresAt'', True, AllowNull DateTimeField)]"

definition ConvayInfoSerializer :: schema where
  "ConvayInfoSerializer = Serializer
     [(''meetingType'', True, CharField None), (''calendarId'', True, AllowNull (CharField None)),
      (''meetingPanelAddress'', True, AllowNull (CharField None)), (''startMeetingUrl'', False, AllowNull URLField),
      (''authorization'', False, ProviderAuthorizationSerializer)]"

definition MeetingDataSerializer :: schema where
  "MeetingDataSerializer = Serializer
     [(''id'', True, UUIDField), (''classInfo'', True, ClassInfoSerializer), (''meetingInfo'', True, MeetingInfoSerializer),
      (''convay'', True, ConvayInfoSerializer), (''createdAt'', True, DateTimeField)]"

definition MeetingResponseSerializer :: schema where
  "MeetingResponseSerializer = Serializer [(''success'', True, BooleanField), (''data'', True, MeetingDataSerializer)]"

definition SearchDataSerializer :: schema where
  "SearchDataSerializer = Serializer
     [(''count'', True, IntegerField), (''page'', True, IntegerField), (''pageSize'', True, IntegerField),
      (''results'', True, ListField MeetingDataSerializer)]"

definition SearchResponseSerializer :: schema where
  "SearchResponseSerializer = Serializer [(''success'', True, BooleanField), (''data'', True, SearchDataSerializer)]"

definition AvailabilityDataSerializer :: schema where
  "AvailabilityDataSerializer = Serializer
     [(''startAt'', True, DateTimeField), (''endAt'', True, DateTimeField), (''available'', True, BooleanField)]"

definition AvailabilityResponseSerializer :: schema where
  "AvailabilityResponseSerializer = Serializer
     [(''success'', True, BooleanField), (''data'', True, AvailabilityDataSerializer)]"

definition ConvayTokenInfoSerializer :: schema where
  "ConvayTokenInfoSerializer = Serializer
     [(''calendarId'', True, AllowNull (CharField None)), (''authorization'', True, ProviderAuthorizationSerializer)]"

definition ConvayTokenDataSerializer :: schema where
  "ConvayTokenDataSerializer = Serializer [(''id'', True, UUIDField), (''convay'', True, ConvayTokenInfoSerializer)]"

definition ConvayTokenResponseSerializer :: schema where
  "ConvayTokenResponseSerializer = Serializer
     [(''success'', True, BooleanField), (''data'', True, ConvayTokenDataSerializer)]"

definition ErrorResponseSerializer :: schema where
  "ErrorResponseSerializer = Serializer
     [(''success'', True, BooleanField), (''code'', True, CharField None), (''message'', True, CharField None),
      (''details'', True, JSONField), (''requestId'', True, CharField None)]"

definition TokenDataSerializer :: schema where
  "TokenDataSerializer = Serializer
     [(''accessToken'', True, CharField None), (''tokenType'', True, CharField None), (''expiresIn'', True, IntegerField),
      (''scopes'', True, ListField (CharField None))]"

definition TokenResponseSerializer :: schema where
  "TokenResponseSerializer = Serializer [(''success'', True, BooleanField), (''data'', True, TokenDataSerializer)]"

subsection \<open>Health probes\<close>

definition HealthDataSerializer :: schema where
  "HealthDataSerializer = Serializer [(''status'', True, CharField None)]"

definition HealthResponseSerializer :: schema where
  "HealthResponseSerializer = Serializer [(''success'', True, BooleanField), (''data'', True, HealthDataSerializer)]"

definition HealthErrorSerializer :: schema where
  "HealthErrorSerializer = Serializer
     [(''success'', True, BooleanField), (''code'', True, CharField None), (''message'', True, CharField None),
      (''details'', True, JSONField), (''requestId'', True, CharField None)]"

definition live :: "nat \<times> json" where
  "live = (200, success (JObj [(''status'', JStr ''alive'')]))"

text \<open>The probe asks the database first, then Redis; either may raise anything.\<close>

definition ready :: "exn + unit \<Rightarrow> exn + unit \<Rightarrow> string \<Rightarrow> nat \<times> json" where
  "ready database redis request_id =
     (case bind_r database (\<lambda>_. redis) of
        Inl _ \<Rightarrow> (503, error_body ''NOT_READY'' ''Dependency unavailable.'' (JObj []) request_id)
      | Inr _ \<Rightarrow> (200, success (JObj [(''status'', JStr ''ready'')])))"

subsection \<open>Answers and their schemas\<close>

lemmas schemas = ReferenceSerializer_def ClassInfoSerializer_def MeetingInfoSerializer_def
  ProviderAuthorizationSerializer_def ConvayInfoSerializer_def MeetingDataSerializer_def MeetingResponseSerializer_def
  SearchDataSerializer_def SearchResponseSerializer_def AvailabilityDataSerializer_def
  AvailabilityResponseSerializer_def ConvayTokenInfoSerializer_def ConvayTokenDataSerializer_def
  ConvayTokenResponseSerializer_def ErrorResponseSerializer_def TokenDataSerializer_def TokenResponseSerializer_def
  HealthDataSerializer_def HealthResponseSerializer_def HealthErrorSerializer_def

text \<open>
  Documented behaviour of the fields: a \<open>CharField\<close> trims a text and refuses a blank one, one with a NUL and
  one that is too long; a UUID, a date and an aware instant of the calendar are accepted in the form in
  which Python prints them, an instant also with \<open>Z\<close> for its offset.
\<close>

definition in_calendar :: "int \<Rightarrow> bool" where
  "in_calendar t \<longleftrightarrow> min_local \<le> t \<and> t \<le> max_local"

definition text_shown :: "string \<Rightarrow> bool" where
  "text_shown s \<longleftrightarrow> strip s \<noteq> [] \<and> CHR 0x00 \<notin> set (strip s)"

definition schema_fields_ok :: "env \<Rightarrow> drf \<Rightarrow> bool" where
  "schema_fields_ok E D \<longleftrightarrow>
     (\<forall>limit s. d_char D True limit (JStr s) =
        (if text_shown s \<and> (\<forall>n. limit = Some n \<longrightarrow> length (strip s) \<le> n) then Some (strip s) else None)) \<and>
     (\<forall>u. d_uuid D (JStr (show_uuid u)) \<noteq> None) \<and>
     (\<forall>day. in_calendar (day * day_us) \<longrightarrow> d_date D (JStr (date_isoformat day)) \<noteq> None) \<and>
     (\<forall>d. \<not> is_naive d \<and> in_calendar (dt_instant d) \<longrightarrow> d_datetime D (JStr (e_isoformat E d)) \<noteq> None) \<and>
     (\<forall>t. in_calendar t \<longrightarrow> d_datetime D (JStr (zulu E t)) \<noteq> None)"

lemma length_strip: "length (strip s) \<le> length s"
  unfolding strip_def lstrip_def using length_dropWhile_le[of py_space "rev (dropWhile py_space s)"]
    length_dropWhile_le[of py_space s] by simp

lemma char_field:
  assumes "schema_fields_ok E D"
  shows "d_char D True limit (JStr s) =
    (if text_shown s \<and> (\<forall>n. limit = Some n \<longrightarrow> length (strip s) \<le> n) then Some (strip s) else None)"
  using assms unfolding schema_fields_ok_def by blast

lemma char_conforms: "schema_fields_ok E D \<Longrightarrow> conforms D U (CharField None) (JStr s) \<longleftrightarrow> text_shown s"
  by (simp add: char_field)

lemma short_char_conforms:
  "schema_fields_ok E D \<Longrightarrow> length s \<le> n \<Longrightarrow> conforms D U (CharField (Some n)) (JStr s) \<longleftrightarrow> text_shown s"
  using length_strip[of s] by (simp add: char_field)

lemma url_conforms: "schema_fields_ok E D \<Longrightarrow> conforms D U URLField (JStr s) \<longleftrightarrow> text_shown s \<and> U (strip s)"
  by (simp add: char_field)

lemma uuid_conforms: "schema_fields_ok E D \<Longrightarrow> conforms D U UUIDField (JStr (show_uuid u))"
  unfolding schema_fields_ok_def by simp

lemma date_conforms:
  "schema_fields_ok E D \<Longrightarrow> in_calendar (day * day_us) \<Longrightarrow> conforms D U DateField (JStr (date_isoformat day))"
  unfolding schema_fields_ok_def by simp

lemma datetime_conforms:
  "schema_fields_ok E D \<Longrightarrow> \<not> is_naive d \<Longrightarrow> in_calendar (dt_instant d) \<Longrightarrow>
    conforms D U DateTimeField (JStr (e_isoformat E d))"
  unfolding schema_fields_ok_def by simp

lemma utc_conforms:
  "schema_fields_ok E D \<Longrightarrow> in_calendar t \<Longrightarrow> conforms D U DateTimeField (JStr (e_isoformat E (utc t)))"
  using datetime_conforms[of E D "utc t"] by (simp add: is_naive_def utc_def del: conforms.simps)

lemma zulu_conforms:
  "schema_fields_ok E D \<Longrightarrow> in_calendar t \<Longrightarrow> conforms D U DateTimeField (JStr (zulu E t))"
  unfolding schema_fields_ok_def by simp

lemmas field_conforms = char_conforms short_char_conforms url_conforms uuid_conforms date_conforms datetime_conforms
  utc_conforms zulu_conforms

text \<open>Rows and tokens whose instants Python can represent.\<close>

definition dates_ok :: "meeting \<Rightarrow> bool" where
  "dates_ok m \<longleftrightarrow> in_calendar (m_class_date m * day_us) \<and> in_calendar (m_created_at m) \<and>
     (\<forall>t. m_start_at m = Some t \<or> m_end_at m = Some t \<longrightarrow> in_calendar t)"

definition token_dates_ok :: "provider_auth_result \<Rightarrow> bool" where
  "token_dates_ok tok \<longleftrightarrow> (\<forall>d. expires_at tok = Some d \<longrightarrow> \<not> is_naive d \<and> in_calendar (dt_instant d))"

text \<open>What the schema asks of a row that is shown, and of a token and a start URL shown with it.\<close>

definition documented :: "meeting \<Rightarrow> bool" where
  "documented m \<longleftrightarrow> status_text (m_status m) \<in> set search_statuses"

definition texts_shown :: "meeting \<Rightarrow> bool" where
  "texts_shown m \<longleftrightarrow> list_all text_shown [m_external_class_id m, m_teacher_id m, m_teacher_name m, m_batch_id m,
       m_batch_name m, m_meeting_title m, lower (m_provider_meeting_type m)] \<and>
     (\<forall>s. m_provider_calendar_id m = Some s \<or> m_provider_panel_address m = Some s \<longrightarrow> text_shown s)"

definition presentable :: "meeting \<Rightarrow> bool" where
  "presentable m \<longleftrightarrow> documented m \<and> texts_shown m \<and> lower (m_schedule_type m) \<in> {''scheduled'', ''instant''}"

definition secrets_shown :: "env \<Rightarrow> (string \<Rightarrow> bool) \<Rightarrow> meeting \<Rightarrow> provider_auth_result option \<Rightarrow> bool" where
  "secrets_shown E valid_url m shown \<longleftrightarrow> (\<forall>tok. shown = Some tok \<longrightarrow> text_shown (access_token tok) \<and>
     (\<forall>s. start_url_member E m = Inr (JStr s) \<longrightarrow> text_shown s \<and> valid_url (strip s)))"

lemma authorization_conforms:
  assumes "schema_fields_ok E D" and "token_dates_ok tok"
  shows "conforms D U ProviderAuthorizationSerializer (authorization E tok) \<longleftrightarrow> text_shown (access_token tok)"
proof -
  have "text_shown ''Bearer''" by (simp add: text_shown_def strip_def lstrip_def py_space_def)
  then show ?thesis
    using assms(2)
    by (cases "expires_at tok")
      (simp_all add: ProviderAuthorizationSerializer_def authorization_def token_dates_ok_def
        field_conforms[OF assms(1)] del: conforms.simps(1,4))
qed

lemma class_info_conforms:
  assumes "schema_fields_ok E D" and "meeting_text_ok m"
  shows "conforms D U ClassInfoSerializer (JObj [(''classId'', JStr (m_external_class_id m)),
        (''teacher'', JObj [(''id'', JStr (m_teacher_id m)), (''name'', JStr (m_teacher_name m))]),
        (''batch'', JObj [(''id'', JStr (m_batch_id m)), (''name'', JStr (m_batch_name m))])]) \<longleftrightarrow>
     text_shown (m_external_class_id m) \<and> text_shown (m_teacher_id m) \<and> text_shown (m_teacher_name m) \<and>
     text_shown (m_batch_id m) \<and> text_shown (m_batch_name m)"
  using assms(2)
  by (simp add: ClassInfoSerializer_def ReferenceSerializer_def meeting_text_ok_def text_fits_def
      field_conforms[OF assms(1)] del: conforms.simps(1))

lemma opt_time_conforms:
  assumes "schema_fields_ok E D" and "\<And>t. i = Some t \<Longrightarrow> in_calendar t"
  shows "conforms D U (AllowNull DateTimeField) (opt_time E i)"
  using assms(2) by (cases i) (simp_all add: opt_time_def field_conforms[OF assms(1)] del: conforms.simps(4))

lemma opt_str_conforms:
  assumes "schema_fields_ok E D"
  shows "conforms D U (AllowNull (CharField None)) (opt_str t) \<longleftrightarrow> (\<forall>s. t = Some s \<longrightarrow> text_shown s)"
  by (cases t) (simp_all add: opt_str_def field_conforms[OF assms] del: conforms.simps(1))

lemma meeting_info_conforms:
  assumes "schema_fields_ok E D" and "dates_ok m"
  shows "conforms D U MeetingInfoSerializer (JObj [(''meetingTitle'', JStr (m_meeting_title m)),
        (''classDate'', JStr (date_isoformat (m_class_date m))),
        (''scheduleType'', JStr (lower (m_schedule_type m))), (''startAt'', opt_time E (m_start_at m)),
        (''endAt'', opt_time E (m_end_at m)), (''status'', JStr (status_text (m_status m)))]) \<longleftrightarrow>
     text_shown (m_meeting_title m) \<and> lower (m_schedule_type m) \<in> {''scheduled'', ''instant''} \<and> documented m"
  using opt_time_conforms[OF assms(1), where U = U] assms(2)
  by (simp add: MeetingInfoSerializer_def documented_def search_statuses_def dates_ok_def field_conforms[OF assms(1)]
      del: conforms.simps(1,3,4,10) status_text.simps)

lemma convay_conforms:
  assumes "schema_fields_ok E D" and "\<forall>tok. shown = Some tok \<longrightarrow> token_dates_ok tok"
    and "representation E m shown = Inr body"
  obtains convay where "body = JObj
    [(''id'', JStr (show_uuid (m_id m))),
     (''classInfo'', JObj [(''classId'', JStr (m_external_class_id m)),
        (''teacher'', JObj [(''id'', JStr (m_teacher_id m)), (''name'', JStr (m_teacher_name m))]),
        (''batch'', JObj [(''id'', JStr (m_batch_id m)), (''name'', JStr (m_batch_name m))])]),
     (''meetingInfo'', JObj [(''meetingTitle'', JStr (m_meeting_title m)), (''classDate'', JStr (date_isoformat (m_class_date m))),
        (''scheduleType'', JStr (lower (m_schedule_type m))), (''startAt'', opt_time E (m_start_at m)),
        (''endAt'', opt_time E (m_end_at m)), (''status'', JStr (status_text (m_status m)))]),
     (''convay'', convay), (''createdAt'', JStr (e_isoformat E (utc (m_created_at m))))]"
    "\<And>U. conforms D U ConvayInfoSerializer convay \<longleftrightarrow> text_shown (lower (m_provider_meeting_type m)) \<and>
       (\<forall>s. m_provider_calendar_id m = Some s \<or> m_provider_panel_address m = Some s \<longrightarrow> text_shown s) \<and>
       secrets_shown E U m shown"
proof (cases shown)
  case None
  then show ?thesis using assms(3)
    by (intro that[of "JObj [(''meetingType'', JStr (lower (m_provider_meeting_type m))),
        (''calendarId'', opt_str (m_provider_calendar_id m)), (''meetingPanelAddress'', opt_str (m_provider_panel_address m))]"])
      (auto simp: representation_def Let_def ConvayInfoSerializer_def secrets_shown_def opt_str_conforms[OF assms(1)]
        field_conforms[OF assms(1)] simp del: conforms.simps(1,10))
next
  case (Some tok)
  then obtain url where url: "start_url_member E m = Inr url" using assms(3) by (auto simp: representation_def Let_def bind_r_Inr_iff)
  then have u: "url = JNull \<or> (\<exists>s. url = JStr s)" by (auto simp: start_url_member_def bind_r_Inr_iff split: if_splits)
  have "conforms D U (AllowNull URLField) url \<longleftrightarrow> (\<forall>s. url = JStr s \<longrightarrow> text_shown s \<and> U (strip s))" for U
    using u by (auto simp: field_conforms[OF assms(1)] simp del: conforms.simps(5))
  moreover have "conforms D U ProviderAuthorizationSerializer (authorization E tok) \<longleftrightarrow> text_shown (access_token tok)" for U
    using authorization_conforms[OF assms(1)] assms(2) Some by blast
  ultimately show ?thesis using assms(3) Some url
    by (intro that[of "JObj [(''meetingType'', JStr (lower (m_provider_meeting_type m))),
        (''calendarId'', opt_str (m_provider_calendar_id m)), (''meetingPanelAddress'', opt_str (m_provider_panel_address m)),
        (''authorization'', authorization E tok), (''startMeetingUrl'', url)]"])
      (auto simp: representation_def Let_def ConvayInfoSerializer_def secrets_shown_def opt_str_conforms[OF assms(1)]
        field_conforms[OF assms(1)] simp del: conforms.simps(1,5,10))
qed

lemma representation_conforms:
  assumes ok: "schema_fields_ok E D" and row: "meeting_text_ok m" "dates_ok m"
    and shown: "\<forall>tok. shown = Some tok \<longrightarrow> token_dates_ok tok" and r: "representation E m shown = Inr body"
  shows "conforms D U MeetingDataSerializer body \<longleftrightarrow> presentable m \<and> secrets_shown E U m shown"
  using ok shown r
proof (cases rule: convay_conforms)
  case (1 convay)
  have "in_calendar (m_created_at m)" using row(2) by (simp add: dates_ok_def)
  then show ?thesis
    using 1(2)[of U] class_info_conforms[OF ok row(1), of U] meeting_info_conforms[OF ok row(2), of U]
    by (auto simp: 1(1) MeetingDataSerializer_def field_conforms[OF ok] presentable_def texts_shown_def
        simp del: conforms.simps(2,4))
qed

lemma success_conforms:
  "conforms D U MeetingResponseSerializer (success body) = conforms D U MeetingDataSerializer body"
  "conforms D U SearchResponseSerializer (success body) = conforms D U SearchDataSerializer body"
  "conforms D U AvailabilityResponseSerializer (success body) = conforms D U AvailabilityDataSerializer body"
  "conforms D U ConvayTokenResponseSerializer (success body) = conforms D U ConvayTokenDataSerializer body"
  by (simp_all add: success_def MeetingResponseSerializer_def SearchResponseSerializer_def
      AvailabilityResponseSerializer_def ConvayTokenResponseSerializer_def)

lemma represent_all_conform:
  assumes "schema_fields_ok E D" and "represent_all E ms = Inr vs" and "\<forall>m \<in> set ms. meeting_text_ok m \<and> dates_ok m"
  shows "list_all (conforms D U MeetingDataSerializer) vs \<longleftrightarrow> list_all presentable ms"
  using assms(2,3)
proof (induction ms arbitrary: vs)
  case (Cons m ms)
  then show ?case
    using representation_conforms[OF assms(1), of m None _ U] by (auto simp: bind_r_Inr_iff secrets_shown_def)
qed simp

lemma created_conforms:
  assumes ok: "schema_fields_ok E D" and wf: "db_wf (w_db w)" "get_client (c_id u) (w_db w) \<noteq> None"
    and v: "create_view E D pk data u w = (Inr (st, body), w')"
  shows "st \<in> {200, 201} \<and> (\<exists>m shown. get_meeting (m_id m) (w_db w') = Some m \<and> m_integration_client m = c_id u \<and>
    (shown \<noteq> None \<longleftrightarrow> ''meeting:token'' \<in> set (c_scopes u)) \<and>
    (dates_ok m \<and> (\<forall>tok. shown = Some tok \<longrightarrow> token_dates_ok tok) \<longrightarrow>
      (conforms D U MeetingResponseSerializer body \<longleftrightarrow> texts_shown m \<and>
        lower (m_schedule_type m) \<in> {''scheduled'', ''instant''} \<and> secrets_shown E U m shown)))"
proof -
  obtain v :: request_values and m rep shown where c: "get_meeting (m_id m) (w_db w') = Some m" "m_integration_client m = c_id u"
      "m_status m \<in> {READY, LIVE}" "st = (if class_rows u (v_class_id v) (w_db w) = [] then 201 else 200)"
      "body = success rep" "representation E m shown = Inr rep"
      "shown \<noteq> None \<longleftrightarrow> ''meeting:token'' \<in> set (c_scopes u)"
    using created_answer_row[OF wf v] by (elim exE conjE) (rule that, assumption+)
  have "own_effect u (w_db w) (w_db w')" using create_endpoint.own[OF wf v] .
  then have "db_wf (w_db w')" by (auto dest: own_effectD(1) simp: run_frame_def)
  then have row: "meeting_text_ok m" using meeting_tbl.fetch_mem[OF c(1)] by (simp add: db_wf_def meetings_wf_def)
  have "documented m" using c(3) by (auto simp: documented_def search_statuses_def)
  then have "dates_ok m \<and> (\<forall>tok. shown = Some tok \<longrightarrow> token_dates_ok tok) \<longrightarrow>
      (conforms D U MeetingResponseSerializer body \<longleftrightarrow> texts_shown m \<and>
        lower (m_schedule_type m) \<in> {''scheduled'', ''instant''} \<and> secrets_shown E U m shown)"
    using representation_conforms[OF ok row _ _ c(6), of U] unfolding c(5) success_conforms(1) presentable_def by blast
  then show ?thesis using c(1,2,4,7) by (simp del: conforms.simps) blast
qed

lemma token_answer:
  assumes ok: "schema_fields_ok E D" and v: "token_view E pk u w = (Inr (st, body), w')"
  shows "st = 200 \<and> (\<exists>m tok. owned u pk (w_db w) = Inr m \<and> (token_dates_ok tok \<longrightarrow>
    (conforms D U ConvayTokenResponseSerializer body \<longleftrightarrow>
      (\<forall>s. m_provider_calendar_id m = Some s \<longrightarrow> text_shown s) \<and> text_shown (access_token tok))))"
proof -
  obtain m t where t: "st = 200" "body = token_body E m t" "owned u pk (w_db w) = Inr m"
    using v by (auto simp: token_view_def bind_r_def bind_w_def split: sum.splits if_splits option.splits exn.splits prod.splits)
  have "conforms D U ConvayTokenResponseSerializer body \<longleftrightarrow>
      (\<forall>s. m_provider_calendar_id m = Some s \<longrightarrow> text_shown s) \<and> text_shown (access_token t)" if "token_dates_ok t"
    using authorization_conforms[OF ok that, of U]
    by (simp add: t(2) token_body_def success_conforms ConvayTokenDataSerializer_def ConvayTokenInfoSerializer_def
        field_conforms[OF ok] opt_str_conforms[OF ok] del: conforms.simps(2,10))
  then show ?thesis using t by blast
qed

lemma availability_answer:
  assumes ok: "schema_fields_ok E D" and v: "availability_view E D data u d = Inr (st, body)"
  shows "st = 200 \<and> (\<exists>s e. availability_request D data = Some (s, e) \<and>
    (in_calendar (dt_instant s) \<and> in_calendar (dt_instant e) \<longrightarrow> conforms D U AvailabilityResponseSerializer body))"
proof -
  obtain s e a where a: "st = 200" "availability_request D data = Some (s, e)" "availability E d u s e = Inr a"
      "body = success (JObj [(''startAt'', JStr (zulu E (av_start_at a))), (''endAt'', JStr (zulu E (av_end_at a))),
         (''available'', JBool (av_available a))])"
    using v by (auto simp: availability_view_def bind_r_Inr_iff validated_def split: option.splits)
  have "av_start_at a = dt_instant s" "av_end_at a = dt_instant e"
    using a(3) by (auto simp: availability_def bind_r_Inr_iff)
  then have "conforms D U AvailabilityResponseSerializer body" if "in_calendar (dt_instant s)" "in_calendar (dt_instant e)"
    using that by (simp add: a(4) success_conforms AvailabilityDataSerializer_def field_conforms[OF ok] del: conforms.simps(4))
  then show ?thesis using a(1,2) by blast
qed

lemma detail_answer:
  assumes ok: "schema_fields_ok E D" and wf: "db_wf d" and v: "detail_view E pk u d = Inr (st, body)"
  shows "st = 200 \<and> (\<exists>m. owned u pk d = Inr m \<and> (dates_ok m \<longrightarrow>
    (conforms D U MeetingResponseSerializer body \<longleftrightarrow> presentable m)))"
proof -
  obtain m rep where m: "st = 200" "owned u pk d = Inr m" "representation E m None = Inr rep" "body = success rep"
    using v by (auto simp: detail_view_def bind_r_Inr_iff)
  have "meeting_text_ok m" using m(2) wf by (auto simp: owned_def find_Some_iff db_wf_def meetings_wf_def split: option.splits)
  then show ?thesis
    using m representation_conforms[OF ok _ _ _ m(3), of U] by (auto simp: success_conforms secrets_shown_def)
qed

lemma list_answer:
  assumes ok: "schema_fields_ok E D" and wf: "db_wf d" and v: "list_view E D data u d = Inr (st, body)"
  shows "st = 200 \<and> (\<exists>q. search_request D data = Some q \<and>
    (let shown = page_slice (q_page q) (q_page_size q) (search_rows D u q d) in list_all dates_ok shown \<longrightarrow>
      (conforms D U SearchResponseSerializer body \<longleftrightarrow> list_all presentable shown)))"
proof -
  obtain q vs where q: "search_request D data = Some q" "st = 200"
      "represent_all E (page_slice (q_page q) (q_page_size q) (search_rows D u q d)) = Inr vs"
      "body = success (JObj [(''count'', JInt (int (length (search_rows D u q d)))), (''page'', JInt (q_page q)),
         (''pageSize'', JInt (q_page_size q)), (''results'', JArr vs)])"
    using v by (auto simp: list_view_def Let_def bind_r_Inr_iff validated_def page_rows_def split: option.splits if_splits)
  let ?shown = "page_slice (q_page q) (q_page_size q) (search_rows D u q d)"
  have "set ?shown \<subseteq> set (db_meetings d)"
    by (auto simp: page_slice_def search_rows_def dest!: in_set_takeD in_set_dropD)
  then have "\<forall>m \<in> set ?shown. meeting_text_ok m" using wf by (auto simp: db_wf_def meetings_wf_def)
  then have "list_all (conforms D U MeetingDataSerializer) vs \<longleftrightarrow> list_all presentable ?shown" if "list_all dates_ok ?shown"
    using represent_all_conform[OF ok q(3)] that by (simp add: list_all_iff)
  then show ?thesis using q(1,2,4) by (simp add: success_conforms SearchDataSerializer_def Let_def)
qed

lemma scope_shown: "s \<in> SCOPES \<Longrightarrow> text_shown s"
  by (auto simp: SCOPES_def text_shown_def strip_def lstrip_def py_space_def)

lemma exchange_answer:
  assumes ok: "schema_fields_ok E D" and valid: "clients_valid (w_db w)"
    and v: "token_exchange A D remote jti data w = (Inr body, w')"
  shows "\<exists>tok c. body = token_response A tok c \<and> (conforms D U TokenResponseSerializer body \<longleftrightarrow> text_shown tok)"
proof -
  obtain cid secret c tok where b: "body = token_response A tok c" "authenticate_credentials A cid secret remote (w_db w) = Inr c"
    using v by (rule token_exchangeD) blast
  have wf: "credentials_wf (w_db w)" using valid by (simp add: clients_valid_def)
  have "c \<in> set (db_clients (w_db w))" using b(2) authenticate_credentials_iff[OF wf] by blast
  then have "text_shown s" if "s \<in> set (c_scopes c)" for s
    using wf that scope_shown by (auto simp: credentials_wf_def client_row_ok_def)
  moreover have "text_shown ''Bearer''" by (simp add: text_shown_def strip_def lstrip_def py_space_def)
  ultimately have "conforms D U TokenResponseSerializer body \<longleftrightarrow> text_shown tok"
    by (simp add: b(1) TokenResponseSerializer_def TokenDataSerializer_def token_response_def list_all_iff
        field_conforms[OF ok] del: conforms.simps(1))
  then show ?thesis using b(1) by blast
qed

lemma error_conforms:
  assumes "schema_fields_ok E D"
  shows "conforms D U ErrorResponseSerializer (error_body code message details rid) \<longleftrightarrow>
    text_shown code \<and> text_shown message \<and> details \<noteq> JNull \<and> text_shown rid"
  by (auto simp: ErrorResponseSerializer_def error_body_def field_conforms[OF assms] simp del: conforms.simps(1))

text \<open>The envelope of an exception: one the framework does not know has fixed texts.\<close>

lemma envelope_conforms:
  assumes ok: "schema_fields_ok E D"
  shows "conforms D U ErrorResponseSerializer (snd (exception_handler D rid x)) \<longleftrightarrow> text_shown rid \<and>
    (\<forall>st details. d_handler D x = Some (st, details) \<longrightarrow>
       text_shown (error_code D x) \<and> text_shown (error_message x) \<and> (st = 400 \<longrightarrow> details \<noteq> JNull))"
proof -
  have "text_shown ''INTERNAL_ERROR''" "text_shown ''An internal error occurred.''"
    by (simp_all add: text_shown_def strip_def lstrip_def py_space_def)
  then show ?thesis
    by (cases "d_handler D x") (auto simp: exception_handler_def error_conforms[OF ok])
qed


text \<open>The probes keep to their schemas; the readiness probe says yes exactly when both dependencies answer.\<close>

lemma probes_keep_schema:
  assumes "schema_fields_ok E D" and "text_shown rid"
  shows "fst live = 200 \<and> conforms D U HealthResponseSerializer (snd live) \<and>
   (fst (ready database redis rid) = 200 \<longleftrightarrow> database = Inr () \<and> redis = Inr ()) \<and>
   conforms D U (if database = Inr () \<and> redis = Inr () then HealthResponseSerializer else HealthErrorSerializer)
     (snd (ready database redis rid))"
proof -
  have t: "text_shown ''alive''" "text_shown ''ready''" "text_shown ''NOT_READY''" "text_shown ''Dependency unavailable.''"
    by (simp_all add: text_shown_def strip_def lstrip_def py_space_def)
  show ?thesis
    by (cases database; cases redis)
      (simp_all add: live_def ready_def success_def error_body_def HealthDataSerializer_def HealthResponseSerializer_def
        HealthErrorSerializer_def field_conforms[OF assms(1)] t assms(2) del: conforms.simps(1))
qed

subsection \<open>Witness\<close>

definition schema_drf :: drf where
  "schema_drf = sample_drf\<lparr>d_date := (\<lambda>v. case v of JStr s \<Rightarrow> Some 0 | _ \<Rightarrow> None),
     d_datetime := (\<lambda>v. case v of JStr s \<Rightarrow> Some (utc 0) | _ \<Rightarrow> None)\<rparr>"

lemma sample_schema_fields: "schema_fields_ok sample_env schema_drf"
proof -
  have "sample_char True limit (JStr s) =
      (if text_shown s \<and> (\<forall>n. limit = Some n \<longrightarrow> length (strip s) \<le> n) then Some (strip s) else None)" for limit s
    by (cases limit) (auto simp: sample_char_def text_shown_def Let_def)
  then show ?thesis by (simp add: schema_fields_ok_def schema_drf_def sample_drf_def uuid_of_json_def)
qed

lemma sample_presentable: "presentable sample_ready" "\<not> presentable sample_failed" "dates_ok sample_ready" "dates_ok sample_failed"
proof -
  have "lower ''SCHEDULED'' = ''scheduled''" "lower ''INSTANT'' = ''instant''" by code_simp+
  moreover have "text_shown ''cal-9''" "text_shown ''p''"
    by (simp_all add: text_shown_def strip_def lstrip_def py_space_def)
  ultimately show "presentable sample_ready"
    by (simp add: presentable_def documented_def search_statuses_def texts_shown_def sample_rows all_conj_distrib imp_conjR)
      (simp add: text_shown_def strip_def lstrip_def py_space_def)
  show "\<not> presentable sample_failed"
    by (simp add: presentable_def documented_def search_statuses_def sample_failed_def)
  show "dates_ok sample_ready" "dates_ok sample_failed"
    by (simp_all add: dates_ok_def in_calendar_def min_local_def max_local_def day_us_def hour_us_def sample_rows)
qed


end
