(* ===== verification/Scrubbing.thy ===== *)
theory Scrubbing
  imports Json "HOL-Library.Sublist"
begin

text \<open>
  \<open>sanitize_text\<close> of \<open>apps/convay/diagnostics.py\<close>: known secrets, URLs, bearer tokens, JSON web tokens
  and credential assignments are replaced before a text is logged. The regular expressions are
  matchers that give the length of the match at a position; the lemmas show which secrets can not
  occur in any text that was rewritten, whatever the matchers find.
\<close>

subsection \<open>Substitution\<close>

text \<open>
  \<open>re.sub\<close> with a pattern that matches no empty text: the leftmost match is replaced, the search goes
  on after it. A matcher sees the character before the position and the rest of the text; it gives
  the length of the match, how much of it stays, and the text that follows what stays.
\<close>

type_synonym matcher = "char option \<Rightarrow> string \<Rightarrow> (nat \<times> nat \<times> string) option"

function re_sub :: "matcher \<Rightarrow> char option \<Rightarrow> string \<Rightarrow> string" where
  "re_sub m prev [] = []"
| "re_sub m prev (c # cs) =
     (case m prev (c # cs) of
        None \<Rightarrow> c # re_sub m (Some c) cs
      | Some (n, stay, r) \<Rightarrow>
          take stay (c # cs) @ r @ re_sub m (Some ((c # cs) ! (n - 1))) (drop (n - 1) cs))"
  by pat_completeness auto
termination by (relation "measure (\<lambda>(m, prev, s). length s)") auto

text \<open>\<open>\w\<close> on the code points below 256, \<open>\b\<close> between two optional characters, \<open>re.I\<close> on a literal.\<close>

definition word_char :: "char \<Rightarrow> bool" where
  "word_char c = (let n = (of_char c :: nat) in
     48 \<le> n \<and> n \<le> 57 \<or> 65 \<le> n \<and> n \<le> 90 \<or> n = 95 \<or> 97 \<le> n \<and> n \<le> 122 \<or>
     n \<in> {170, 178, 179, 181, 185, 186, 188, 189, 190} \<or> 192 \<le> n \<and> n \<noteq> 215 \<and> n \<noteq> 247)"

definition is_word :: "char option \<Rightarrow> bool" where
  "is_word c = (case c of None \<Rightarrow> False | Some x \<Rightarrow> word_char x)"

definition first_char :: "string \<Rightarrow> char option" where
  "first_char s = (case s of [] \<Rightarrow> None | c # _ \<Rightarrow> Some c)"

definition boundary :: "char option \<Rightarrow> char option \<Rightarrow> bool" where
  "boundary a b \<longleftrightarrow> is_word a \<noteq> is_word b"

definition starts_ignoring_case :: "string \<Rightarrow> string \<Rightarrow> bool" where
  "starts_ignoring_case s p = starts_with (lower s) p"

definition run_length :: "(char \<Rightarrow> bool) \<Rightarrow> string \<Rightarrow> nat" where
  "run_length p s = length (takeWhile p s)"

subsection \<open>The patterns\<close>

definition REDACTED :: string where "REDACTED = ''[REDACTED]''"

definition url_char :: "char \<Rightarrow> bool" where
  "url_char c \<longleftrightarrow> \<not> py_space c \<and> c \<notin> set ''<>'' \<and> c \<noteq> CHR 0x22 \<and> c \<noteq> CHR 0x27"

text \<open>\<open>https?://[^\s<>"\']+\<close>\<close>

definition match_url :: matcher where
  "match_url prev s =
     (let p = (if starts_ignoring_case s ''https://'' then 8 else if starts_ignoring_case s ''http://'' then 7 else 0);
          n = run_length url_char (drop p s)
      in if p = 0 \<or> n = 0 then None else Some (p + n, 0, ''[REDACTED_URL]''))"

text \<open>\<open>\bBearer\s+[^\s,"\']+\<close>\<close>

definition bearer_char :: "char \<Rightarrow> bool" where
  "bearer_char c \<longleftrightarrow> \<not> py_space c \<and> c \<noteq> CHR '','' \<and> c \<noteq> CHR 0x22 \<and> c \<noteq> CHR 0x27"

definition match_bearer :: matcher where
  "match_bearer prev s =
     (let sp = run_length py_space (drop 6 s); n = run_length bearer_char (drop (6 + sp) s)
      in if boundary prev (first_char s) \<and> starts_ignoring_case s ''bearer'' \<and> sp \<noteq> 0 \<and> n \<noteq> 0
         then Some (6 + sp + n, 0, ''Bearer [REDACTED]'') else None)"

text \<open>\<open>\b[A-Za-z0-9_-]{8,}\.[A-Za-z0-9_-]{8,}\.[A-Za-z0-9_-]+\b\<close>: the last run is cut back to a boundary.\<close>

definition token_char :: "char \<Rightarrow> bool" where
  "token_char c = (let n = (of_char c :: nat) in
     48 \<le> n \<and> n \<le> 57 \<or> 65 \<le> n \<and> n \<le> 90 \<or> n = 95 \<or> 97 \<le> n \<and> n \<le> 122 \<or> n = 45)"

fun cut_back :: "string \<Rightarrow> nat \<Rightarrow> nat" where
  "cut_back s 0 = 0"
| "cut_back s (Suc k) =
     (if boundary (Some (s ! k)) (first_char (drop (Suc k) s)) then Suc k else cut_back s k)"

definition match_jwt :: matcher where
  "match_jwt prev s =
     (let a = run_length token_char s; s1 = drop (a + 1) s;
          b = run_length token_char s1; s2 = drop (b + 1) s1;
          c = cut_back s2 (run_length token_char s2)
      in if boundary prev (first_char s) \<and> 8 \<le> a \<and> first_char (drop a s) = Some CHR ''.'' \<and>
            8 \<le> b \<and> first_char (drop b s1) = Some CHR ''.'' \<and> c \<noteq> 0
         then Some (a + 1 + (b + 1) + c, 0, REDACTED) else None)"

text \<open>
  The names of credentials, \<open>password|authorization|(?:access[_-]?|refresh[_-]?|client[_-]?)?token|
  (?:client[_-]?)?secret|encryption[_-]?key\<close>: no two of the alternatives match at one position.
\<close>

definition credential_names :: "string list" where
  "credential_names = [''password'', ''authorization''] @
     concat (map (\<lambda>p. map (\<lambda>sep. p @ sep @ ''token'') [''_'', ''-'', '''']) [''access'', ''refresh'', ''client'']) @ [''token''] @
     map (\<lambda>sep. ''client'' @ sep @ ''secret'') [''_'', ''-'', ''''] @ [''secret''] @
     map (\<lambda>sep. ''encryption'' @ sep @ ''key'') [''_'', ''-'', '''']"

text \<open>\<open>(?:"[^"]*"|\'[^\']*\'|[^\s,;]+)\<close>\<close>

definition quoted_length :: "char \<Rightarrow> string \<Rightarrow> nat" where
  "quoted_length q s = (if first_char s = Some q \<and> q \<in> set (tl s) then run_length (\<lambda>c. c \<noteq> q) (tl s) + 2 else 0)"

definition value_length :: "string \<Rightarrow> nat" where
  "value_length s =
     (if quoted_length CHR 0x22 s \<noteq> 0 then quoted_length CHR 0x22 s
      else if quoted_length CHR 0x27 s \<noteq> 0 then quoted_length CHR 0x27 s
      else run_length (\<lambda>c. \<not> py_space c \<and> c \<noteq> CHR '','' \<and> c \<noteq> CHR '';'') s)"

definition match_assignment :: matcher where
  "match_assignment prev s =
     (case List.find (starts_ignoring_case s) credential_names of
        None \<Rightarrow> None
      | Some name \<Rightarrow>
          (let k = length name; a = k + run_length py_space (drop k s);
               b = a + 1 + run_length py_space (drop (a + 1) s); n = value_length (drop b s)
           in if boundary prev (first_char s) \<and> first_char (drop a s) \<in> {Some CHR '':'', Some CHR ''=''} \<and> n \<noteq> 0
              then Some (b + n, k, ''='' @ REDACTED) else None))"

subsection \<open>Sanitizing a text\<close>

text \<open>
  The secrets come in the order in which the source's set yields them; the longest is replaced first.
\<close>

definition sanitize_text :: "string \<Rightarrow> string list \<Rightarrow> string" where
  "sanitize_text value secrets =
     (let known = sort_key (\<lambda>s. - int (length s)) (remdups (filter (\<lambda>s. s \<noteq> []) secrets));
          v0 = fold (\<lambda>s v. py_replace s REDACTED v) known value;
          v1 = re_sub match_url None v0;
          v2 = re_sub match_bearer None v1;
          v3 = re_sub match_jwt None v2;
          v4 = re_sub match_assignment None v3
      in take 512 v4)"

subsection \<open>What a rewriting can not bring about\<close>

text \<open>
  Every step rewrites disjoint pieces of the text to one replacement \<open>r\<close>. A secret that does not
  overlap \<open>r\<close> occurs in the result only where it occurred before.
\<close>

inductive rewritten :: "string \<Rightarrow> string \<Rightarrow> string \<Rightarrow> bool" for r where
  empty: "rewritten r [] []"
| keep: "rewritten r t u \<Longrightarrow> rewritten r (c # t) (c # u)"
| replaced: "rewritten r t u \<Longrightarrow> rewritten r (x @ t) (r @ u)"

definition comparable :: "string \<Rightarrow> string \<Rightarrow> bool" where
  "comparable a b \<longleftrightarrow> prefix a b \<or> prefix b a"

definition unmixed :: "string \<Rightarrow> string \<Rightarrow> bool" where
  "unmixed s r \<longleftrightarrow> s \<noteq> [] \<and> list_all (\<lambda>q. q = [] \<or> \<not> comparable q r) (suffixes s) \<and>
     list_all (\<lambda>q. q = [] \<or> \<not> comparable s q) (suffixes r)"

lemma unmixedD:
  assumes "unmixed s r"
  shows "s \<noteq> []" and "suffix q s \<Longrightarrow> q \<noteq> [] \<Longrightarrow> \<not> comparable q r" and "suffix q r \<Longrightarrow> q \<noteq> [] \<Longrightarrow> \<not> comparable s q"
  using assms by (auto simp: unmixed_def list_all_iff)

lemma rewritten_keep_append: "rewritten r t u \<Longrightarrow> rewritten r (x @ t) (x @ u)"
  by (induction x) (auto intro: rewritten.keep)

lemma rewritten_refl: "rewritten r t t"
  using rewritten_keep_append[OF rewritten.empty, of r t] by simp

lemma rewritten_prefix:
  assumes "rewritten r t u" and "unmixed s r" and "suffix p s" and "prefix p u"
  shows "prefix p t"
  using assms(1,3,4)
proof (induction arbitrary: p)
  case (keep t u c)
  show ?case
  proof (cases p)
    case (Cons a p')
    then have "a = c" "prefix p' u" "suffix p' s" using keep.prems by (auto dest: suffix_ConsD)
    then show ?thesis using keep.IH Cons by simp
  qed simp
next
  case (replaced t u x)
  have "comparable p r"
    unfolding comparable_def using replaced.prems(2) by (rule prefix_same_cases) simp
  then show ?case using unmixedD(2)[OF assms(2) replaced.prems(1)] by (cases p) auto
qed simp

lemma unmixed_append:
  assumes "unmixed s r" and "sublist s (r @ u)"
  shows "sublist s u"
proof -
  consider "sublist s r" | "sublist s u" | s1 s2 where "s = s1 @ s2" "suffix s1 r" "prefix s2 u"
    using assms(2) unfolding sublist_append by blast
  then show ?thesis
  proof cases
    case 1
    then obtain q where "suffix q r" "prefix s q" unfolding sublist_altdef' by blast
    then show ?thesis
      using unmixedD(3)[OF assms(1)] unmixedD(1)[OF assms(1)] by (cases q) (auto simp: comparable_def)
  next
    case 3
    then have "comparable s s1" by (simp add: comparable_def)
    then have "s1 = []" using unmixedD(3)[OF assms(1) 3(2)] by blast
    then show ?thesis using 3 by simp
  qed
qed

lemma rewritten_sublist:
  assumes "rewritten r t u" and "unmixed s r" and "sublist s u"
  shows "sublist s t"
  using assms(1,3)
proof (induction)
  case (keep t u c)
  from keep.prems consider "prefix s (c # u)" | "sublist s u" unfolding sublist_Cons_right by blast
  then show ?case
  proof cases
    case 1
    have "prefix s (c # t)"
      using rewritten_prefix[OF rewritten.keep[OF keep.hyps(1)] assms(2) suffix_order.refl 1] .
    then show ?thesis by simp
  next
    case 2
    then show ?thesis using keep.IH by (auto simp: sublist_Cons_right)
  qed
next
  case (replaced t u x)
  have "sublist s t" using replaced.IH unmixed_append[OF assms(2) replaced.prems] .
  then show ?case by (simp add: sublist_append)
qed simp

lemma starts_with_prefix: "starts_with s p \<longleftrightarrow> prefix p s"
  unfolding starts_with_def prefix_def by (metis append_take_drop_id append_eq_conv_conj)

lemma py_replace_rewritten: "rewritten r t (py_replace p r t)"
proof (induction p r t rule: py_replace.induct)
  case (2 p r c cs)
  show ?case
  proof (cases "p \<noteq> [] \<and> starts_with (c # cs) p")
    case True
    then have "c # cs = p @ drop (length p - 1) cs"
      by (cases p) (auto simp: starts_with_prefix prefix_def)
    moreover have "py_replace p r (c # cs) = r @ py_replace p r (drop (length p - 1) cs)"
      by (rule trans[OF py_replace.simps(2) if_P[OF True]])
    ultimately show ?thesis using rewritten.replaced[OF 2(1)[OF True], of p] by metis
  next
    case False
    then have "py_replace p r (c # cs) = c # py_replace p r cs" by (simp only: py_replace.simps if_False)
    then show ?thesis using rewritten.keep[OF 2(2)[OF False]] by simp
  qed
qed (simp add: rewritten.empty)

lemma py_replace_removes:
  assumes "unmixed p r"
  shows "\<not> sublist p (py_replace p r t)"
  using assms
proof (induction p r t rule: py_replace.induct)
  case (1 p r)
  then show ?case using unmixedD(1) by auto
next
  case (2 p r c cs)
  show ?case
  proof (cases "p \<noteq> [] \<and> starts_with (c # cs) p")
    case True
    then show ?thesis using 2(1)[OF True 2(3)] unmixed_append[OF 2(3)] by auto
  next
    case False
    then have eq: "py_replace p r (c # cs) = c # py_replace p r cs" by (simp only: py_replace.simps if_False)
    have "\<not> prefix p (c # cs)" using False unmixedD(1)[OF 2(3)] by (simp add: starts_with_prefix)
    then have "\<not> prefix p (c # py_replace p r cs)"
      using rewritten_prefix[OF rewritten.keep[OF py_replace_rewritten] 2(3) suffix_order.refl] by blast
    then show ?thesis using 2(2)[OF False 2(3)] eq by (simp add: sublist_Cons_right)
  qed
qed

text \<open>The matchers keep a part of what they match, if anything, and agree on the replacement.\<close>

definition replaces_with :: "matcher \<Rightarrow> string \<Rightarrow> bool" where
  "replaces_with m r \<longleftrightarrow>
     (\<forall>prev s n stay r'. m prev s = Some (n, stay, r') \<longrightarrow> r' = r \<and> stay \<le> n \<and> 0 < n)"

lemma re_sub_rewritten:
  assumes "replaces_with m r"
  shows "rewritten r s (re_sub m prev s)"
  using assms
proof (induction m prev s rule: re_sub.induct)
  case (2 m prev c cs)
  show ?case
  proof (cases "m prev (c # cs)")
    case None
    then show ?thesis using rewritten.keep[OF 2(1)[OF None 2(3)]] by simp
  next
    case (Some p)
    obtain n stay r' where p: "p = (n, stay, r')" by (cases p)
    have "r' = r \<and> stay \<le> n \<and> 0 < n"
      using 2(3) Some unfolding replaces_with_def p by metis
    then have shape: "r' = r" "stay \<le> n" "0 < n" by simp_all
    let ?rest = "drop (n - 1) cs"
    have rest: "?rest = drop n (c # cs)" using shape(3) by (cases n) simp_all
    have split: "c # cs = take stay (c # cs) @ drop stay (take n (c # cs)) @ ?rest"
    proof -
      have "take stay (c # cs) = take stay (take n (c # cs))" using shape(2) by simp
      then show ?thesis unfolding rest by (metis append_assoc append_take_drop_id)
    qed
    have "rewritten r ?rest (re_sub m (Some ((c # cs) ! (n - 1))) ?rest)"
      using 2(2)[OF Some[unfolded p] refl refl 2(3)] .
    from rewritten_keep_append[OF rewritten.replaced[OF this, of "drop stay (take n (c # cs))"], of "take stay (c # cs)"]
    show ?thesis using Some p shape(1) split by simp
  qed
qed (simp add: rewritten.empty)

lemma re_sub_sublist: "replaces_with m r \<Longrightarrow> unmixed s r \<Longrightarrow> sublist s (re_sub m None t) \<Longrightarrow> sublist s t"
  using rewritten_sublist[OF re_sub_rewritten] .

lemma matchers_replace:
  "replaces_with match_url ''[REDACTED_URL]''" "replaces_with match_bearer ''Bearer [REDACTED]''"
  "replaces_with match_jwt REDACTED"
  unfolding replaces_with_def
  by (auto simp: match_url_def match_bearer_def match_jwt_def Let_def split: if_splits)

subsection \<open>Replacements behind a name\<close>

text \<open>
  An assignment keeps the credential's name before the replacement. A secret that ends with the first
  character of the replacement, as a padded base64 text ends with \<open>=\<close>, can then come about only where the
  name ends as the rest of the secret does.
\<close>

inductive renamed :: "string set \<Rightarrow> string \<Rightarrow> string \<Rightarrow> string \<Rightarrow> bool" for N r where
  empty: "renamed N r [] []"
| keep: "renamed N r t u \<Longrightarrow> renamed N r (c # t) (c # u)"
| replaced: "renamed N r t u \<Longrightarrow> name \<in> N \<Longrightarrow> renamed N r (name @ x @ t) (name @ r @ u)"

definition unmixed_behind :: "string set \<Rightarrow> string \<Rightarrow> string \<Rightarrow> bool" where
  "unmixed_behind N s r \<longleftrightarrow> (\<exists>k e. s = k @ [e] \<and>
     (\<forall>q. suffix q s \<and> q \<noteq> [] \<and> q \<noteq> [e] \<longrightarrow> \<not> comparable q r) \<and>
     (\<forall>q. suffix q r \<and> q \<noteq> [] \<longrightarrow> \<not> comparable s q) \<and>
     (\<forall>name \<in> N. \<not> suffix name k \<and> \<not> suffix k name))"

lemma renamed_prefix:
  assumes "renamed N r t u" and s: "s = k @ [e]" "\<forall>q. suffix q s \<and> q \<noteq> [] \<and> q \<noteq> [e] \<longrightarrow> \<not> comparable q r"
    "\<forall>name \<in> N. \<not> suffix name k" and "suffix p s" and "prefix p u"
  shows "prefix p t"
  using assms(1,5,6)
proof (induction arbitrary: p)
  case (keep t u c)
  show ?case
  proof (cases p)
    case (Cons a p')
    then have "a = c" "prefix p' u" "suffix p' s" using keep.prems by (auto dest: suffix_ConsD)
    then show ?thesis using keep.IH Cons by simp
  qed simp
next
  case (replaced t u name x)
  from replaced.prems(2) consider "prefix p name" | p' where "p = name @ p'" "prefix p' (r @ u)" "p' \<noteq> []"
    unfolding prefix_append[of p name] by (metis append_Nil2 prefix_order.refl)
  then show ?case
  proof cases
    case 1
    then show ?thesis by (rule prefix_prefix)
  next
    case 2
    have p': "suffix p' s" using replaced.prems(1) 2(1) by (auto dest: suffix_appendD)
    have "comparable p' r"
      unfolding comparable_def using 2(2) by (rule prefix_same_cases) simp
    then have "p' = [e]" using s(2) p' 2(3) by blast
    then have "suffix name k" using replaced.prems(1) s(1) 2(1) by simp
    then show ?thesis using s(3) replaced.hyps(2) by blast
  qed
qed simp

lemma renamed_sublist:
  assumes "renamed N r t u" and u: "unmixed_behind N s r" and "sublist s u"
  shows "sublist s t"
proof -
  obtain k e where s: "s = k @ [e]" "\<forall>q. suffix q s \<and> q \<noteq> [] \<and> q \<noteq> [e] \<longrightarrow> \<not> comparable q r"
      "\<forall>q. suffix q r \<and> q \<noteq> [] \<longrightarrow> \<not> comparable s q" "\<forall>name \<in> N. \<not> suffix name k \<and> \<not> suffix k name"
    using u unfolding unmixed_behind_def by blast
  have names: "\<forall>name \<in> N. \<not> suffix name k" using s(4) by blast
  from assms(1,3) show ?thesis
  proof (induction)
    case (keep t u c)
    from keep.prems consider "prefix s (c # u)" | "sublist s u" unfolding sublist_Cons_right by blast
    then show ?case
    proof cases
      case 1
      have "prefix s (c # t)"
        using renamed_prefix[OF renamed.keep[OF keep.hyps(1)] s(1,2) names suffix_order.refl 1] .
      then show ?thesis by simp
    next
      case 2
      then show ?thesis using keep.IH by (auto simp: sublist_Cons_right)
    qed
  next
    case (replaced t u name x)
    from replaced.prems consider "sublist s name" | "sublist s (r @ u)"
      | s1 s2 where "s = s1 @ s2" "suffix s1 name" "prefix s2 (r @ u)" "s2 \<noteq> []"
      unfolding sublist_append[of s name] by (metis append_Nil2 suffix_imp_sublist)
    then show ?case
    proof cases
      case 1
      then show ?thesis by (simp add: sublist_append)
    next
      case 2
      from 2 consider "sublist s r" | "sublist s u" | s1 s2 where "s = s1 @ s2" "suffix s1 r" "prefix s2 u"
        unfolding sublist_append by blast
      then have "sublist s u"
      proof cases
        case 1
        then obtain q where "suffix q r" "prefix s q" unfolding sublist_altdef' by blast
        then show ?thesis using s(1,3) by (cases q) (auto simp: comparable_def)
      next
        case 3
        then have "comparable s s1" by (simp add: comparable_def)
        then have "s1 = []" using s(3) 3(2) by blast
        then show ?thesis using 3 by simp
      qed
      then show ?thesis using replaced.IH by (simp add: sublist_append)
    next
      case 3
      have "comparable s2 r"
        unfolding comparable_def using 3(3) by (rule prefix_same_cases) simp
      moreover have "suffix s2 s" using 3(1) by (auto simp: suffix_def)
      ultimately have "s2 = [e]" using s(2) 3(4) by blast
      then have "s1 = k" using 3(1) s(1) by simp
      then show ?thesis using s(4) 3(2) replaced.hyps(2) by blast
    qed
  qed simp
qed

definition credential_texts :: "string set" where
  "credential_texts = {name. lower name \<in> set credential_names}"

lemma match_assignment_shape:
  assumes "match_assignment prev s = Some (n, stay, r)"
  shows "r = ''='' @ REDACTED \<and> stay \<le> n \<and> 0 < n \<and> take stay s \<in> credential_texts"
proof -
  obtain name where name: "List.find (starts_ignoring_case s) credential_names = Some name"
    using assms by (cases "List.find (starts_ignoring_case s) credential_names") (simp_all add: match_assignment_def)
  then have n: "name \<in> set credential_names" "starts_ignoring_case s name" by (auto simp: find_Some_iff)
  have m: "r = ''='' @ REDACTED \<and> stay = length name \<and> stay \<le> n \<and> 0 < n"
    using assms name by (auto simp: match_assignment_def Let_def split: if_splits)
  have "lower (take (length name) s) = take (length name) (lower s)" by (simp add: lower_def take_map)
  then show ?thesis using n m by (simp add: credential_texts_def starts_ignoring_case_def starts_with_def)
qed

lemma assignments_renamed: "renamed credential_texts (''='' @ REDACTED) s (re_sub match_assignment prev s)"
proof (induction "match_assignment" prev s rule: re_sub.induct)
  case (2 prev c cs)
  show ?case
  proof (cases "match_assignment prev (c # cs)")
    case None
    then show ?thesis using renamed.keep[OF 2(1)[OF None]] by simp
  next
    case (Some p)
    obtain n stay r' where p: "p = (n, stay, r')" by (cases p)
    note shape = match_assignment_shape[OF Some[unfolded p]]
    let ?rest = "drop (n - 1) cs"
    have rest: "?rest = drop n (c # cs)" using shape by (cases n) simp_all
    have split: "c # cs = take stay (c # cs) @ drop stay (take n (c # cs)) @ ?rest"
    proof -
      have "take stay (c # cs) = take stay (take n (c # cs))" using shape by simp
      then show ?thesis unfolding rest by (metis append_assoc append_take_drop_id)
    qed
    have "renamed credential_texts (''='' @ REDACTED) ?rest (re_sub match_assignment (Some ((c # cs) ! (n - 1))) ?rest)"
      using 2(2)[OF Some[unfolded p] refl refl] .
    from renamed.replaced[OF this, of "take stay (c # cs)" "drop stay (take n (c # cs))"]
    show ?thesis using Some p shape split by simp
  qed
qed (simp add: renamed.empty)

lemma renamed_rewritten: "renamed N r t u \<Longrightarrow> rewritten r t u"
  by (induction rule: renamed.induct) (auto intro: rewritten.intros rewritten_keep_append)

subsection \<open>Secrets stay hidden\<close>

text \<open>
  The secrets the replacements can not recreate: no end of the secret begins one of the replacement
  texts, no end of a replacement begins the secret, none contains the other, and the secret is no part
  of one of the fixed texts that stand for what is left out. The replacement of an assignment begins with
  \<open>=\<close>; a secret may end with it unless what comes before could be the end of a credential's name.
\<close>

definition placeholders :: "string list" where
  "placeholders = [''[TRUNCATED]'', ''[OMITTED]'']"

definition replacement_texts :: "string list" where
  "replacement_texts = [REDACTED, ''[REDACTED_URL]'', ''Bearer [REDACTED]'']"

definition padded_unmixed :: "string \<Rightarrow> bool" where
  "padded_unmixed s \<longleftrightarrow> s \<noteq> [] \<and> last s = CHR ''='' \<and>
     list_all (\<lambda>q. q = [] \<or> q = ''='' \<or> \<not> comparable q (''='' @ REDACTED)) (suffixes s) \<and>
     list_all (\<lambda>q. q = [] \<or> \<not> comparable s q) (suffixes (''='' @ REDACTED)) \<and>
     list_all (\<lambda>name. \<not> suffix name (lower (butlast s)) \<and> \<not> suffix (lower (butlast s)) name) credential_names"

definition scrubbable :: "string \<Rightarrow> bool" where
  "scrubbable s \<longleftrightarrow> list_all (unmixed s) replacement_texts \<and> (unmixed s (''='' @ REDACTED) \<or> padded_unmixed s) \<and>
     list_all (\<lambda>p. \<not> sublist s p) placeholders"

lemma scrubbableD:
  assumes "scrubbable s"
  shows "unmixed s REDACTED" "unmixed s ''[REDACTED_URL]''" "unmixed s ''Bearer [REDACTED]''"
    "unmixed s (''='' @ REDACTED) \<or> padded_unmixed s"
    and "s \<noteq> []" and "\<not> sublist s ''[TRUNCATED]''" and "\<not> sublist s ''[OMITTED]''"
  using assms unmixedD(1) by (auto simp: scrubbable_def replacement_texts_def placeholders_def)

lemma suffix_lower: "suffix a b \<Longrightarrow> suffix (lower a) (lower b)"
  by (auto simp: suffix_def lower_def)

lemma padded_unmixed_behind:
  assumes "padded_unmixed s"
  shows "unmixed_behind credential_texts s (''='' @ REDACTED)"
proof -
  have s: "s = butlast s @ [CHR ''='']" using assms by (metis append_butlast_last_id padded_unmixed_def)
  have names: "\<forall>n \<in> set credential_names. \<not> suffix n (lower (butlast s)) \<and> \<not> suffix (lower (butlast s)) n"
    using assms unfolding padded_unmixed_def list_all_iff by (elim conjE)
  have "\<not> suffix (lower name) (lower (butlast s)) \<and> \<not> suffix (lower (butlast s)) (lower name)"
    if "name \<in> credential_texts" for name
    by (rule bspec[OF names]) (use that in \<open>simp add: credential_texts_def\<close>)
  then have "\<not> suffix name (butlast s) \<and> \<not> suffix (butlast s) name" if "name \<in> credential_texts" for name
    using that suffix_lower by metis
  moreover have "\<forall>q \<in> set (suffixes s). q = [] \<or> q = ''='' \<or> \<not> comparable q (''='' @ REDACTED)"
    using assms unfolding padded_unmixed_def list_all_iff by (elim conjE)
  then have "\<not> comparable q (''='' @ REDACTED)" if "suffix q s" "q \<noteq> []" "q \<noteq> ''=''" for q
    using that unfolding in_set_suffixes[symmetric] by blast
  moreover have "\<forall>q \<in> set (suffixes (''='' @ REDACTED)). q = [] \<or> \<not> comparable s q"
    using assms unfolding padded_unmixed_def list_all_iff by (elim conjE)
  then have "\<not> comparable s q" if "suffix q (''='' @ REDACTED)" "q \<noteq> []" for q
    using that unfolding in_set_suffixes[symmetric] by blast
  ultimately show ?thesis
    unfolding unmixed_behind_def by (intro exI[of _ "butlast s"] exI[of _ "CHR ''=''"] conjI s) blast+
qed

lemma assignments_hide:
  assumes "unmixed s (''='' @ REDACTED) \<or> padded_unmixed s" and "sublist s (re_sub match_assignment None t)"
  shows "sublist s t"
  using assms(1)
proof
  assume "unmixed s (''='' @ REDACTED)"
  then show ?thesis using rewritten_sublist[OF renamed_rewritten[OF assignments_renamed]] assms(2) by blast
next
  assume "padded_unmixed s"
  then show ?thesis using renamed_sublist[OF assignments_renamed padded_unmixed_behind] assms(2) by blast
qed

lemma unmixed_not_inside: "unmixed s r \<Longrightarrow> \<not> sublist s r"
  using unmixed_append[of s r "[]"] unmixedD(1) by fastforce

lemma fold_replace_removes:
  assumes "unmixed s REDACTED" and "s \<in> set known \<or> \<not> sublist s v"
  shows "\<not> sublist s (fold (\<lambda>s v. py_replace s REDACTED v) known v)"
  using assms(2)
proof (induction known arbitrary: v)
  case (Cons x xs)
  have "x = s \<Longrightarrow> \<not> sublist s (py_replace x REDACTED v)" using py_replace_removes assms(1) by blast
  moreover have "\<not> sublist s v \<Longrightarrow> \<not> sublist s (py_replace x REDACTED v)"
    using rewritten_sublist[OF py_replace_rewritten assms(1)] by blast
  ultimately show ?case using Cons by auto
qed simp

lemma sanitize_text_hides:
  assumes "scrubbable s" and "s \<in> set secrets \<or> \<not> sublist s v"
  shows "\<not> sublist s (sanitize_text v secrets)"
proof
  note u = scrubbableD[OF assms(1)]
  let ?known = "sort_key (\<lambda>s. - int (length s)) (remdups (filter (\<lambda>s. s \<noteq> []) secrets))"
  assume "sublist s (sanitize_text v secrets)"
  then have "sublist s (re_sub match_assignment None (re_sub match_jwt None (re_sub match_bearer None
      (re_sub match_url None (fold (\<lambda>s v. py_replace s REDACTED v) ?known v)))))"
    unfolding sanitize_text_def Let_def using sublist_take sublist_order.order_trans by blast
  then have "sublist s (fold (\<lambda>s v. py_replace s REDACTED v) ?known v)"
    using re_sub_sublist[OF matchers_replace(1) u(2)] re_sub_sublist[OF matchers_replace(2) u(3)]
      re_sub_sublist[OF matchers_replace(3) u(1)] assignments_hide[OF u(4)] by blast
  moreover have "s \<in> set ?known \<or> \<not> sublist s v" using assms(2) u(5) by auto
  ultimately show False using fold_replace_removes[OF u(1)] by blast
qed

lemma sanitize_text_length: "length (sanitize_text v secrets) \<le> 512"
  by (simp add: sanitize_text_def Let_def)

subsection \<open>Fernet keys\<close>

text \<open>A Fernet key is 43 characters of URL-safe base64 and a padding character.\<close>

lemma unmixed_by_chars:
  assumes s: "s \<noteq> []" "last s \<notin> set r" "b \<notin> set s" and r: "b \<in> set r" "last r \<notin> set s"
  shows "unmixed s r"
proof -
  have "\<not> comparable q r" if "suffix q s" "q \<noteq> []" for q
  proof
    assume "comparable q r"
    then consider "prefix q r" | "prefix r q" by (auto simp: comparable_def)
    then show False
    proof cases
      case 1
      then have "last q \<in> set r" using that(2) set_mono_prefix by fastforce
      moreover have "last q = last s" using that by (auto simp: suffix_def)
      ultimately show False using s(2) by simp
    next
      case 2
      then have "set r \<subseteq> set s" using set_mono_prefix[OF 2] set_mono_suffix[OF that(1)] by blast
      then show False using r(1) s(3) by blast
    qed
  qed
  note ends = this
  have "\<not> comparable s q" if "suffix q r" "q \<noteq> []" for q
  proof
    assume "comparable s q"
    then consider "prefix s q" | "prefix q s" by (auto simp: comparable_def)
    then show False
    proof cases
      case 1
      then have "last s \<in> set r"
        using s(1) set_mono_prefix[OF 1] set_mono_suffix[OF that(1)] last_in_set by blast
      then show False using s(2) by blast
    next
      case 2
      then have "last q \<in> set s" using that(2) set_mono_prefix by fastforce
      moreover have "last q = last r" using that by (auto simp: suffix_def)
      ultimately show False using r(2) by simp
    qed
  qed
  then show ?thesis
    unfolding unmixed_def list_all_iff by (intro conjI ballI) (use s(1) ends in \<open>auto simp: in_set_suffixes\<close>)
qed

lemma credential_names_short: "list_all (\<lambda>n. length n \<le> 20) credential_names"
  by code_simp

theorem fernet_key_scrubbable:
  assumes len: "length k = 43" and chars: "list_all token_char k"
    and names: "\<forall>name \<in> set credential_names. \<not> suffix name (lower k)"
  shows "scrubbable (k @ ''='')"
proof -
  let ?s = "k @ ''=''"
  have c: "\<not> token_char (CHR ''['')" "\<not> token_char (CHR '']'')" by code_simp+
  then have b: "CHR ''['' \<notin> set ?s" "CHR '']'' \<notin> set ?s" using chars by (auto simp: list_all_iff)
  have texts: "unmixed ?s REDACTED" "unmixed ?s ''[REDACTED_URL]''" "unmixed ?s ''Bearer [REDACTED]''"
    by (rule unmixed_by_chars[where b = "CHR ''[''"]; use b in \<open>simp add: REDACTED_def\<close>)+
  have "\<not> comparable q (''='' @ REDACTED)" if q: "suffix q ?s" "q \<noteq> []" "q \<noteq> ''=''" for q
  proof
    assume "comparable q (''='' @ REDACTED)"
    then consider "prefix q (''='' @ REDACTED)" | "prefix (''='' @ REDACTED) q" by (auto simp: comparable_def)
    then show False
    proof cases
      case 1
      then obtain q' where q': "q = CHR ''='' # q'" "prefix q' REDACTED" using q(2) by (cases q) auto
      then have "q' \<noteq> []" using q(3) by simp
      then have "last q' \<in> set REDACTED" using q'(2) set_mono_prefix by fastforce
      moreover have "last q = last ?s" using q(1,2) by (elim suffixE) (metis last_appendR)
      then have "last q' = CHR ''=''" using q'(1) \<open>q' \<noteq> []\<close> by simp
      ultimately show False by (simp add: REDACTED_def)
    next
      case 2
      then have "CHR ''['' \<in> set ?s"
        using set_mono_prefix[OF 2] set_mono_suffix[OF q(1)] by (auto simp: REDACTED_def)
      then show False using b(1) by blast
    qed
  qed
  note inner = this
  have "\<not> comparable ?s q" if q: "suffix q (''='' @ REDACTED)" "q \<noteq> []" for q
  proof
    assume "comparable ?s q"
    then consider "prefix ?s q" | "prefix q ?s" by (auto simp: comparable_def)
    then show False
    proof cases
      case 1
      then have "length ?s \<le> length (''='' @ REDACTED)" using prefix_length_le[OF 1] suffix_length_le[OF q(1)] by linarith
      then show False by (simp add: len REDACTED_def)
    next
      case 2
      have "last q \<in> set ?s" using last_in_set[OF q(2)] set_mono_prefix[OF 2] by blast
      moreover have "last q = last (''='' @ REDACTED)" using q by (elim suffixE) (metis last_appendR)
      ultimately show False using b(2) by (simp add: REDACTED_def)
    qed
  qed
  note middle = this
  have "\<not> suffix (lower k) name" if "name \<in> set credential_names" for name
  proof
    assume "suffix (lower k) name"
    then have "length k \<le> length name" using suffix_length_le by (fastforce simp: lower_def)
    then show False using credential_names_short that by (auto simp: len list_all_iff)
  qed
  note long = this
  have "?s \<noteq> []" "last ?s = CHR ''=''" "butlast ?s = k" by simp_all
  note outer = this
  have "padded_unmixed ?s"
    unfolding padded_unmixed_def list_all_iff in_set_suffixes
  proof (intro conjI ballI)
  qed (use names inner middle long outer in \<open>auto simp: in_set_suffixes simp del: append.simps\<close>)
  moreover have "\<not> sublist ?s ''[TRUNCATED]''" "\<not> sublist ?s ''[OMITTED]''"
    using len by (auto dest!: sublist_length_le)
  ultimately show ?thesis
    using texts by (simp add: scrubbable_def replacement_texts_def placeholders_def)
qed

end
