(* ===== verification/Diagnostics.thy ===== *)
theory Diagnostics
  imports Scrubbing
begin

text \<open>
  \<open>apps/convay/diagnostics.py\<close> and \<open>common/logging.py\<close>: what of a provider's response, of an outgoing
  payload and of an exception may be logged. The lemmas show which secrets can not occur in any
  text of it and that it is bounded. A Python value that is no dictionary, list or text is a \<open>JNull\<close>
  where only those three matter.
\<close>

subsection \<open>Sensitive keys and values\<close>

definition SENSITIVE :: "string list" where
  "SENSITIVE = [''password'', ''secret'', ''token'', ''authorization'', ''startmeetingurl'', ''credential'']"

definition key_char :: "char \<Rightarrow> bool" where
  "key_char c = (let n = (of_char c :: nat) in 48 \<le> n \<and> n \<le> 57 \<or> 97 \<le> n \<and> n \<le> 122)"

definition normalized :: "string \<Rightarrow> string" where
  "normalized key = filter key_char (lower key)"

definition sensitive_key :: "string \<Rightarrow> bool" where
  "sensitive_key key \<longleftrightarrow>
     list_ex (\<lambda>word. sublist word (normalized key)) SENSITIVE \<or>
     normalized key \<in> {''username'', ''email'', ''encryptionkey'', ''apikey''}"

text \<open>\<open>value.lstrip().startswith(("{", "["))\<close>\<close>

definition structured_text :: "string \<Rightarrow> bool" where
  "structured_text s \<longleftrightarrow> starts_with (lstrip s) ''{'' \<or> starts_with (lstrip s) ''[''"

function sensitive_values :: "json \<Rightarrow> nat \<Rightarrow> string list" where
  "sensitive_values v depth =
     (if depth > 8 then []
      else case v of
        JObj kvs \<Rightarrow> concat (map (\<lambda>(k, item).
            (case item of JStr s \<Rightarrow> if sensitive_key k \<and> s \<noteq> [] then [s] else [] | _ \<Rightarrow> []) @
            sensitive_values item (depth + 1)) kvs)
      | JArr vs \<Rightarrow> concat (map (\<lambda>item. sensitive_values item (depth + 1)) vs)
      | JStr s \<Rightarrow>
          if structured_text s then (case loads s of None \<Rightarrow> [] | Some nested \<Rightarrow> sensitive_values nested (depth + 1)) else []
      | _ \<Rightarrow> [])"
  by pat_completeness auto
termination by (relation "measure (\<lambda>(v, depth). 9 - depth)") auto

declare sensitive_values.simps [simp del]

subsection \<open>Outgoing payloads\<close>

function sanitize_payload :: "json \<Rightarrow> string list \<Rightarrow> nat \<Rightarrow> json" where
  "sanitize_payload v secrets depth =
     (if depth > 8 then JStr ''[TRUNCATED]''
      else case v of
        JObj kvs \<Rightarrow> JObj (dict_update [] (map (\<lambda>(k, item).
            (k, if sensitive_key k \<and> \<not> (normalized k = ''password'' \<and> (case item of JBool _ \<Rightarrow> True | _ \<Rightarrow> False))
                then JStr REDACTED else sanitize_payload item secrets (depth + 1))) (take 100 kvs)))
      | JArr vs \<Rightarrow> JArr (map (\<lambda>item. sanitize_payload item secrets (depth + 1)) (take 100 vs))
      | JStr s \<Rightarrow> JStr (sanitize_text s secrets)
      | _ \<Rightarrow> v)"
  by pat_completeness auto
termination by (relation "measure (\<lambda>(v, secrets, depth). 9 - depth)") auto

declare sanitize_payload.simps [simp del]

subsection \<open>Responses\<close>

definition DIAGNOSTIC_FIELDS :: "string set" where
  "DIAGNOSTIC_FIELDS = {''message'', ''error'', ''errors'', ''detail'', ''details'', ''code'', ''status'', ''statuscode'',
     ''success'', ''title'', ''type'', ''validationerrors'', ''fielderrors''}"

definition OMITTED_DIAGNOSTIC_FIELDS :: "string set" where
  "OMITTED_DIAGNOSTIC_FIELDS = {''stacktrace'', ''trace'', ''exceptiontrace''}"

definition nested_json :: "string \<Rightarrow> json option" where
  "nested_json s = (case loads s of Some (JObj kvs) \<Rightarrow> Some (JObj kvs) | Some (JArr vs) \<Rightarrow> Some (JArr vs) | _ \<Rightarrow> None)"

definition structured :: "json \<Rightarrow> bool" where
  "structured v = (case v of JObj _ \<Rightarrow> True | JArr _ \<Rightarrow> True | JStr s \<Rightarrow> structured_text s | _ \<Rightarrow> False)"

text \<open>\<open>walk\<close> inside \<open>sanitize_response\<close>: the diagnostic fields are kept, everything else is omitted.\<close>

function walk :: "string list \<Rightarrow> json \<Rightarrow> nat \<Rightarrow> bool \<Rightarrow> json" where
  "walk secrets v depth diagnostic =
     (if depth > 6 then JStr ''[TRUNCATED]''
      else case v of
        JObj kvs \<Rightarrow> JObj (dict_update [] (concat (map (\<lambda>(k, item).
            if normalized k \<in> OMITTED_DIAGNOSTIC_FIELDS then []
            else [(sanitize_text k secrets,
              if sensitive_key k then JStr REDACTED
              else if diagnostic \<or> normalized k \<in> DIAGNOSTIC_FIELDS then walk secrets item (depth + 1) True
              else if structured item then walk secrets item (depth + 1) False
              else JStr ''[OMITTED]'')]) (take 40 kvs))))
      | JArr vs \<Rightarrow> JArr (map (\<lambda>item. walk secrets item (depth + 1) diagnostic) (take 20 vs))
      | JStr s \<Rightarrow>
          (case nested_json s of
             Some nested \<Rightarrow> walk secrets nested (depth + 1) diagnostic
           | None \<Rightarrow> JStr (if diagnostic then sanitize_text s secrets else ''[OMITTED]''))
      | _ \<Rightarrow> if diagnostic then v else JStr ''[OMITTED]'')"
  by pat_completeness auto
termination by (relation "measure (\<lambda>(secrets, v, depth, diagnostic). 7 - depth)") auto

declare walk.simps [simp del]

text \<open>
  What the HTTP client gives of a response: the size of its content, its JSON if it has any, its text
  and its content type.
\<close>

record upstream_response =
  ur_content_length :: nat
  ur_json :: "json option"
  ur_text :: string
  ur_content_type :: "string option"

definition omitted_summary :: json where
  "omitted_summary = JObj [(''summary'', JStr ''Upstream body omitted: exceeds diagnostic size limit.'')]"

definition sanitize_response :: "upstream_response option \<Rightarrow> string list \<Rightarrow> bool \<Rightarrow> json" where
  "sanitize_response response secrets preserve_safe_fields =
     (case response of
        None \<Rightarrow> JNull
      | Some r \<Rightarrow>
          if ur_content_length r > 1048576 then omitted_summary
          else (case ur_json r of
              None \<Rightarrow>
                if ur_content_length r > 65536 then omitted_summary
                else JObj [(''text'', JStr (sanitize_text (ur_text r) secrets)),
                  (''content_type'', JStr (takeWhile (\<lambda>c. c \<noteq> CHR '';'')
                     (case ur_content_type r of None \<Rightarrow> [] | Some t \<Rightarrow> t)))]
            | Some body \<Rightarrow>
                (let secrets = secrets @ sensitive_values body 0;
                     result = walk secrets body 0 preserve_safe_fields;
                     encoded = dumps result
                 in if length encoded \<le> 8192 then result
                    else JObj [(''summary'', JStr ''Truncated sanitized diagnostics''),
                      (''preview'', JStr (take 8192 encoded))])))"

subsection \<open>Texts of a value\<close>

fun json_texts :: "bool \<Rightarrow> json \<Rightarrow> string list" where
  "json_texts with_keys (JStr s) = [s]"
| "json_texts with_keys (JArr vs) = concat (map (json_texts with_keys) vs)"
| "json_texts with_keys (JObj kvs) =
     concat (map (\<lambda>(k, v). (if with_keys then [k] else []) @ json_texts with_keys v) kvs)"
| "json_texts with_keys v = []"

lemma set_dict_update: "set (dict_update d kvs) \<subseteq> set d \<union> set kvs"
proof (induction kvs arbitrary: d)
  case (Cons p kvs)
  obtain k v where "p = (k, v)" by (cases p)
  then show ?case using Cons[of "dict_set k v d"] set_dict_set_subset[of k v d] by auto
qed simp

lemma length_dict_set: "length (dict_set k v d) \<le> Suc (length d)"
  by (induction k v d rule: dict_set.induct) auto

lemma length_dict_update: "length (dict_update d kvs) \<le> length d + length kvs"
proof (induction kvs arbitrary: d)
  case (Cons p kvs)
  obtain k v where "p = (k, v)" by (cases p)
  then show ?case using Cons[of "dict_set k v d"] length_dict_set[of k v d] by simp
qed simp

text \<open>A text of a dictionary built from members is a key or a text of a value of one of them.\<close>

lemma texts_dict_update:
  assumes "\<And>k v. (k, v) \<in> set kvs \<Longrightarrow> (wk \<longrightarrow> P k) \<and> list_all P (json_texts wk v)"
  shows "list_all P (json_texts wk (JObj (dict_update [] kvs)))"
  using assms set_dict_update[of "[]" kvs] by (fastforce simp: list_all_iff)

definition hides :: "string \<Rightarrow> bool \<Rightarrow> json \<Rightarrow> bool" where
  "hides s wk v \<longleftrightarrow> list_all (\<lambda>t. \<not> sublist s t) (json_texts wk v)"

lemma hides_simps [simp]:
  "hides s wk (JStr t) \<longleftrightarrow> \<not> sublist s t"
  "hides s wk (JArr vs) \<longleftrightarrow> list_all (hides s wk) vs"
  "hides s wk JNull" "hides s wk (JBool b)" "hides s wk (JInt i)" "hides s wk (JFloat f)"
  by (auto simp: hides_def list_all_iff)

lemma hides_obj:
  assumes "\<And>k v. (k, v) \<in> set kvs \<Longrightarrow> (wk \<longrightarrow> \<not> sublist s k) \<and> hides s wk v"
  shows "hides s wk (JObj (dict_update [] kvs))"
  unfolding hides_def by (rule texts_dict_update) (use assms in \<open>simp add: hides_def\<close>)

lemma hides_entries:
  assumes "\<And>k v. (wk \<longrightarrow> \<not> sublist s (f k)) \<and> hides s wk (g k v)"
  shows "hides s wk (JObj (dict_update [] (concat (map (\<lambda>(k, v). if omit k then [] else [(f k, g k v)]) kvs))))"
proof (rule hides_obj)
  fix k v
  assume "(k, v) \<in> set (concat (map (\<lambda>(k, v). if omit k then [] else [(f k, g k v)]) kvs))"
  then obtain k' v' where "k = f k'" "v = g k' v'" by (auto split: if_split_asm)
  then show "(wk \<longrightarrow> \<not> sublist s k) \<and> hides s wk v" using assms by simp
qed

subsection \<open>Secrets that are found\<close>

text \<open>\<open>s\<close> stands under a sensitive key, \<open>n\<close> levels down; a structured text counts as the JSON it holds.\<close>

inductive secret_in :: "nat \<Rightarrow> string \<Rightarrow> json \<Rightarrow> bool" where
  here: "(k, JStr s) \<in> set kvs \<Longrightarrow> sensitive_key k \<Longrightarrow> s \<noteq> [] \<Longrightarrow> secret_in n s (JObj kvs)"
| member: "(k, v) \<in> set kvs \<Longrightarrow> secret_in n s v \<Longrightarrow> secret_in (Suc n) s (JObj kvs)"
| item: "v \<in> set vs \<Longrightarrow> secret_in n s v \<Longrightarrow> secret_in (Suc n) s (JArr vs)"
| nested: "structured_text t \<Longrightarrow> loads t = Some v \<Longrightarrow> secret_in n s v \<Longrightarrow> secret_in (Suc n) s (JStr t)"

lemma sensitive_values_simps:
  assumes "depth \<le> 8"
  shows "sensitive_values (JObj kvs) depth = concat (map (\<lambda>(k, item).
      (case item of JStr s \<Rightarrow> if sensitive_key k \<and> s \<noteq> [] then [s] else [] | _ \<Rightarrow> []) @
      sensitive_values item (depth + 1)) kvs)"
    and "sensitive_values (JArr vs) depth = concat (map (\<lambda>item. sensitive_values item (depth + 1)) vs)"
    and "structured_text t \<Longrightarrow> loads t = Some v \<Longrightarrow> sensitive_values (JStr t) depth = sensitive_values v (depth + 1)"
  using assms by (simp_all add: sensitive_values.simps[of "JObj kvs"] sensitive_values.simps[of "JArr vs"]
      sensitive_values.simps[of "JStr t"])

lemma secret_found:
  assumes "secret_in n s v" and "depth + n \<le> 8"
  shows "s \<in> set (sensitive_values v depth)"
  using assms
proof (induction arbitrary: depth)
  case (here k s kvs n)
  then show ?case by (auto simp: sensitive_values_simps intro!: bexI[of _ "(k, JStr s)"])
next
  case (member k v kvs n s)
  then have "s \<in> set (sensitive_values v (depth + 1))" by simp
  then show ?case using member(1,4) by (auto simp: sensitive_values_simps intro!: bexI[of _ "(k, v)"])
next
  case (item v vs n s)
  then have "s \<in> set (sensitive_values v (depth + 1))" by simp
  then show ?case using item(1,4) by (auto simp: sensitive_values_simps)
next
  case (nested t v n s)
  then show ?case by (simp add: sensitive_values_simps)
qed

subsection \<open>What a walk shows\<close>

lemma walk_simps:
  assumes "depth \<le> 6"
  shows "walk secrets (JObj kvs) depth diagnostic = JObj (dict_update [] (concat (map (\<lambda>(k, item).
            if normalized k \<in> OMITTED_DIAGNOSTIC_FIELDS then []
            else [(sanitize_text k secrets,
              if sensitive_key k then JStr REDACTED
              else if diagnostic \<or> normalized k \<in> DIAGNOSTIC_FIELDS then walk secrets item (depth + 1) True
              else if structured item then walk secrets item (depth + 1) False
              else JStr ''[OMITTED]'')]) (take 40 kvs))))"
    and "walk secrets (JArr vs) depth diagnostic = JArr (map (\<lambda>item. walk secrets item (depth + 1) diagnostic) (take 20 vs))"
    and "walk secrets (JStr t) depth diagnostic = (case nested_json t of
        Some nested \<Rightarrow> walk secrets nested (depth + 1) diagnostic
      | None \<Rightarrow> JStr (if diagnostic then sanitize_text t secrets else ''[OMITTED]''))"
    and "\<forall>t. v \<noteq> JStr t \<Longrightarrow> \<forall>vs. v \<noteq> JArr vs \<Longrightarrow> \<forall>kvs. v \<noteq> JObj kvs \<Longrightarrow>
      walk secrets v depth diagnostic = (if diagnostic then v else JStr ''[OMITTED]'')"
  using assms by (simp_all add: walk.simps[of secrets "JObj kvs"] walk.simps[of secrets "JArr vs"]
      walk.simps[of secrets "JStr t"] walk.simps[of secrets v] split: json.split)

lemma walk_cut: "6 < depth \<Longrightarrow> walk secrets v depth diagnostic = JStr ''[TRUNCATED]''"
  by (simp add: walk.simps)

lemma walk_hides:
  assumes "scrubbable s" and "s \<in> set secrets"
  shows "hides s True (walk secrets v depth diagnostic)"
proof (induction "7 - depth" arbitrary: v depth diagnostic)
  case 0
  then show ?case using scrubbableD[OF assms(1)] by (simp add: walk_cut)
next
  case (Suc n)
  then have d: "depth \<le> 6" and IH: "hides s True (walk secrets v (depth + 1) diagnostic)" for v diagnostic
    by simp_all
  note p = scrubbableD[OF assms(1)] unmixed_not_inside[OF scrubbableD(1)[OF assms(1)]]
  have clean: "\<not> sublist s (sanitize_text t secrets)" for t using sanitize_text_hides[OF assms(1)] assms(2) by blast
  show ?case
  proof (cases v)
    case (JObj kvs)
    have "hides s True (walk secrets (JObj kvs) depth diagnostic)"
      unfolding walk_simps(1)[OF d] by (rule hides_entries) (simp add: IH[unfolded Suc_eq_plus1[symmetric]] clean p)
    then show ?thesis using JObj by simp
  next
    case (JArr vs)
    then show ?thesis using IH by (simp add: walk_simps(2)[OF d] list_all_iff)
  next
    case (JStr t)
    then show ?thesis using IH clean p by (simp add: walk_simps(3)[OF d] split: option.split)
  qed (use p in \<open>simp_all add: walk_simps(4)[OF d]\<close>)
qed

text \<open>
  What may be logged of a response when \<open>s\<close> is hidden: nothing of a response that never came; of an answer
  that is no JSON a text without \<open>s\<close> of at most 512 characters, beside its content type; of a JSON answer a
  value with \<open>s\<close> in none of its keys and texts, or the beginning of that value's own encoding, when this
  has more than 8192 characters; the note that it was omitted, when the body was too large.
\<close>

definition answer_hides :: "string \<Rightarrow> upstream_response option \<Rightarrow> json \<Rightarrow> bool" where
  "answer_hides s response v \<longleftrightarrow> (case response of
     None \<Rightarrow> v = JNull
   | Some r \<Rightarrow> v = omitted_summary \<and> 65536 < ur_content_length r \<or> (case ur_json r of
         None \<Rightarrow> (\<exists>t. \<not> sublist s t \<and> length t \<le> 512 \<and> v = JObj [(''text'', JStr t), (''content_type'', JStr (takeWhile
           (\<lambda>c. c \<noteq> CHR '';'') (case ur_content_type r of None \<Rightarrow> [] | Some content_type \<Rightarrow> content_type)))])
       | Some body \<Rightarrow> (\<exists>w. hides s True w \<and> v = (if length (dumps w) \<le> 8192 then w else
           JObj [(''summary'', JStr ''Truncated sanitized diagnostics''), (''preview'', JStr (take 8192 (dumps w)))]))))"

lemma logged_answer_hides:
  assumes "scrubbable s"
    and "s \<in> set (secrets @ (case response of Some r \<Rightarrow>
      (case ur_json r of None \<Rightarrow> [] | Some body \<Rightarrow> sensitive_values body 0) | None \<Rightarrow> []))"
  shows "answer_hides s response (sanitize_response response secrets keep)"
proof (cases response)
  case (Some r)
  show ?thesis
  proof (cases "ur_json r")
    case None
    have "\<not> sublist s (sanitize_text (ur_text r) secrets)"
      by (rule sanitize_text_hides) (use assms in \<open>simp_all add: Some None\<close>)
    then show ?thesis
      using sanitize_text_length[of "ur_text r" secrets]
      by (auto simp: Some None answer_hides_def sanitize_response_def)
  next
    case body: (Some body)
    have "hides s True (walk (secrets @ sensitive_values body 0) body 0 keep)"
      by (rule walk_hides) (use assms in \<open>simp_all add: Some body\<close>)
    then show ?thesis
      by (auto simp: Some body answer_hides_def sanitize_response_def Let_def)
  qed
qed (simp add: answer_hides_def sanitize_response_def)

text \<open>
  C29, a logged response hides secrets: a scrubbable secret that the caller names, or that stands under a
  sensitive key up to eight levels deep in a JSON answer, also inside JSON held by a text of it, occurs in
  no key and no text of what is logged of the answer, wherever else the answer repeats it. What is logged
  of a JSON answer is bounded to 8192 characters, its preview being the beginning of the redacted value,
  and the text of any other answer to 512. Secrets that are not scrubbable, the content type and numbers
  are not covered.
\<close>

theorem sanitize_response_hides:
  assumes "scrubbable s"
    and "s \<in> set secrets \<or>
      (\<exists>r body n. response = Some r \<and> ur_json r = Some body \<and> n \<le> 8 \<and> secret_in n s body)"
  shows "answer_hides s response (sanitize_response response secrets keep)"
  by (rule logged_answer_hides) (use assms in \<open>auto dest: secret_found[where depth = 0]\<close>)

subsection \<open>What a payload shows\<close>

lemma sanitize_payload_simps:
  assumes "depth \<le> 8"
  shows "sanitize_payload (JObj kvs) secrets depth = JObj (dict_update [] (map (\<lambda>(k, item).
            (k, if sensitive_key k \<and> \<not> (normalized k = ''password'' \<and> (case item of JBool _ \<Rightarrow> True | _ \<Rightarrow> False))
                then JStr REDACTED else sanitize_payload item secrets (depth + 1))) (take 100 kvs)))"
    and "sanitize_payload (JArr vs) secrets depth = JArr (map (\<lambda>item. sanitize_payload item secrets (depth + 1)) (take 100 vs))"
    and "sanitize_payload (JStr t) secrets depth = JStr (sanitize_text t secrets)"
    and "\<forall>t. v \<noteq> JStr t \<Longrightarrow> \<forall>vs. v \<noteq> JArr vs \<Longrightarrow> \<forall>kvs. v \<noteq> JObj kvs \<Longrightarrow> sanitize_payload v secrets depth = v"
  using assms by (simp_all add: sanitize_payload.simps[of "JObj kvs"] sanitize_payload.simps[of "JArr vs"]
      sanitize_payload.simps[of "JStr t"] sanitize_payload.simps[of v] split: json.split)

lemma sanitize_payload_cut: "8 < depth \<Longrightarrow> sanitize_payload v secrets depth = JStr ''[TRUNCATED]''"
  by (simp add: sanitize_payload.simps)

text \<open>At most \<open>n\<close> levels of lists and objects of at most a hundred items, texts of at most 512 characters.\<close>

fun bounded_json :: "nat \<Rightarrow> json \<Rightarrow> bool" where
  "bounded_json n (JStr s) \<longleftrightarrow> length s \<le> 512"
| "bounded_json (Suc n) (JArr vs) \<longleftrightarrow> length vs \<le> 100 \<and> list_all (bounded_json n) vs"
| "bounded_json (Suc n) (JObj kvs) \<longleftrightarrow> length kvs \<le> 100 \<and> list_all (\<lambda>(k, v). bounded_json n v) kvs"
| "bounded_json 0 (JArr vs) \<longleftrightarrow> False"
| "bounded_json 0 (JObj kvs) \<longleftrightarrow> False"
| "bounded_json n v \<longleftrightarrow> True"

text \<open>Every value under a sensitive key, at any depth, is redacted, cut off or the boolean password flag.\<close>

fun keys_redacted :: "nat \<Rightarrow> json \<Rightarrow> bool" where
  "keys_redacted (Suc n) (JObj kvs) \<longleftrightarrow> list_all (\<lambda>(k, v).
     (if sensitive_key k then v \<in> {JStr REDACTED, JStr ''[TRUNCATED]''} \<or> normalized k = ''password'' \<and> v \<in> {JBool True, JBool False} else True) \<and>
     keys_redacted n v) kvs"
| "keys_redacted (Suc n) (JArr vs) \<longleftrightarrow> list_all (keys_redacted n) vs"
| "keys_redacted n v \<longleftrightarrow> True"

lemma members_dict_update:
  assumes "\<And>k v. (k, v) \<in> set kvs \<Longrightarrow> Q k v"
  shows "list_all (\<lambda>(k, v). Q k v) (dict_update [] kvs)"
  using assms set_dict_update[of "[]" kvs] by (auto simp: list_all_iff)

lemma sanitize_payload_shape:
  shows "bounded_json (9 - depth) (sanitize_payload v secrets depth) \<and>
    keys_redacted (9 - depth) (sanitize_payload v secrets depth) \<and>
    (scrubbable s \<longrightarrow> s \<in> set secrets \<longrightarrow> hides s False (sanitize_payload v secrets depth))"
proof (induction "9 - depth" arbitrary: v depth)
  case 0
  then show ?case using scrubbableD by (auto simp: sanitize_payload_cut)
next
  case (Suc n)
  then have d: "depth \<le> 8" and n: "9 - depth = Suc n" "9 - (depth + 1) = n" by simp_all
  let ?sub = "\<lambda>item. sanitize_payload item secrets (depth + 1)"
  have IH: "bounded_json n (?sub item)" "keys_redacted n (?sub item)"
      "scrubbable s \<Longrightarrow> s \<in> set secrets \<Longrightarrow> hides s False (?sub item)" for item
    using Suc(1)[of "depth + 1" item] n by simp_all
  have p: "scrubbable s \<Longrightarrow> \<not> sublist s REDACTED" using unmixed_not_inside scrubbableD(1) by blast
  have red: "bounded_json n (JStr REDACTED)" "keys_redacted n (JStr REDACTED)" "bounded_json n (JBool b)" "keys_redacted n (JBool b)" for b
    by (simp_all add: REDACTED_def)
  show ?case
  proof (cases v)
    case (JObj kvs)
    let ?shown = "\<lambda>k item. if sensitive_key k \<and> \<not> (normalized k = ''password'' \<and> (case item of JBool _ \<Rightarrow> True | _ \<Rightarrow> False))
      then JStr REDACTED else ?sub item"
    let ?kvs = "map (\<lambda>(k, item). (k, ?shown k item)) (take 100 kvs)"
    have flag: "?sub (JBool b) \<in> {JBool b, JStr ''[TRUNCATED]''}" for b
      by (cases "depth + 1 \<le> 8") (simp_all add: sanitize_payload_simps(4) sanitize_payload_cut)
    have eq: "sanitize_payload v secrets depth = JObj (dict_update [] ?kvs)"
      unfolding JObj sanitize_payload_simps(1)[OF d] by (rule refl)
    have "length (dict_update [] ?kvs) \<le> 100" using length_dict_update[of "[]" ?kvs] by simp
    moreover have "list_all (\<lambda>(k, v). bounded_json n v) (dict_update [] ?kvs)"
      by (rule members_dict_update) (use IH red in auto)
    moreover have "list_all (\<lambda>(k, v). (if sensitive_key k then v \<in> {JStr REDACTED, JStr ''[TRUNCATED]''} \<or>
        normalized k = ''password'' \<and> v \<in> {JBool True, JBool False} else True) \<and> keys_redacted n v) (dict_update [] ?kvs)"
    proof (rule members_dict_update)
      fix k v' assume "(k, v') \<in> set ?kvs"
      then obtain item where item: "v' = ?shown k item" by auto
      show "(if sensitive_key k then v' \<in> {JStr REDACTED, JStr ''[TRUNCATED]''} \<or>
          normalized k = ''password'' \<and> v' \<in> {JBool True, JBool False} else True) \<and> keys_redacted n v'"
      proof (cases "sensitive_key k \<and> normalized k = ''password'' \<and> (\<exists>b. item = JBool b)")
        case True
        then obtain b where "item = JBool b" "v' = ?sub (JBool b)" using item by auto
        then show ?thesis using flag[of b] IH(2)[of item] True by (cases b) auto
      next
        case False
        then have "sensitive_key k \<Longrightarrow> v' = JStr REDACTED" "\<not> sensitive_key k \<Longrightarrow> v' = ?sub item"
          using item by (auto split: json.splits)
        then show ?thesis using IH(2) red by (cases "sensitive_key k") auto
      qed
    qed
    moreover have "hides s False (JObj (dict_update [] ?kvs))" if "scrubbable s" "s \<in> set secrets"
      by (rule hides_obj) (use IH(3)[OF that] p[OF that(1)] in auto)
    ultimately show ?thesis unfolding eq n(1) by simp
  next
    case (JArr vs)
    then show ?thesis using IH by (auto simp: sanitize_payload_simps(2)[OF d] list_all_iff n(1))
  next
    case (JStr t)
    then show ?thesis using sanitize_text_length sanitize_text_hides
      by (auto simp: sanitize_payload_simps(3)[OF d] n(1))
  qed (simp_all add: sanitize_payload_simps(4)[OF d] n(1))
qed

text \<open>
  A logged payload is bounded and redacted: whatever is sent, what is logged of it has at most
  nine levels of at most a hundred items with texts of at most 512 characters, every value under a
  sensitive key is redacted (a boolean password flag apart), and no text in it, keys apart, contains
  a secret the caller names.
\<close>

theorem payload_bounded_and_redacted:
  "bounded_json 9 (sanitize_payload v secrets 0) \<and> keys_redacted 9 (sanitize_payload v secrets 0) \<and>
   (\<forall>s \<in> set secrets. scrubbable s \<longrightarrow> hides s False (sanitize_payload v secrets 0))"
  using sanitize_payload_shape[of 0 v secrets] by simp

subsection \<open>Witnesses\<close>

lemma sample_secret: "scrubbable ''hunter2''" "sensitive_key ''clientToken''" "\<not> sensitive_key ''detail''"
  by code_simp+

text \<open>A Fernet key, 44 characters that end in \<open>=\<close>.\<close>

lemma sample_fernet_key: "scrubbable ''MDEyMzQ1Njc4OWFiY2RlZjAxMjM0NTY3ODlhYmNkZWY=''"
proof -
  have "scrubbable (''MDEyMzQ1Njc4OWFiY2RlZjAxMjM0NTY3ODlhYmNkZWY'' @ ''='')"
    by (rule fernet_key_scrubbable) code_simp+
  then show ?thesis by simp
qed

theorem sanitize_response_hides_witness:
  "\<exists>v. sanitize_response (Some \<lparr>ur_content_length = 60, ur_json = Some (JObj [(''clientToken'', JStr ''hunter2''),
      (''detail'', JStr ''bad token hunter2'')]), ur_text = [], ur_content_type = None\<rparr>) [] False = v \<and>
    (\<exists>w. hides ''hunter2'' True w \<and> v = (if length (dumps w) \<le> 8192 then w else
      JObj [(''summary'', JStr ''Truncated sanitized diagnostics''), (''preview'', JStr (take 8192 (dumps w)))]))"
proof -
  let ?body = "JObj [(''clientToken'', JStr ''hunter2''), (''detail'', JStr ''bad token hunter2'')]"
  let ?r = "\<lparr>ur_content_length = 60, ur_json = Some ?body, ur_text = [], ur_content_type = None\<rparr>"
  have "secret_in 0 ''hunter2'' ?body" by (rule secret_in.here[of "''clientToken''"]) (simp_all add: sample_secret)
  then have "''hunter2'' \<in> set [] \<or>
      (\<exists>r body n. Some ?r = Some r \<and> ur_json r = Some body \<and> n \<le> 8 \<and> secret_in n ''hunter2'' body)" by fastforce
  from sanitize_response_hides[OF sample_secret(1) this, of False] show ?thesis by (simp add: answer_hides_def)
qed

theorem payload_bounded_and_redacted_witness:
  "\<exists>p. sanitize_payload (JObj [(''detail'', JStr ''bad token hunter2'')]) [''hunter2''] 0 = p \<and> bounded_json 9 p \<and>
    hides ''hunter2'' False p"
  using payload_bounded_and_redacted[of "JObj [(''detail'', JStr ''bad token hunter2'')]" "[''hunter2'']"] sample_secret(1)
  by simp

end
