(* ===== verification/Logging.thy ===== *)
theory Logging
  imports Diagnostics
begin

text \<open>
  \<open>common/logging.py\<close>: the redaction of an event, the report of an exception and the line that
  \<open>SafeJSONFormatter\<close> writes. Exceptions are objects on a heap, as their causes and contexts may form
  a cycle.
\<close>

subsection \<open>Redacting an event\<close>

definition compact :: "string \<Rightarrow> string" where
  "compact k = filter (\<lambda>c. c \<noteq> CHR ''_'') (lower k)"

definition redacted_member :: "string \<Rightarrow> json \<Rightarrow> bool" where
  "redacted_member k v \<longleftrightarrow> list_ex (\<lambda>word. sublist word (compact k)) SENSITIVE \<and>
     \<not> (compact k = ''password'' \<and> (case v of JBool _ \<Rightarrow> True | _ \<Rightarrow> False))"

fun redact :: "json \<Rightarrow> json" where
  "redact (JObj kvs) = JObj (map (\<lambda>(k, v). (k, if redacted_member k v then JStr REDACTED else redact v)) kvs)"
| "redact (JArr vs) = JArr (map redact vs)"
| "redact v = v"

subsection \<open>Exceptions\<close>

text \<open>
  Of a stack frame: the file's name, the line, the function, its locals and the attributes of the
  local values. \<open>xi_message\<close> is \<open>None\<close> where \<open>str\<close> of the exception raises.
\<close>

record frame_info =
  fi_file :: string
  fi_line :: int
  fi_function :: string
  fi_locals :: dict
  fi_attributes :: "dict list"

record exception_info =
  xi_class :: string
  xi_message :: "string option"
  xi_frames :: "frame_info list"
  xi_cause :: "nat option"
  xi_context :: "nat option"
  xi_suppress_context :: bool

definition next_exception :: "exception_info \<Rightarrow> nat option" where
  "next_exception x = (case xi_cause x of Some c \<Rightarrow> Some c | None \<Rightarrow> if xi_suppress_context x then None else xi_context x)"

text \<open>The loop over causes and contexts: \<open>seen\<close> is the chain so far, newest first.\<close>

function exception_chain :: "(nat \<Rightarrow> exception_info) \<Rightarrow> nat option \<Rightarrow> nat list \<Rightarrow> nat list" where
  "exception_chain H current seen =
     (case current of
        None \<Rightarrow> []
      | Some x \<Rightarrow>
          if x \<in> set seen \<or> \<not> length seen < 8 then []
          else x # exception_chain H (next_exception (H x)) (x # seen))"
  by pat_completeness auto
termination by (relation "measure (\<lambda>(H, current, seen). 8 - length seen)") auto

declare exception_chain.simps [simp del]

definition message_of :: "exception_info \<Rightarrow> string" where
  "message_of x = (case xi_message x of None \<Rightarrow> ''[Exception message unavailable]'' | Some m \<Rightarrow> m)"

definition exception_secrets :: "exception_info \<Rightarrow> string list" where
  "exception_secrets x =
     concat (map (\<lambda>f. sensitive_values (JObj (fi_locals f)) 0 @
       concat (map (\<lambda>a. sensitive_values (JObj a) 0) (fi_attributes f))) (xi_frames x)) @
     sensitive_values (JStr (message_of x)) 0"

definition frame_entry :: "frame_info \<Rightarrow> json" where
  "frame_entry f = JObj [(''file'', JStr (fi_file f)), (''line'', JInt (fi_line f)), (''function'', JStr (fi_function f))]"

text \<open>The settings whose values are secrets; a missing one is \<open>None\<close>.\<close>

record secret_settings =
  ss_SECRET_KEY :: "string option"
  ss_GATEWAY_JWT_SIGNING_KEY :: "string option"
  ss_CREDENTIAL_ENCRYPTION_KEY :: "string option"
  ss_CREDENTIAL_ENCRYPTION_PREVIOUS_KEYS :: "(string \<times> string) list"

record log_request =
  lq_method :: string
  lq_request_id :: "string option"
  lq_route :: "string option"
  lq_dict :: dict
  lq_META :: dict

definition settings_secrets :: "secret_settings \<Rightarrow> string list" where
  "settings_secrets S =
     List.map_filter id [ss_SECRET_KEY S, ss_GATEWAY_JWT_SIGNING_KEY S, ss_CREDENTIAL_ENCRYPTION_KEY S] @
     map snd (ss_CREDENTIAL_ENCRYPTION_PREVIOUS_KEYS S)"

definition request_secrets :: "log_request option \<Rightarrow> string list" where
  "request_secrets request = (case request of
     None \<Rightarrow> []
   | Some q \<Rightarrow> sensitive_values (JObj (lq_dict q)) 0 @ sensitive_values (JObj (lq_META q)) 0)"

definition report_secrets :: "secret_settings \<Rightarrow> (nat \<Rightarrow> exception_info) \<Rightarrow> nat \<Rightarrow> log_request option \<Rightarrow> string list" where
  "report_secrets S H x request =
     settings_secrets S @ request_secrets request @
     concat (map (\<lambda>i. exception_secrets (H i)) (exception_chain H (Some x) []))"

definition exception_diagnostics ::
    "secret_settings \<Rightarrow> (nat \<Rightarrow> exception_info) \<Rightarrow> nat \<Rightarrow> log_request option \<Rightarrow> dict" where
  "exception_diagnostics S H x request =
     (let chain = exception_chain H (Some x) []; secrets = report_secrets S H x request in
      [(''exception_class'', JStr (xi_class (H x))),
       (''exception_message'', JStr (sanitize_text (message_of (H (hd chain))) secrets)),
       (''traceback'', JArr (map (\<lambda>i. JObj
          [(''exception_class'', JStr (xi_class (H i))),
           (''exception_message'', JStr (sanitize_text (message_of (H i)) secrets)),
           (''frames'', JArr (map frame_entry (drop (length (xi_frames (H i)) - 64) (xi_frames (H i)))))]) chain))])"

subsection \<open>The formatter\<close>

text \<open>\<open>lr_msg\<close> is \<open>None\<close> for a message that is no dictionary.\<close>

record log_record =
  lr_msg :: "dict option"
  lr_name :: string
  lr_levelname :: string
  lr_created :: json
  lr_request_id :: "string option"
  lr_request :: "log_request option"
  lr_status_code :: "int option"
  lr_exception :: "nat option"

text \<open>\<open>a or b or c\<close> on optional texts, an empty one being false too.\<close>

fun first_truthy :: "string option list \<Rightarrow> string option" where
  "first_truthy [] = None"
| "first_truthy [x] = x"
| "first_truthy (x # xs) = (if x \<in> {None, Some []} then first_truthy xs else x)"

definition opt_text :: "string option \<Rightarrow> json" where
  "opt_text t = (case t of None \<Rightarrow> JNull | Some s \<Rightarrow> JStr s)"

definition log_event :: "secret_settings \<Rightarrow> (nat \<Rightarrow> exception_info) \<Rightarrow> log_record \<Rightarrow> dict" where
  "log_event S H r =
     (case lr_msg r of
        Some d \<Rightarrow> (case redact (JObj d) of JObj e \<Rightarrow> e | _ \<Rightarrow> [])
      | None \<Rightarrow>
          if lr_name r = ''django.request'' then
            dict_update
              [(''event'', JStr ''http.request_failed''),
               (''status_code'', case lr_status_code r of None \<Rightarrow> JNull | Some i \<Rightarrow> JInt i),
               (''method'', case lr_request r of None \<Rightarrow> JNull | Some q \<Rightarrow> JStr (lq_method q)),
               (''route'', JStr (case lr_request r of None \<Rightarrow> ''[unmatched]''
                  | Some q \<Rightarrow> (case lq_route q of None \<Rightarrow> ''[unmatched]'' | Some s \<Rightarrow> s)))]
              (case lr_exception r of None \<Rightarrow> [] | Some x \<Rightarrow> exception_diagnostics S H x (lr_request r))
          else [(''event'', JStr ''application_event'')])"

definition format_record :: "secret_settings \<Rightarrow> (nat \<Rightarrow> exception_info) \<Rightarrow> string option \<Rightarrow> log_record \<Rightarrow> string" where
  "format_record S H context_id r =
     (let request_id = opt_text (first_truthy
            [lr_request_id r, (case lr_request r of None \<Rightarrow> None | Some q \<Rightarrow> lq_request_id q), context_id])
      in dumps (JObj (dict_update (log_event S H r)
           [(''level'', JStr (lr_levelname r)), (''logger'', JStr (lr_name r)), (''timestamp'', lr_created r),
            (''request_id'', request_id), (''requestId'', request_id)])))"

subsection \<open>What a log line shows\<close>

text \<open>Every member with a sensitive name is redacted, or the boolean password flag.\<close>

fun log_safe :: "json \<Rightarrow> bool" where
  "log_safe (JObj kvs) \<longleftrightarrow> list_all (\<lambda>(k, v). (redacted_member k v \<longrightarrow> v = JStr REDACTED) \<and> log_safe v) kvs"
| "log_safe (JArr vs) \<longleftrightarrow> list_all log_safe vs"
| "log_safe v \<longleftrightarrow> True"

lemma redact_safe: "log_safe (redact v)"
proof (induction v rule: redact.induct)
  case (1 kvs)
  have "redacted_member k (redact v) \<longleftrightarrow> redacted_member k v" for k v
    by (cases v) (simp_all add: redacted_member_def)
  then show ?case using 1 by (auto simp: list_all_iff)
qed (auto simp: list_all_iff)

lemma redact_keeps_safe: "log_safe v \<Longrightarrow> redact v = v"
proof (induction v rule: redact.induct)
  case (1 kvs)
  have "(\<lambda>(k, v). (k, if redacted_member k v then JStr REDACTED else redact v)) p = p" if "p \<in> set kvs" for p
    using 1 that by (cases p) (auto simp: list_all_iff)
  then show ?case by (simp add: map_idI)
next
  case (2 vs)
  then show ?case by (simp add: list_all_iff map_idI)
qed simp_all

subsection \<open>What a report shows\<close>

lemma exception_chain_shape:
  assumes "x \<notin> set seen" and "length seen < 8" and "distinct seen"
  shows "\<exists>rest. exception_chain H (Some x) seen = x # rest \<and> length seen + Suc (length rest) \<le> 8 \<and>
    distinct (x # rest) \<and> set (x # rest) \<inter> set seen = {} \<and>
    successively (\<lambda>a b. next_exception (H a) = Some b) (x # rest) \<and>
    (length seen + Suc (length rest) < 8 \<longrightarrow>
       (case next_exception (H (last (x # rest))) of None \<Rightarrow> True | Some y \<Rightarrow> y \<in> set (x # rest) \<union> set seen))"
  using assms
proof (induction "8 - length seen" arbitrary: x seen)
  case (Suc n)
  let ?next = "next_exception (H x)"
  have eq: "exception_chain H (Some x) seen = x # exception_chain H ?next (x # seen)"
    using Suc.prems by (simp add: exception_chain.simps[of H "Some x"])
  show ?case
  proof (cases "\<exists>y. ?next = Some y \<and> y \<notin> set (x # seen) \<and> length (x # seen) < 8")
    case True
    then obtain y where y: "?next = Some y" "y \<notin> set (x # seen)" "length (x # seen) < 8" by blast
    have "n = 8 - length (x # seen)" "distinct (x # seen)" using Suc(2) Suc.prems by simp_all
    from Suc(1)[OF this(1) y(2,3) this(2)] obtain rest where r: "exception_chain H (Some y) (x # seen) = y # rest"
      "length (x # seen) + Suc (length rest) \<le> 8" "distinct (y # rest)" "set (y # rest) \<inter> set (x # seen) = {}"
      "successively (\<lambda>a b. next_exception (H a) = Some b) (y # rest)"
      "length (x # seen) + Suc (length rest) < 8 \<longrightarrow>
        (case next_exception (H (last (y # rest))) of None \<Rightarrow> True | Some z \<Rightarrow> z \<in> set (y # rest) \<union> set (x # seen))"
      by blast
    show ?thesis
      using r y Suc.prems by (intro exI[of _ "y # rest"]) (auto simp: eq split: option.splits)
  next
    case False
    then have "exception_chain H ?next (x # seen) = []"
      by (auto simp: exception_chain.simps[of H ?next] split: option.split)
    then show ?thesis
      using False Suc.prems by (auto simp: eq split: option.splits)
  qed
qed simp

text \<open>The exception that another one comes from: its cause, or else its context unless that is suppressed.\<close>

definition comes_from :: "exception_info \<Rightarrow> nat \<Rightarrow> bool" where
  "comes_from x y \<longleftrightarrow> xi_cause x = Some y \<or> xi_cause x = None \<and> \<not> xi_suppress_context x \<and> xi_context x = Some y"

lemma next_exception_iff: "next_exception x = Some y \<longleftrightarrow> comes_from x y"
  by (auto simp: next_exception_def comes_from_def split: option.splits)

text \<open>
  C39, the report of an exception ends: the chain that is reported starts at the exception, follows
  causes and the contexts that are not suppressed, names no exception twice and has at most eight entries,
  even when the links form a cycle; a shorter one stops only where the links end or come back to it.
\<close>

theorem exception_chain_ends:
  "\<exists>rest. exception_chain H (Some x) [] = x # rest \<and> length rest \<le> 7 \<and> distinct (x # rest) \<and>
    successively (\<lambda>a b. comes_from (H a) b) (x # rest) \<and>
    (length rest = 7 \<or> (\<forall>y. comes_from (H (last (x # rest))) y \<longrightarrow> y \<in> set (x # rest)))"
proof -
  obtain rest where r: "exception_chain H (Some x) [] = x # rest" "Suc (length rest) \<le> 8" "distinct (x # rest)"
      "successively (\<lambda>a b. next_exception (H a) = Some b) (x # rest)"
      "Suc (length rest) < 8 \<longrightarrow> (case next_exception (H (last (x # rest))) of None \<Rightarrow> True | Some y \<Rightarrow> y \<in> set (x # rest))"
    using exception_chain_shape[of x "[]" H] by (simp only: list.size list.set add_0 Un_empty_right Int_empty_right) auto
  have "length rest = 7 \<or> (\<forall>y. comes_from (H (last (x # rest))) y \<longrightarrow> y \<in> set (x # rest))"
    using r(2,5) unfolding next_exception_iff[symmetric] by (cases "Suc (length rest) < 8") auto
  then show ?thesis using r(1-4) unfolding next_exception_iff by (intro exI[of _ rest]) simp
qed

lemma chain_bounded: "length (exception_chain H (Some x) []) \<le> 8" "hd (exception_chain H (Some x) []) = x"
  using exception_chain_shape[of x "[]" H] by auto

text \<open>Where a report looks for secrets: the settings, the request, the frames' locals and attributes.\<close>

definition report_sources :: "(nat \<Rightarrow> exception_info) \<Rightarrow> nat \<Rightarrow> log_request option \<Rightarrow> dict list" where
  "report_sources H x request =
     (case request of None \<Rightarrow> [] | Some q \<Rightarrow> [lq_dict q, lq_META q]) @
     concat (map (\<lambda>i. concat (map (\<lambda>f. fi_locals f # fi_attributes f) (xi_frames (H i)))) (exception_chain H (Some x) []))"

lemma report_secrets_complete:
  assumes "d \<in> set (report_sources H x request)" and "secret_in n s (JObj d)" and "n \<le> 8"
  shows "s \<in> set (report_secrets S H x request)"
proof -
  have f: "s \<in> set (sensitive_values (JObj d) 0)" using secret_found[OF assms(2), of 0] assms(3) by simp
  show ?thesis
    using assms(1) f unfolding report_sources_def report_secrets_def request_secrets_def exception_secrets_def
    by (auto split: option.splits)
qed

lemma report_secrets_settings:
  assumes "Some s \<in> {ss_SECRET_KEY S, ss_GATEWAY_JWT_SIGNING_KEY S, ss_CREDENTIAL_ENCRYPTION_KEY S} \<or>
    s \<in> snd ` set (ss_CREDENTIAL_ENCRYPTION_PREVIOUS_KEYS S)"
  shows "s \<in> set (report_secrets S H x request)"
  using assms by (auto simp: report_secrets_def settings_secrets_def List.map_filter_def)

lemma report_secrets_messages:
  assumes "i \<in> set (exception_chain H (Some x) [])" and "secret_in n s (JStr (message_of (H i)))" and "n \<le> 8"
  shows "s \<in> set (report_secrets S H x request)"
  using assms secret_found[OF assms(2), of 0] by (auto simp: report_secrets_def exception_secrets_def)

text \<open>
  C31, the report of an exception hides secrets: no message in it contains a scrubbable secret that is the
  process's secret key, its token signing key, its encryption key or one of the previous encryption keys, or
  that stands under a sensitive key up to eight levels deep in the request, in the locals or attributes of a
  frame of the chain or in JSON that a message of the chain holds; it has at most eight entries of at
  most 64 frames. Secrets that are not scrubbable are not covered; Fernet keys are, unless what comes before
  their padding ends like a credential's name.
\<close>

theorem exception_report_hides:
  assumes "scrubbable s"
    and "Some s \<in> {ss_SECRET_KEY S, ss_GATEWAY_JWT_SIGNING_KEY S, ss_CREDENTIAL_ENCRYPTION_KEY S} \<or>
      s \<in> snd ` set (ss_CREDENTIAL_ENCRYPTION_PREVIOUS_KEYS S) \<or>
      (\<exists>d \<in> set (report_sources H x request). \<exists>n \<le> 8. secret_in n s (JObj d)) \<or>
      (\<exists>i \<in> set (exception_chain H (Some x) []). \<exists>n \<le> 8. secret_in n s (JStr (message_of (H i))))"
  shows "\<exists>message entries. exception_diagnostics S H x request =
      [(''exception_class'', JStr (xi_class (H x))), (''exception_message'', JStr message), (''traceback'', JArr entries)] \<and>
    \<not> sublist s message \<and> length entries \<le> 8 \<and>
    (\<forall>e \<in> set entries. \<exists>class m frames. e = JObj [(''exception_class'', JStr class), (''exception_message'', JStr m),
        (''frames'', JArr frames)] \<and> \<not> sublist s m \<and> length frames \<le> 64)"
proof -
  have "s \<in> set (report_secrets S H x request)"
    using assms(2)
  proof (elim disjE bexE exE conjE)
    fix d n
    assume "d \<in> set (report_sources H x request)" "n \<le> 8" "secret_in n s (JObj d)"
    then show ?thesis using report_secrets_complete by blast
  next
    fix i n
    assume "i \<in> set (exception_chain H (Some x) [])" "n \<le> 8" "secret_in n s (JStr (message_of (H i)))"
    then show ?thesis using report_secrets_messages by blast
  qed (rule report_secrets_settings, simp only: simp_thms)+
  then have "\<not> sublist s (sanitize_text m (report_secrets S H x request))" for m
    using sanitize_text_hides[OF assms(1)] by blast
  then show ?thesis
    unfolding exception_diagnostics_def Let_def using chain_bounded[of H x] by auto
qed

text \<open>
  Log lines of the gateway's events are redacted: the members of a logged dictionary with a
  sensitive name are redacted at every depth, and redacting again changes nothing.
\<close>

theorem logged_events_are_redacted:
  assumes "lr_msg r = Some d"
  shows "\<exists>event. redact (JObj d) = JObj event \<and> log_safe (JObj event) \<and> redact (JObj event) = JObj event \<and>
    map fst event = map fst d \<and> log_event S H r = event"
  using redact_safe[of "JObj d"] redact_keeps_safe[OF redact_safe[of "JObj d"]] assms
  by (auto simp: log_event_def)

subsection \<open>Witnesses\<close>

text \<open>An exception that repeats the encryption key of the process.\<close>

theorem exception_report_hides_witness:
  "\<exists>message entries. exception_diagnostics \<lparr>ss_SECRET_KEY = Some ''hunter2'', ss_GATEWAY_JWT_SIGNING_KEY = None,
      ss_CREDENTIAL_ENCRYPTION_KEY = Some ''MDEyMzQ1Njc4OWFiY2RlZjAxMjM0NTY3ODlhYmNkZWY='',
      ss_CREDENTIAL_ENCRYPTION_PREVIOUS_KEYS = []\<rparr>
      (\<lambda>i. \<lparr>xi_class = ''ValueError'', xi_message = Some ''key MDEyMzQ1Njc4OWFiY2RlZjAxMjM0NTY3ODlhYmNkZWY='', xi_frames = [],
         xi_cause = Some 0, xi_context = None, xi_suppress_context = False\<rparr>) 0 None =
      [(''exception_class'', JStr ''ValueError''), (''exception_message'', JStr message), (''traceback'', JArr entries)] \<and>
    \<not> sublist ''MDEyMzQ1Njc4OWFiY2RlZjAxMjM0NTY3ODlhYmNkZWY='' message"
proof -
  let ?key = "''MDEyMzQ1Njc4OWFiY2RlZjAxMjM0NTY3ODlhYmNkZWY=''"
  let ?S = "\<lparr>ss_SECRET_KEY = Some ''hunter2'', ss_GATEWAY_JWT_SIGNING_KEY = None, ss_CREDENTIAL_ENCRYPTION_KEY = Some ?key,
      ss_CREDENTIAL_ENCRYPTION_PREVIOUS_KEYS = []\<rparr>"
  let ?H = "\<lambda>i :: nat. \<lparr>xi_class = ''ValueError'', xi_message = Some (''key '' @ ?key), xi_frames = [], xi_cause = Some 0,
      xi_context = None, xi_suppress_context = False\<rparr>"
  have "Some ?key \<in> {ss_SECRET_KEY ?S, ss_GATEWAY_JWT_SIGNING_KEY ?S, ss_CREDENTIAL_ENCRYPTION_KEY ?S}" by simp
  from exception_report_hides[OF sample_fernet_key disjI1[OF this], of ?H 0 None] obtain message entries where
    "exception_diagnostics ?S ?H 0 None = [(''exception_class'', JStr (xi_class (?H 0))),
      (''exception_message'', JStr message), (''traceback'', JArr entries)]" "\<not> sublist ?key message" by blast
  then show ?thesis by (intro exI[of _ message] exI[of _ entries]) (simp only: exception_info.simps append.simps simp_thms not_False_eq_True)
qed

theorem exception_chain_ends_witness:
  "\<exists>rest. exception_chain (\<lambda>i. \<lparr>xi_class = [], xi_message = None, xi_frames = [], xi_cause = Some (1 - i), xi_context = None,
      xi_suppress_context = False\<rparr>) (Some 0) [] = 0 # rest \<and> length rest \<le> 7"
  using exception_chain_ends[of "\<lambda>i. \<lparr>xi_class = [], xi_message = None, xi_frames = [], xi_cause = Some (1 - i),
      xi_context = None, xi_suppress_context = False\<rparr>" 0] by blast

theorem logged_events_are_redacted_witness:
  "\<forall>S H. \<exists>event. log_event S H \<lparr>lr_msg = Some [(''access_token'', JStr ''t'')], lr_name = ''gateway'', lr_levelname = ''INFO'',
      lr_created = JInt 0, lr_request_id = None, lr_request = None, lr_status_code = None, lr_exception = None\<rparr> = event \<and>
    log_safe (JObj event)"
  using logged_events_are_redacted[of "\<lparr>lr_msg = Some [(''access_token'', JStr ''t'')], lr_name = ''gateway'', lr_levelname = ''INFO'',
      lr_created = JInt 0, lr_request_id = None, lr_request = None, lr_status_code = None, lr_exception = None\<rparr>"] by auto

end
