(* ===== verification/Startup.thy ===== *)
theory Startup
  imports Clients
begin

text \<open>
  \<open>config/settings/base.py\<close> and \<open>config/settings/production.py\<close>: the settings a process starts with,
  read from the environment variables, and the checks that stop it from starting. A process that
  starts has the settings the other theories assume.
\<close>

subsection \<open>Reading the environment\<close>

fun scan_digits :: "nat \<Rightarrow> bool \<Rightarrow> string \<Rightarrow> nat option" where
  "scan_digits acc ok [] = (if ok then Some acc else None)"
| "scan_digits acc ok (c # cs) =
     (if c = CHR ''_'' then (if ok then scan_digits acc False cs else None)
      else if is_digit c then scan_digits (acc * 10 + digit_val c) True cs else None)"

text \<open>\<open>int(s)\<close>; \<open>None\<close> is \<open>ValueError\<close>, also for a text of too many digits.\<close>

definition int_base10 :: "string \<Rightarrow> int option" where
  "int_base10 s =
     (let t = strip_by (int_space s) s;
          neg = starts_with t ''-'';
          body = (if neg \<or> starts_with t ''+'' then drop 1 t else t)
      in if length (filter is_digit body) > max_int_digits then None
         else map_option (\<lambda>n. if neg then - int n else int n) (scan_digits 0 False body))"

type_synonym environ = "string \<Rightarrow> string option"

text \<open>\<open>os.environ[name]\<close>, \<open>os.getenv(name, default)\<close>, \<open>int(os.getenv(name, default))\<close>.\<close>

definition required_var :: "environ \<Rightarrow> string \<Rightarrow> exn + string" where
  "required_var V name = (case V name of None \<Rightarrow> Inl KeyError | Some v \<Rightarrow> Inr v)"

definition getenv :: "environ \<Rightarrow> string \<Rightarrow> string \<Rightarrow> string" where
  "getenv V name fallback = (case V name of None \<Rightarrow> fallback | Some v \<Rightarrow> v)"

definition int_var :: "environ \<Rightarrow> string \<Rightarrow> string \<Rightarrow> exn + int" where
  "int_var V name fallback = (case int_base10 (getenv V name fallback) of None \<Rightarrow> Inl ValueError | Some i \<Rightarrow> Inr i)"

text \<open>\<open>host.strip().lower().lstrip(".")\<close> of the parts that are not blank.\<close>

definition host_suffixes :: "string \<Rightarrow> string list" where
  "host_suffixes s =
     map (\<lambda>host. dropWhile (\<lambda>c. c = CHR ''.'') (lower (strip host)))
       (filter (\<lambda>host. strip host \<noteq> []) (split_on (CHR '','') s))"

text \<open>
  The settings of the module; \<open>b_settings\<close> are those the modelled code reads. What \<open>dj_database_url\<close>
  and \<open>float\<close> accept are parameters.
\<close>

record boot =
  b_settings :: settings
  b_SECRET_KEY :: string
  b_GATEWAY_JWT_SIGNING_KEY :: string
  b_ALLOWED_HOSTS :: "string list"
  b_CSRF_TRUSTED_ORIGINS :: "string list"
  b_REDIS_URL :: string
  b_CONVAY_BASE_URL :: string

definition check :: "bool \<Rightarrow> exn \<Rightarrow> exn + unit" where
  "check ok x = (if ok then Inr () else Inl x)"

definition signing_key :: "environ \<Rightarrow> string \<Rightarrow> string" where
  "signing_key V secret_key = (case V ''GATEWAY_JWT_SIGNING_KEY'' of
     None \<Rightarrow> secret_key | Some k \<Rightarrow> if k = [] then secret_key else k)"

definition load_settings :: "(string \<Rightarrow> bool) \<Rightarrow> (string \<Rightarrow> bool) \<Rightarrow> environ \<Rightarrow> exn + boot" where
  "load_settings database_url_ok float_ok V =
     bind_r (required_var V ''DJANGO_SECRET_KEY'') (\<lambda>secret_key.
     bind_r (required_var V ''DATABASE_URL'') (\<lambda>database.
     bind_r (check (database_url_ok database) ValueError) (\<lambda>_.
     bind_r (required_var V ''REDIS_URL'') (\<lambda>redis.
     let base_url = getenv V ''CONVAY_BASE_URL'' ''https://convay.com'' in
     bind_r (case urlsplit base_url of None \<Rightarrow> Inl ValueError | Some u \<Rightarrow> Inr (hostname u)) (\<lambda>base_host.
     let suffixes = host_suffixes (getenv V ''CONVAY_TRUSTED_HOST_SUFFIXES'' (case base_host of None \<Rightarrow> [] | Some h \<Rightarrow> h)) in
     bind_r (check (float_ok (getenv V ''CONVAY_CONNECT_TIMEOUT'' ''5'')) ValueError) (\<lambda>_.
     bind_r (check (float_ok (getenv V ''CONVAY_READ_TIMEOUT'' ''30'')) ValueError) (\<lambda>_.
     bind_r (int_var V ''ROOM_BUFFER_BEFORE_MINUTES'' ''0'') (\<lambda>before.
     bind_r (int_var V ''ROOM_BUFFER_AFTER_MINUTES'' ''0'') (\<lambda>after.
     bind_r (check (\<not> (before < 0 \<or> after < 0)) ValueError) (\<lambda>_.
     bind_r (check (starts_with base_url ''https://'') ValueError) (\<lambda>_.
     bind_r (check (suffixes \<noteq> []) ValueError) (\<lambda>_.
     bind_r (int_var V ''GATEWAY_ACCESS_TOKEN_TTL_SECONDS'' ''3600'') (\<lambda>ttl.
     bind_r (check (\<not> ttl \<le> 0) ValueError) (\<lambda>_.
     bind_r (int_var V ''CONVAY_TOKEN_EXPIRY_SKEW_SECONDS'' ''300'') (\<lambda>skew.
     bind_r (check (\<not> skew < 0) ValueError) (\<lambda>_.
       Inr \<lparr>b_settings =
           \<lparr>CREDENTIAL_ENCRYPTION_KEY = getenv V ''CREDENTIAL_ENCRYPTION_KEY'' [],
            CREDENTIAL_ENCRYPTION_KEY_VERSION = getenv V ''CREDENTIAL_ENCRYPTION_KEY_VERSION'' ''1'',
            CONVAY_TRUSTED_HOST_SUFFIXES = suffixes,
            CONVAY_AUTH_PATH = getenv V ''CONVAY_AUTH_PATH'' ''/services/vcmeetingsettings/user/authenticate'',
            CONVAY_START_PATH = getenv V ''CONVAY_START_PATH'' ''/services/vcmeetingsettings/api-user/start-meeting'',
            DEFAULT_PROVIDER_MEETING_TYPE = getenv V ''DEFAULT_PROVIDER_MEETING_TYPE'' ''instant'',
            ROOM_BUFFER_BEFORE_MINUTES = before, ROOM_BUFFER_AFTER_MINUTES = after,
            GATEWAY_ACCESS_TOKEN_TTL_SECONDS = ttl, CONVAY_TOKEN_EXPIRY_SKEW_SECONDS = skew\<rparr>,
         b_SECRET_KEY = secret_key, b_GATEWAY_JWT_SIGNING_KEY = signing_key V secret_key,
         b_ALLOWED_HOSTS = split_on (CHR '','') (getenv V ''ALLOWED_HOSTS'' ''localhost''),
         b_CSRF_TRUSTED_ORIGINS = filter (\<lambda>h. h \<noteq> []) (split_on (CHR '','') (getenv V ''CSRF_TRUSTED_ORIGINS'' [])),
         b_REDIS_URL = redis, b_CONVAY_BASE_URL = base_url\<rparr>))))))))))))))))"

subsection \<open>Production\<close>

text \<open>\<open>len(s.encode())\<close>: the characters from 128 to 255 take two bytes.\<close>

definition utf8_length :: "string \<Rightarrow> nat" where
  "utf8_length s = length s + length (filter (\<lambda>c. 128 \<le> (of_char c :: nat)) s)"

definition load_production :: "(string \<Rightarrow> bool) \<Rightarrow> (string \<Rightarrow> bool) \<Rightarrow> environ \<Rightarrow> exn + boot" where
  "load_production database_url_ok float_ok V =
     bind_r (load_settings database_url_ok float_ok V) (\<lambda>b.
     bind_r (check (\<not> (CREDENTIAL_ENCRYPTION_KEY (b_settings b) = [] \<or> length (b_SECRET_KEY b) < 50 \<or>
               ''*'' \<in> set (b_ALLOWED_HOSTS b))) ImproperlyConfigured) (\<lambda>_.
     bind_r (int_var V ''SECURE_HSTS_SECONDS'' ''31536000'') (\<lambda>hsts.
     bind_r (check (\<not> utf8_length (b_GATEWAY_JWT_SIGNING_KEY b) < 32) ImproperlyConfigured) (\<lambda>_.
       Inr b))))"

subsection \<open>What a started process has\<close>

lemma check_Inr_iff [simp]: "check ok x = Inr u \<longleftrightarrow> ok"
  by (simp add: check_def)

lemma check_Inl_iff [simp]: "check ok x = Inl e \<longleftrightarrow> \<not> ok \<and> e = x"
  by (auto simp: check_def)

lemma lower_char_cases: "lower_char c = c \<or> 97 \<le> (of_char (lower_char c) :: nat)"
  by (auto simp: lower_char_def Let_def of_char_of)

lemma split_on_absent: "w \<in> set (split_on c s) \<Longrightarrow> c \<notin> set w"
  by (induction s arbitrary: w) (auto split: if_splits list.splits)

lemma host_suffixes_normal:
  assumes "h \<in> set (host_suffixes s)"
  shows "lower h = h \<and> \<not> starts_with h ''.'' \<and> CHR '','' \<notin> set h"
proof -
  obtain host where h: "h = dropWhile (\<lambda>c. c = CHR ''.'') (lower (strip host))" "host \<in> set (split_on (CHR '','') s)"
    using assms by (auto simp: host_suffixes_def)
  have "lower_char c = c" if "c \<in> set h" for c
    using that unfolding h(1) by (auto simp: lower_def dest!: set_dropWhileD)
  then have "lower h = h" by (simp add: lower_def map_idI)
  moreover have "\<not> starts_with h ''.''"
  proof
    assume a: "starts_with h ''.''"
    then have "h \<noteq> []" by (auto simp: starts_with_def)
    then have "hd h \<noteq> CHR ''.''" unfolding h(1) by (rule hd_dropWhile)
    then show False using a \<open>h \<noteq> []\<close> by (cases h) (simp_all add: starts_with_def)
  qed
  moreover have "CHR '','' \<notin> set h"
  proof
    assume "CHR '','' \<in> set h"
    then obtain c where c: "c \<in> set (strip host)" "lower_char c = CHR '',''"
      unfolding h(1) by (auto simp: lower_def dest!: set_dropWhileD)
    have "c \<in> set host"
      using c(1) by (auto simp: strip_def lstrip_def dest!: set_dropWhileD)
    moreover have "c = CHR '',''"
      using lower_char_cases[of c] unfolding c(2) by simp
    ultimately show False using split_on_absent[OF h(2)] by blast
  qed
  ultimately show ?thesis by blast
qed

lemma required_var_Inr_iff: "required_var V name = Inr s \<longleftrightarrow> V name = Some s"
  by (simp add: required_var_def split: option.split)

lemma load_settingsD:
  assumes "load_settings db_ok float_ok V = Inr b"
  shows "settings_ok (b_settings b)" and "starts_with (b_CONVAY_BASE_URL b) ''https://''"
    and "\<exists>s. CONVAY_TRUSTED_HOST_SUFFIXES (b_settings b) = host_suffixes s"
    and "V ''DJANGO_SECRET_KEY'' = Some (b_SECRET_KEY b)"
    and "b_GATEWAY_JWT_SIGNING_KEY b = signing_key V (b_SECRET_KEY b)"
    and "b_ALLOWED_HOSTS b = split_on (CHR '','') (getenv V ''ALLOWED_HOSTS'' ''localhost'')"
    and "CREDENTIAL_ENCRYPTION_KEY (b_settings b) = getenv V ''CREDENTIAL_ENCRYPTION_KEY'' []"
proof -
  note r = assms[unfolded load_settings_def bind_r_Inr_iff Let_def check_Inr_iff required_var_Inr_iff Inr_inject]
  show "settings_ok (b_settings b)" using r by (elim exE conjE) (auto simp: settings_ok_def)
  show "starts_with (b_CONVAY_BASE_URL b) ''https://''" using r by (elim exE conjE) auto
  show "\<exists>s. CONVAY_TRUSTED_HOST_SUFFIXES (b_settings b) = host_suffixes s" using r by (elim exE conjE) auto
  show "V ''DJANGO_SECRET_KEY'' = Some (b_SECRET_KEY b)" using r by (elim exE conjE) auto
  show "b_GATEWAY_JWT_SIGNING_KEY b = signing_key V (b_SECRET_KEY b)" using r by (elim exE conjE) auto
  show "b_ALLOWED_HOSTS b = split_on (CHR '','') (getenv V ''ALLOWED_HOSTS'' ''localhost'')" using r by (elim exE conjE) auto
  show "CREDENTIAL_ENCRYPTION_KEY (b_settings b) = getenv V ''CREDENTIAL_ENCRYPTION_KEY'' []" using r by (elim exE conjE) auto
qed

text \<open>
  C32, a started process is configured: when the production settings load, the buffers are not
  negative, the lifetime of tokens is positive, the expiry skew is not negative, the provider is
  addressed by HTTPS, at least one host suffix is trusted, each in lower case, without a leading dot or
  a comma, the signing key has at least 32 bytes and is the secret key unless one is set, and an
  encryption key and explicit hosts are given.
\<close>

theorem started_process_is_configured:
  assumes "load_production db_ok float_ok V = Inr b"
  shows "settings_ok (b_settings b) \<and> starts_with (b_CONVAY_BASE_URL b) ''https://'' \<and>
    (\<forall>h \<in> set (CONVAY_TRUSTED_HOST_SUFFIXES (b_settings b)). lower h = h \<and> \<not> starts_with h ''.'' \<and> CHR '','' \<notin> set h) \<and>
    V ''DJANGO_SECRET_KEY'' = Some (b_SECRET_KEY b) \<and> 50 \<le> length (b_SECRET_KEY b) \<and>
    32 \<le> utf8_length (b_GATEWAY_JWT_SIGNING_KEY b) \<and>
    (V ''GATEWAY_JWT_SIGNING_KEY'' \<in> {None, Some []} \<longrightarrow> b_GATEWAY_JWT_SIGNING_KEY b = b_SECRET_KEY b) \<and>
    CREDENTIAL_ENCRYPTION_KEY (b_settings b) \<noteq> [] \<and> ''*'' \<notin> set (b_ALLOWED_HOSTS b)"
proof -
  have l: "load_settings db_ok float_ok V = Inr b" and c: "\<not> (CREDENTIAL_ENCRYPTION_KEY (b_settings b) = [] \<or>
      length (b_SECRET_KEY b) < 50 \<or> ''*'' \<in> set (b_ALLOWED_HOSTS b))" "\<not> utf8_length (b_GATEWAY_JWT_SIGNING_KEY b) < 32"
    using assms by (auto simp: load_production_def bind_r_Inr_iff)
  obtain s where s: "CONVAY_TRUSTED_HOST_SUFFIXES (b_settings b) = host_suffixes s" using load_settingsD(3)[OF l] by blast
  have "signing_key V (b_SECRET_KEY b) = b_SECRET_KEY b" if "V ''GATEWAY_JWT_SIGNING_KEY'' \<in> {None, Some []}"
    using that by (auto simp: signing_key_def)
  then show ?thesis using load_settingsD[OF l] host_suffixes_normal[of _ s] c s by (simp add: not_less)
qed

text \<open>Which failures stop a process: a missing variable is a \<open>KeyError\<close>, everything else a \<open>ValueError\<close>.\<close>

lemma load_settings_errors:
  assumes "load_settings db_ok float_ok V = Inl x"
  shows "x = KeyError \<and> (V ''DJANGO_SECRET_KEY'' = None \<or> V ''DATABASE_URL'' = None \<or> V ''REDIS_URL'' = None) \<or> x = ValueError"
  using assms by (auto simp: load_settings_def bind_r_Inl_iff required_var_def int_var_def Let_def split: option.splits)

text \<open>
  A gap: a suffix of dots alone passes the start-up check as an empty suffix, and then every host
  name that ends with a dot is trusted.
\<close>

lemma dots_only_suffix_trusts_rooted_hosts:
  assumes "CONVAY_TRUSTED_HOST_SUFFIXES S = host_suffixes ''.''"
  shows "CONVAY_TRUSTED_HOST_SUFFIXES S = [[]] \<and> trusted_host S (Some (h @ ''.''))"
proof -
  have "host_suffixes ''.'' = [[]]" by code_simp
  then show ?thesis using assms by (simp add: trusted_host_def ends_with_def)
qed

definition sample_environ :: environ where
  "sample_environ = map_of [(''DJANGO_SECRET_KEY'', replicate 50 (CHR ''k'')), (''DATABASE_URL'', ''postgres://db''),
     (''REDIS_URL'', ''redis://r''), (''CREDENTIAL_ENCRYPTION_KEY'', ''key'')]"

lemma sample_environ_loads:
  "\<exists>b. load_production (\<lambda>_. True) (\<lambda>_. True) sample_environ = Inr b \<and>
    CONVAY_TRUSTED_HOST_SUFFIXES (b_settings b) = [''convay.com''] \<and> GATEWAY_ACCESS_TOKEN_TTL_SECONDS (b_settings b) = 3600"
proof -
  have ints: "int_base10 ''0'' = Some 0" "int_base10 ''3600'' = Some 3600" "int_base10 ''300'' = Some 300"
      "int_base10 ''31536000'' = Some 31536000"
    by (simp_all add: int_base10_def strip_by_def int_space_def starts_with_def is_digit_def digit_val_def max_int_digits_def Let_def)
  have "utf8_length (replicate 50 (CHR ''k'')) = 50" by (simp add: utf8_length_def)
  moreover have "map_option hostname (urlsplit ''https://convay.com'') = Some (Some ''convay.com'')" by code_simp
  moreover have "host_suffixes ''convay.com'' = [''convay.com'']" "split_on (CHR '','') ''localhost'' = [''localhost'']" by code_simp+
  moreover note ints
  ultimately show ?thesis
    by (auto simp: load_production_def load_settings_def required_var_def int_var_def getenv_def sample_environ_def
        check_def starts_with_def signing_key_def Let_def)
qed

theorem started_process_is_configured_witness:
  "\<exists>b. load_production (\<lambda>_. True) (\<lambda>_. True) sample_environ = Inr b \<and> settings_ok (b_settings b) \<and>
    b_GATEWAY_JWT_SIGNING_KEY b = b_SECRET_KEY b"
proof -
  obtain b where b: "load_production (\<lambda>_. True) (\<lambda>_. True) sample_environ = Inr b" using sample_environ_loads by blast
  have "sample_environ ''GATEWAY_JWT_SIGNING_KEY'' \<in> {None, Some []}" by (simp add: sample_environ_def)
  then show ?thesis using started_process_is_configured[OF b] b by blast
qed

end
