(* ===== verification/Provider_Log.thy ===== *)
theory Provider_Log
  imports Logging Startup Convay
begin

text \<open>
  What \<open>ConvayClient._post\<close> logs of a provider call (\<open>apps/convay/client.py\<close>): the request, the response
  and the failure event, over the outcome that \<open>post\<close> classifies. The theorem says which secrets
  can not occur in the parts that come from outside: the payload and the provider's answer.
\<close>

subsection \<open>Events\<close>

text \<open>The path component of \<open>urlsplit\<close>.\<close>

definition split_path :: "string \<Rightarrow> string option" where
  "split_path url =
     (case split_scheme (url_clean url) of (scheme, rest) \<Rightarrow>
        if netloc_ok (netloc_of rest)
        then Some (takeWhile (\<lambda>c. c \<notin> set ''?#'')
               (if starts_with rest ''//'' then drop (2 + length (netloc_of rest)) rest else rest))
        else None)"

definition endpoint_path :: "string \<Rightarrow> exn + string" where
  "endpoint_path path = (case split_path path of None \<Rightarrow> Inl ValueError | Some p \<Rightarrow> Inr (sanitize_text p []))"

record provider_call =
  pc_operation :: string
  pc_request :: request
  pc_room :: room
  pc_meeting_id :: "string option"
  pc_creation :: bool

definition provider_secrets :: "boot \<Rightarrow> provider_call \<Rightarrow> string list" where
  "provider_secrets B c =
     sensitive_values (rq_payload (pc_request c)) 0 @
     (case rq_token (pc_request c) of None \<Rightarrow> [] | Some t \<Rightarrow> [t]) @
     [r_username (pc_room c), CREDENTIAL_ENCRYPTION_KEY (b_settings B), b_SECRET_KEY B, b_GATEWAY_JWT_SIGNING_KEY B]"

definition failure_event ::
    "boot \<Rightarrow> provider_call \<Rightarrow> string \<Rightarrow> (int \<times> upstream_response) option \<Rightarrow> provider_error \<Rightarrow> string \<Rightarrow> json \<Rightarrow> dict" where
  "failure_event B c endpoint response error exception_class elapsed =
     [(''event'', JStr ''convay.request_failed''), (''operation'', JStr (pc_operation c)), (''http_method'', JStr ''POST''),
      (''endpoint_path'', JStr endpoint),
      (''upstream_status_code'', case response of None \<Rightarrow> JNull | Some (status, _) \<Rightarrow> JInt status),
      (''exception_class'', JStr exception_class), (''error_code'', JStr (pe_code error)),
      (''outcome_unknown'', JBool (pe_ambiguous error)),
      (''upstream_error'', sanitize_response (map_option snd response) (provider_secrets B c) False),
      (''room_public_id'', JStr (r_public_id (pc_room c))), (''gateway_meeting_id'', opt_text (pc_meeting_id c)),
      (''elapsed_ms'', elapsed)]"

definition request_event :: "boot \<Rightarrow> provider_call \<Rightarrow> string \<Rightarrow> dict" where
  "request_event B c endpoint =
     [(''event'', JStr ''convay.start_meeting.request''), (''operation'', JStr (pc_operation c)),
      (''gateway_meeting_id'', opt_text (pc_meeting_id c)), (''room_public_id'', JStr (r_public_id (pc_room c))),
      (''http_method'', JStr ''POST''), (''endpoint_path'', JStr endpoint),
      (''final_payload'', sanitize_payload (rq_payload (pc_request c)) (provider_secrets B c) 0)]"

definition response_event :: "boot \<Rightarrow> provider_call \<Rightarrow> string \<Rightarrow> int \<Rightarrow> upstream_response \<Rightarrow> json \<Rightarrow> dict" where
  "response_event B c endpoint status r elapsed =
     [(''event'', JStr ''convay.start_meeting.response''), (''operation'', JStr (pc_operation c)),
      (''gateway_meeting_id'', opt_text (pc_meeting_id c)), (''room_public_id'', JStr (r_public_id (pc_room c))),
      (''http_method'', JStr ''POST''), (''endpoint_path'', JStr endpoint), (''upstream_status_code'', JInt status),
      (''upstream_response'', sanitize_response (Some r) (provider_secrets B c) True), (''elapsed_ms'', elapsed)]"

text \<open>
  The events of one call, in their order. What the HTTP client adds to the text of a response is its
  size and its content type; the class name of an exception it raises and the elapsed time are
  arguments. An exception that is no \<open>ProviderError\<close> leaves \<open>_post\<close> without a failure event.
\<close>

definition upstream :: "nat \<Rightarrow> string option \<Rightarrow> string \<Rightarrow> upstream_response" where
  "upstream bytes content_type t =
     \<lparr>ur_content_length = bytes, ur_json = loads t, ur_text = t, ur_content_type = content_type\<rparr>"

definition post_events ::
    "boot \<Rightarrow> provider_call \<Rightarrow> string \<Rightarrow> (dict \<Rightarrow> exn + 'a) \<Rightarrow> http_outcome \<Rightarrow> nat \<Rightarrow> string option \<Rightarrow> string \<Rightarrow> json \<Rightarrow> dict list" where
  "post_events B c endpoint parser out bytes content_type exception_class elapsed =
     (let starting = (pc_operation c = ''convay.start_meeting'');
          failed = (\<lambda>response name. case classify (pc_creation c) parser out of
              Inl (ProviderExn e) \<Rightarrow> [failure_event B c endpoint response e name elapsed] | _ \<Rightarrow> [])
      in (if starting then [request_event B c endpoint] else []) @
         (case out of
            TransportError _ \<Rightarrow> failed None exception_class
          | PostRaises _ \<Rightarrow> []
          | Response status t \<Rightarrow>
              (let r = upstream bytes content_type t
               in (if starting then [response_event B c endpoint status r elapsed] else []) @
                  failed (Some (status, r)) (if 200 \<le> status \<and> status \<le> 299 then exception_class else ''HTTPStatusError''))))"

subsection \<open>What they hide\<close>

text \<open>The response of a call, if it has one.\<close>

definition answer_of :: "http_outcome \<Rightarrow> nat \<Rightarrow> string option \<Rightarrow> upstream_response option" where
  "answer_of out bytes content_type = (case out of Response status t \<Rightarrow> Some (upstream bytes content_type t) | _ \<Rightarrow> None)"

lemma events_cases:
  assumes "event \<in> set (post_events B c endpoint parser out bytes content_type name elapsed)"
  obtains (request) "event = request_event B c endpoint"
  | (response) status r where "event = response_event B c endpoint status r elapsed" "answer_of out bytes content_type = Some r"
  | (failure) response e n where "event = failure_event B c endpoint response e n elapsed"
      "answer_of out bytes content_type = map_option snd response"
  using assms
  by (auto simp: post_events_def answer_of_def Let_def split: http_outcome.splits if_splits sum.splits exn.splits)

text \<open>
  C30, provider logs hide secrets: whatever the provider answers to a call, no text of the payload, and
  neither a key nor a text of what is logged of the answer, in any event logged for the call contains a
  scrubbable secret of the call: the room's user name, the process's keys, the bearer token of the call,
  or a text under a sensitive key of its payload, as the password of an authentication is. What is logged of
  the answer has the form and the bounds of a logged response; secrets that are not scrubbable, the
  content type and numbers are not covered.
\<close>

theorem provider_events_hide:
  assumes "scrubbable s"
    and "s \<in> {r_username (pc_room c), CREDENTIAL_ENCRYPTION_KEY (b_settings B), b_SECRET_KEY B, b_GATEWAY_JWT_SIGNING_KEY B} \<or>
      rq_token (pc_request c) = Some s \<or> (\<exists>n \<le> 8. secret_in n s (rq_payload (pc_request c)))"
    and "event \<in> set (post_events B c endpoint parser out bytes content_type name elapsed)"
    and "(key, v) \<in> set event"
  shows "(key = ''final_payload'' \<longrightarrow> hides s False v) \<and>
    (key \<in> {''upstream_error'', ''upstream_response''} \<longrightarrow> answer_hides s (answer_of out bytes content_type) v)"
proof -
  have s: "s \<in> set (provider_secrets B c)"
    using assms(2) secret_found[of _ s "rq_payload (pc_request c)" 0] by (auto simp: provider_secrets_def)
  have payload: "hides s False (sanitize_payload (rq_payload (pc_request c)) (provider_secrets B c) 0)"
    using sanitize_payload_shape[where s = s and depth = 0] assms(1) s by blast
  have answer: "answer_hides s response (sanitize_response response (provider_secrets B c) keep)" for response keep
    by (rule logged_answer_hides[OF assms(1)]) (use s in simp)
  from assms(3) show ?thesis
  proof (cases rule: events_cases)
    case request
    then show ?thesis using assms(4) payload by (auto simp: request_event_def)
  next
    case (response status r)
    then show ?thesis using assms(4) answer by (auto simp: response_event_def)
  next
    case (failure response e n)
    then show ?thesis using assms(4) answer by (auto simp: failure_event_def)
  qed
qed

subsection \<open>Witness\<close>

definition sample_boot :: boot where
  "sample_boot = \<lparr>b_settings = sample_settings, b_SECRET_KEY = ''sk'', b_GATEWAY_JWT_SIGNING_KEY = ''jk'',
     b_ALLOWED_HOSTS = [''localhost''], b_CSRF_TRUSTED_ORIGINS = [], b_REDIS_URL = [], b_CONVAY_BASE_URL = ''https://convay.com''\<rparr>"

definition sample_login_call :: provider_call where
  "sample_login_call = \<lparr>pc_operation = ''convay.authenticate'', pc_request = \<lparr>rq_path = ''/auth'',
     rq_payload = JObj [(''username'', JStr ''a@x.org''), (''password'', JStr ''hunter2'')], rq_token = None, rq_room = UUID 11\<rparr>,
     pc_room = sample_room_a, pc_meeting_id = None, pc_creation = False\<rparr>"

text \<open>The provider repeats the password in its rejection.\<close>

theorem provider_events_hide_witness:
  "\<exists>event v. event \<in> set (post_events sample_boot sample_login_call ''/auth'' (normalize_auth sample_env 0)
       (Response 401 ''wrong password: hunter2'') 23 None ''HTTPStatusError'' JNull) \<and>
     (''upstream_error'', v) \<in> set event \<and>
     answer_hides ''hunter2'' (answer_of (Response 401 ''wrong password: hunter2'') 23 None) v"
proof -
  let ?out = "Response 401 ''wrong password: hunter2''"
  let ?r = "Some (401, upstream 23 None ''wrong password: hunter2'')"
  let ?event = "failure_event sample_boot sample_login_call ''/auth'' ?r (status_error False 401) ''HTTPStatusError'' JNull"
  have "sensitive_key ''password''" by code_simp
  then have "secret_in 0 ''hunter2'' (rq_payload (pc_request sample_login_call))"
    by (auto simp: sample_login_call_def intro: secret_in.here[of "''password''"])
  then have secret: "\<exists>n \<le> 8. secret_in n ''hunter2'' (rq_payload (pc_request sample_login_call))" by blast
  have event: "?event \<in> set (post_events sample_boot sample_login_call ''/auth'' (normalize_auth sample_env 0) ?out 23 None
      ''HTTPStatusError'' JNull)"
    by (simp add: post_events_def classify_def sample_login_call_def Let_def)
  moreover obtain v where v: "(''upstream_error'', v) \<in> set ?event" by (auto simp: failure_event_def)
  ultimately show ?thesis
    using provider_events_hide[OF sample_secret(1) disjI2[OF disjI2[OF secret]] event v] by blast
qed

end
