(* ===== verification/Presets.thy ===== *)
theory Presets
  imports Administration
begin

text \<open>
  The admin page of the configuration presets (\<open>PresetAdmin\<close> in \<open>apps/rooms/admin.py\<close>): the checks of
  its form, the constraints of \<open>MeetingConfigPreset\<close>, and what the layered resolution may rely on
  afterwards.
\<close>

subsection \<open>The form and the statement\<close>

text \<open>
  The model form: both fields are required (an empty dictionary counts as missing), the name has a
  limit, the payload is checked by \<open>validate_config\<close>, and the unique columns are looked up.
\<close>

definition other_presets :: "preset \<Rightarrow> db \<Rightarrow> preset list" where
  "other_presets p d = filter (\<lambda>q. p_id q \<noteq> p_id p) (db_presets d)"

definition preset_form_clean :: "preset \<Rightarrow> db \<Rightarrow> exn + unit" where
  "preset_form_clean p d =
     (if p_name p = [] \<or> p_payload p \<in> {JNull, JStr [], JArr [], JObj []}
      then Inl (ValidationError ''This field is required.'')
      else if \<not> text_fits (Some 160) (p_name p)
      then Inl (ValidationError ''Ensure this value has at most 160 characters.'')
      else bind_r (validate_config (p_payload p)) (\<lambda>_.
        if list_ex (\<lambda>q. p_name q = p_name p) (other_presets p d)
        then Inl (ValidationError ''Meeting config preset with this Name already exists.'')
        else if p_is_system_default p \<and> list_ex p_is_system_default (other_presets p d)
        then Inl (ValidationError ''Constraint one_system_preset is violated.'')
        else Inr ()))"

text \<open>\<open>save()\<close>: an \<open>UPDATE\<close> of the row, or an \<open>INSERT\<close> when there is none; the same unique constraints.\<close>

definition save_preset :: "preset \<Rightarrow> bool \<Rightarrow> db \<Rightarrow> exn + db" where
  "save_preset p change d =
     (if \<not> text_fits (Some 160) (p_name p) then Inl DataError
      else if list_ex (\<lambda>q. p_name q = p_name p) (other_presets p d) \<or>
        p_is_system_default p \<and> list_ex p_is_system_default (other_presets p d)
      then Inl (IntegrityError ''23505'')
      else if row_get p_id (p_id p) (db_presets d) = None then Inr (d\<lparr>db_presets := db_presets d @ [p]\<rparr>)
      else if change then Inr (d\<lparr>db_presets := row_put p_id p (db_presets d)\<rparr>)
      else Inl (IntegrityError ''23505''))"

definition save_preset_admin :: "env \<Rightarrow> int \<Rightarrow> admin_user \<Rightarrow> preset \<Rightarrow> bool \<Rightarrow> db \<Rightarrow> exn + db" where
  "save_preset_admin E now user p change d =
     bind_r (save_preset p change d) (\<lambda>d1.
       Inr (audit_record E now ''preset_updated'' ''rooms.MeetingConfigPreset'' (show_int (p_id p)) None
         (Some (au_id user)) None d1))"

text \<open>The page as a whole, from the submitted form to the commit.\<close>

definition change_preset :: "env \<Rightarrow> int \<Rightarrow> admin_user \<Rightarrow> preset \<Rightarrow> bool \<Rightarrow> db \<Rightarrow> exn + db" where
  "change_preset E now user p change d =
     bind_r (preset_form_clean p d) (\<lambda>_. save_preset_admin E now user p change d)"

text \<open>
  Deleting a preset: the clients that have it as their default protect it; the confirmation page
  refuses then. The page has no \<open>delete_model\<close> of its own, so nothing is audited.
\<close>

definition delete_preset :: "preset \<Rightarrow> db \<Rightarrow> db option" where
  "delete_preset p d =
     (if list_ex (\<lambda>c. c_default_preset c = Some (p_id p)) (db_clients d) then None
      else Some (d\<lparr>db_presets := other_presets p d\<rparr>))"

subsection \<open>What it keeps\<close>

text \<open>Every layer a resolution may meet is a valid configuration.\<close>

definition configs_ok :: "db \<Rightarrow> bool" where
  "configs_ok d \<longleftrightarrow> (\<forall>p \<in> set (db_presets d). \<exists>kvs. p_payload p = JObj kvs \<and> layer_ok kvs) \<and>
     (\<forall>r \<in> set (db_rooms d). \<exists>kvs. or_empty (r_default_meeting_config r) = JObj kvs \<and> layer_ok kvs)"

lemma layer_ok_Nil: "layer_ok []"
  by (simp add: layer_ok_def layer_wf_def validate_config_def)

lemma configs_ok_layers:
  assumes "configs_ok d" and "r \<in> set (db_rooms d)" and "config_layers d c r = Inr ls"
  shows "\<exists>sys cli rm. ls = [JObj sys, JObj cli, JObj rm] \<and> layer_ok sys \<and> layer_ok cli \<and> layer_ok rm"
proof -
  obtain cp where cp: "client_preset d c = Inr cp"
      "ls = [case default_preset d of None \<Rightarrow> JObj [] | Some p \<Rightarrow> p_payload p, cp, or_empty (r_default_meeting_config r)]"
    using assms(3) by (auto simp: config_layers_def bind_r_Inr_iff)
  have pre: "\<exists>kvs. p_payload p = JObj kvs \<and> layer_ok kvs" if "p \<in> set (db_presets d)" for p
    using assms(1) that by (simp add: configs_ok_def)
  have "\<exists>kvs. (case default_preset d of None \<Rightarrow> JObj [] | Some p \<Rightarrow> p_payload p) = JObj kvs \<and> layer_ok kvs"
    using pre layer_ok_Nil by (auto simp: default_preset_def dest: find_SomeD split: option.split)
  moreover have "\<exists>kvs. cp = JObj kvs \<and> layer_ok kvs"
    using cp(1) pre layer_ok_Nil by (auto simp: client_preset_def dest: row_get_mem split: option.splits)
  moreover have "\<exists>kvs. or_empty (r_default_meeting_config r) = JObj kvs \<and> layer_ok kvs"
    using assms(1,2) by (simp add: configs_ok_def)
  ultimately show ?thesis using cp(2) by auto
qed

lemma configs_ok_resolves:
  assumes "db_wf d" and "configs_ok d" and "c \<in> set (db_clients d)" and "r \<in> set (db_rooms d)"
    and "DEFAULT_PROVIDER_MEETING_TYPE (e_settings E) \<in> {''instant'', ''scheduled''}"
  shows "\<exists>cfg. resolve_config E d c r = Inr cfg"
proof -
  obtain ls where ls: "config_layers d c r = Inr ls" using config_layers_wf[OF assms(1,3)] by blast
  obtain sys cli rm where "ls = [JObj sys, JObj cli, JObj rm]" "layer_ok sys" "layer_ok cli" "layer_ok rm"
    using configs_ok_layers[OF assms(2,4) ls] by blast
  then show ?thesis using resolve_layers[of d c r sys cli rm E] ls assms(5) by auto
qed

text \<open>At most one row satisfies \<open>P\<close>, stated over the keys.\<close>

lemma at_most_one_row:
  assumes "distinct (map key rows)"
  shows "length (filter P rows) \<le> 1 \<longleftrightarrow> (\<forall>a \<in> set rows. \<forall>b \<in> set rows. P a \<and> P b \<longrightarrow> key a = key b)"
  using assms
proof (induction rows)
  case (Cons x rows)
  show ?case
  proof (cases "P x")
    case True
    have "length (filter P (x # rows)) \<le> 1 \<longleftrightarrow> (\<forall>b \<in> set rows. \<not> P b)" using True by (simp add: filter_empty_conv)
    moreover have "key x \<notin> key ` set rows" using Cons.prems by simp
    then have nx: "key x \<noteq> key b" if "b \<in> set rows" for b using that by (metis imageI)
    have "(\<forall>a \<in> set (x # rows). \<forall>b \<in> set (x # rows). P a \<and> P b \<longrightarrow> key a = key b) \<longleftrightarrow> (\<forall>b \<in> set rows. \<not> P b)" (is "?l \<longleftrightarrow> ?r")
    proof
      assume l: ?l
      have "P b \<longrightarrow> key x = key b" if "b \<in> set rows" for b using l[rule_format, of x b] that True by simp
      then show ?r using nx by blast
    qed auto
    ultimately show ?thesis by blast
  next
    case False
    then show ?thesis using Cons by auto
  qed
qed simp

lemma save_presetD:
  assumes "save_preset p change d = Inr d'" and "distinct (map p_id (db_presets d))"
  shows "\<exists>ps. d' = d\<lparr>db_presets := ps\<rparr> \<and> distinct (map p_id ps) \<and> p \<in> set ps \<and>
    (\<forall>q \<in> set ps. q = p \<or> q \<in> set (db_presets d) \<and> p_id q \<noteq> p_id p) \<and>
    (\<forall>k. row_get p_id k ps = (if k = p_id p then Some p else row_get p_id k (db_presets d)))"
proof (cases "row_get p_id (p_id p) (db_presets d)")
  case None
  then have "d' = d\<lparr>db_presets := db_presets d @ [p]\<rparr>" "p_id p \<notin> p_id ` set (db_presets d)"
    using assms(1) by (auto simp: save_preset_def row_get_None_iff split: if_splits)
  moreover from this(2) have "p_id q \<noteq> p_id p" if "q \<in> set (db_presets d)" for q using that by (metis imageI)
  ultimately show ?thesis using assms(2) None
    by (intro exI[of _ "db_presets d @ [p]"]) (auto simp: row_get_append image_iff split: option.split)
next
  case (Some q)
  then have d': "d' = d\<lparr>db_presets := row_put p_id p (db_presets d)\<rparr>"
    using assms(1) by (auto simp: save_preset_def split: if_splits)
  have q: "q \<in> set (db_presets d)" "p_id q = p_id p" using row_get_SomeD[OF Some] by simp_all
  then have mem: "p \<in> set (row_put p_id p (db_presets d))" by (force simp: row_put_def)
  have "row_get p_id k (row_put p_id p (db_presets d)) = (if k = p_id p then Some p else row_get p_id k (db_presets d))" for k
    using Some by (simp add: row_get_put)
  then show ?thesis using d' mem assms(2)
    by (intro exI[of _ "row_put p_id p (db_presets d)"]) (auto dest: set_row_put_subset')
qed

lemma save_preset_wf:
  assumes wf: "db_wf d" and ids: "distinct (map p_id (db_presets d))" and s: "save_preset p change d = Inr d'"
  shows "db_wf d'"
proof -
  obtain ps where ps: "d' = d\<lparr>db_presets := ps\<rparr>" "distinct (map p_id ps)"
      "\<And>q. q \<in> set ps \<Longrightarrow> q = p \<or> q \<in> set (db_presets d) \<and> p_id q \<noteq> p_id p"
      "\<And>k. row_get p_id k ps = (if k = p_id p then Some p else row_get p_id k (db_presets d))"
    using save_presetD[OF s ids] by blast
  have one: "\<forall>a \<in> set (db_presets d). \<forall>b \<in> set (db_presets d). p_is_system_default a \<and> p_is_system_default b \<longrightarrow> p_id a = p_id b"
  proof -
    have "length (filter p_is_system_default (db_presets d)) \<le> 1" using wf by (simp add: db_wf_def clients_wf_def)
    then show ?thesis using at_most_one_row[OF ids] by blast
  qed
  have lone: "\<not> p_is_system_default q" if "p_is_system_default p" "q \<in> set (db_presets d)" "p_id q \<noteq> p_id p" for q
  proof -
    have "\<not> list_ex p_is_system_default (other_presets p d)" using s that(1) by (simp add: save_preset_def split: if_splits)
    then show ?thesis using that(2,3) by (auto simp: other_presets_def list_ex_iff)
  qed
  have "p_id a = p_id b" if "a \<in> set ps" "b \<in> set ps" "p_is_system_default a" "p_is_system_default b" for a b
  proof -
    have old: "q \<in> set (db_presets d) \<and> p_id q \<noteq> p_id p" if "q \<in> set ps" "q \<noteq> p" for q using ps(3)[OF that(1)] that(2) by blast
    consider "a = p" "b = p" | "a = p" "b \<noteq> p" | "a \<noteq> p" "b = p" | "a \<noteq> p" "b \<noteq> p" by blast
    then show ?thesis
    proof cases
      case 2
      then show ?thesis using lone[of b] old[OF that(2)] that(3,4) by simp
    next
      case 3
      then show ?thesis using lone[of a] old[OF that(1)] that(3,4) by simp
    next
      case 4
      then show ?thesis using one old[OF that(1)] old[OF that(2)] that(3,4) by blast
    qed simp
  qed
  then have "length (filter p_is_system_default ps) \<le> 1" using at_most_one_row[OF ps(2)] by blast
  moreover have "row_get p_id k ps \<noteq> None" if "c \<in> set (db_clients d)" "c_default_preset c = Some k" for c k
    using that wf ps(4) by (auto simp: db_wf_def clients_wf_def)
  moreover have "distinct (map c_id (db_clients d))" using wf by (simp add: db_wf_def clients_wf_def)
  moreover have "meetings_wf d'" "rooms_wf d'" "refs_wf d'"
    using wf by (simp_all add: ps(1) db_wf_def meetings_wf_def rooms_wf_def refs_wf_def fetch_def)
  ultimately show ?thesis by (auto simp: db_wf_def clients_wf_def ps(1))
qed

lemma row_get_other: "k \<noteq> j \<Longrightarrow> row_get key k (filter (\<lambda>q. key q \<noteq> j) rows) = row_get key k rows"
  by (induction rows) (auto simp: row_get_def)

lemma delete_preset_keeps:
  assumes wf: "db_wf d" and ok: "configs_ok d" and del: "delete_preset p d = Some d'"
  shows "db_wf d' \<and> configs_ok d' \<and> p_id p \<notin> p_id ` set (db_presets d')"
proof -
  have d': "d' = d\<lparr>db_presets := other_presets p d\<rparr>"
    and unused: "\<And>c. c \<in> set (db_clients d) \<Longrightarrow> c_default_preset c \<noteq> Some (p_id p)"
    using del by (auto simp: delete_preset_def list_ex_iff split: if_splits)
  have "filter p_is_system_default (other_presets p d) = filter (\<lambda>q. p_id q \<noteq> p_id p) (filter p_is_system_default (db_presets d))"
    by (simp add: other_presets_def conj_commute)
  moreover have "length (filter p_is_system_default (db_presets d)) \<le> 1" using wf by (simp add: db_wf_def clients_wf_def)
  ultimately have "length (filter p_is_system_default (other_presets p d)) \<le> 1"
    by (metis length_filter_le order_trans)
  moreover have "row_get p_id k (other_presets p d) \<noteq> None" if "c \<in> set (db_clients d)" "c_default_preset c = Some k" for c k
  proof -
    have "k \<noteq> p_id p" using unused[OF that(1)] that(2) by auto
    then show ?thesis using that wf by (auto simp: other_presets_def row_get_other db_wf_def clients_wf_def)
  qed
  moreover have "distinct (map c_id (db_clients d))" using wf by (simp add: db_wf_def clients_wf_def)
  moreover have "meetings_wf d'" "rooms_wf d'" "refs_wf d'"
    using wf by (simp_all add: d' db_wf_def meetings_wf_def rooms_wf_def refs_wf_def fetch_def)
  ultimately have "db_wf d'" by (auto simp: db_wf_def clients_wf_def d')
  then show ?thesis using ok by (auto simp: d' configs_ok_def other_presets_def)
qed

text \<open>
  Presets stay resolvable: a preset that an administrator may save, new or changed, keeps the
  schema's constraints, is stored as submitted, leaves every other preset as it is and adds one audit
  record; and when every configuration column was valid before, it is after, so that the configuration
  of every client in every room resolves, whichever preset is the system's default.
\<close>

theorem saved_presets_resolve:
  assumes "db_wf d" and "distinct (map p_id (db_presets d))" and "layer_wf (p_payload p)"
    and "change_preset E now user p change d = Inr d'"
  shows "db_wf d' \<and> distinct (map p_id (db_presets d')) \<and>
    (\<forall>k. row_get p_id k (db_presets d') = (if k = p_id p then Some p else row_get p_id k (db_presets d))) \<and>
    (\<exists>a. db_audit d' = db_audit d @ [a] \<and> al_admin_user a = Some (au_id user) \<and> al_object_id a = show_int (p_id p)) \<and>
    (configs_ok d \<longrightarrow> configs_ok d' \<and>
       (DEFAULT_PROVIDER_MEETING_TYPE (e_settings E) \<in> {''instant'', ''scheduled''} \<longrightarrow>
         (\<forall>c \<in> set (db_clients d'). \<forall>r \<in> set (db_rooms d'). \<exists>cfg. resolve_config E d' c r = Inr cfg)))"
proof -
  obtain d1 where s: "save_preset p change d = Inr d1" and v: "validate_config (p_payload p) = Inr ()"
      and d': "d' = audit_record E now ''preset_updated'' ''rooms.MeetingConfigPreset'' (show_int (p_id p)) None (Some (au_id user)) None d1"
    using assms(4) by (auto simp: change_preset_def preset_form_clean_def save_preset_admin_def bind_r_Inr_iff split: if_splits)
  obtain ps where ps: "d1 = d\<lparr>db_presets := ps\<rparr>" "distinct (map p_id ps)"
      "\<And>q. q \<in> set ps \<Longrightarrow> q = p \<or> q \<in> set (db_presets d) \<and> p_id q \<noteq> p_id p"
      "\<And>k. row_get p_id k ps = (if k = p_id p then Some p else row_get p_id k (db_presets d))"
    using save_presetD[OF s assms(2)] by blast
  have rows: "db_presets d' = ps" "db_rooms d' = db_rooms d" "db_clients d' = db_clients d" "db_meetings d' = db_meetings d"
    by (simp_all add: d' ps(1) audit_record_def)
  have "db_wf d1" using save_preset_wf[OF assms(1,2) s] .
  then have wf: "db_wf d'" by (simp add: d' audit_record_def db_wf_def meetings_wf_def rooms_wf_def refs_wf_def clients_wf_def fetch_def)
  obtain kvs where "p_payload p = JObj kvs" "layer_ok kvs"
    using v assms(3) by (auto simp: validate_config_ok_iff layer_ok_def)
  then have ok: "configs_ok d'" if "configs_ok d" using that ps(3) rows by (force simp: configs_ok_def)
  have "\<exists>cfg. resolve_config E d' c r = Inr cfg"
    if "configs_ok d" "DEFAULT_PROVIDER_MEETING_TYPE (e_settings E) \<in> {''instant'', ''scheduled''}"
      "c \<in> set (db_clients d')" "r \<in> set (db_rooms d')" for c r
    using configs_ok_resolves[OF wf ok[OF that(1)] that(3,4,2)] .
  moreover have "\<exists>a. db_audit d' = db_audit d @ [a] \<and> al_admin_user a = Some (au_id user) \<and> al_object_id a = show_int (p_id p)"
    by (simp add: d' ps(1) audit_record_def)
  ultimately show ?thesis using wf ps(2,4) ok by (simp add: rows(1))
qed

subsection \<open>Witness\<close>

theorem saved_presets_resolve_witness:
  "\<exists>d'. change_preset sample_env 3 \<lparr>au_id = 1, au_superuser = True\<rparr>
      (sample_preset\<lparr>p_payload := JObj [(''meetingType'', JStr ''instant'')]\<rparr>) True sample_db = Inr d' \<and>
    (\<exists>cfg. resolve_config sample_env d' sample_client sample_room_a = Inr cfg)"
proof -
  let ?p = "sample_preset\<lparr>p_payload := JObj [(''meetingType'', JStr ''instant'')]\<rparr>"
  let ?u = "\<lparr>au_id = 1, au_superuser = True\<rparr>"
  have v: "validate_config (p_payload ?p) = Inr ()" by code_simp
  have "preset_form_clean ?p sample_db = Inr ()" using v by (simp add: preset_form_clean_def other_presets_def text_fits_def sample_rows)
  moreover have "\<exists>d1. save_preset ?p True sample_db = Inr d1"
    by (simp add: save_preset_def other_presets_def text_fits_def sample_rows)
  ultimately obtain d' where d': "change_preset sample_env 3 ?u ?p True sample_db = Inr d'"
    by (auto simp: change_preset_def save_preset_admin_def)
  have "validate_config (p_payload sample_preset) = Inr ()" "validate_config (r_default_meeting_config sample_room_a) = Inr ()"
    by code_simp+
  then have "configs_ok sample_db"
    by (simp add: configs_ok_def sample_rows layer_ok_def layer_wf_def or_empty_def json_falsy_def)
  moreover have "distinct (map p_id (db_presets sample_db))" "layer_wf (p_payload ?p)" by (simp_all add: sample_rows layer_wf_def)
  moreover have "DEFAULT_PROVIDER_MEETING_TYPE (e_settings sample_env) = ''instant''"
    by (simp add: sample_env_def sample_settings_def)
  moreover have "sample_client \<in> set (db_clients sample_db)" "sample_room_a \<in> set (db_rooms sample_db)" by (simp_all add: sample_db_def)
  moreover have "db_clients d' = db_clients sample_db \<and> db_rooms d' = db_rooms sample_db"
    using d' by (auto simp: change_preset_def save_preset_admin_def save_preset_def audit_record_def bind_r_Inr_iff split: if_splits)
  ultimately show ?thesis using saved_presets_resolve[OF sample_db_wf _ _ d'] d' by simp
qed

end
