(* ===== verification/Privileges.thy ===== *)
theory Privileges
  imports Presets Clients
begin

text \<open>
  Who may do what in the administration: the roles that \<open>bootstrap_roles\<close> sets up, the permission
  methods, fields and actions of the admin pages, and the fields a room's form hands on. Django's own
  permission methods, which the pages inherit, are a parameter; its documented behaviour for users
  that have their permissions from groups is the hypothesis \<open>inherited_ok\<close>.
\<close>

subsection \<open>Roles\<close>

type_synonym permission = "string \<times> string"

record group =
  g_name :: string
  g_permissions :: "permission list"

definition get_or_create :: "string \<Rightarrow> group list \<Rightarrow> group list" where
  "get_or_create name gs =
     (if name \<in> g_name ` set gs then gs else gs @ [\<lparr>g_name = name, g_permissions = []\<rparr>])"

definition set_permissions :: "string \<Rightarrow> permission list \<Rightarrow> group list \<Rightarrow> group list" where
  "set_permissions name ps gs = map (\<lambda>g. if g_name g = name then g\<lparr>g_permissions := ps\<rparr> else g) gs"

text \<open>\<open>perms\<close> is the permission table: app label and codename.\<close>

definition view_permissions :: "permission list \<Rightarrow> permission list" where
  "view_permissions perms = filter (\<lambda>(app, codename). app \<in> {''rooms'', ''meetings'', ''audit''} \<and>
     codename \<in> {''view_room'', ''view_meeting'', ''view_auditlog''}) perms"

definition change_permissions :: "permission list \<Rightarrow> permission list" where
  "change_permissions perms = filter (\<lambda>(app, codename). codename \<in> {''change_room'', ''change_meeting''} \<and>
     app \<in> {''rooms'', ''meetings''}) perms"

definition bootstrap_roles :: "permission list \<Rightarrow> group list \<Rightarrow> group list" where
  "bootstrap_roles perms gs =
     set_permissions ''Operations Admin'' (view_permissions perms @ change_permissions perms)
       (set_permissions ''Read Only'' (view_permissions perms)
         (get_or_create ''Read Only'' (get_or_create ''Operations Admin'' gs)))"

subsection \<open>Pages\<close>

datatype page = RoomPage | MeetingPage | AuditLogPage | PresetPage | ClientPage
datatype access = View | Add | Change | Remove

type_synonym inherited = "access \<Rightarrow> admin_user \<Rightarrow> page \<Rightarrow> bool"

definition room_access :: "inherited \<Rightarrow> access \<Rightarrow> admin_user \<Rightarrow> bool" where
  "room_access inh a u = (case a of Add \<Rightarrow> au_superuser u | Remove \<Rightarrow> False | _ \<Rightarrow> inh a u RoomPage)"

definition meeting_access :: "inherited \<Rightarrow> access \<Rightarrow> admin_user \<Rightarrow> bool" where
  "meeting_access inh a u = (case a of Add \<Rightarrow> False | Remove \<Rightarrow> False | _ \<Rightarrow> inh a u MeetingPage)"

definition audit_access :: "inherited \<Rightarrow> access \<Rightarrow> admin_user \<Rightarrow> bool" where
  "audit_access inh a u = (case a of View \<Rightarrow> inh View u AuditLogPage | _ \<Rightarrow> False)"

definition preset_access :: "access \<Rightarrow> admin_user \<Rightarrow> bool" where
  "preset_access a u = au_superuser u"

definition client_access :: "access \<Rightarrow> admin_user \<Rightarrow> bool" where
  "client_access a u = (case a of Remove \<Rightarrow> False | _ \<Rightarrow> au_superuser u)"

definition allowed :: "inherited \<Rightarrow> access \<Rightarrow> admin_user \<Rightarrow> page \<Rightarrow> bool" where
  "allowed inh a u page = (case page of
     RoomPage \<Rightarrow> room_access inh a u | MeetingPage \<Rightarrow> meeting_access inh a u | AuditLogPage \<Rightarrow> audit_access inh a u
   | PresetPage \<Rightarrow> preset_access a u | ClientPage \<Rightarrow> client_access a u)"

subsection \<open>Fields\<close>

definition room_fields :: "admin_user \<Rightarrow> string list" where
  "room_fields u = [''public_id'', ''name'', ''is_active'', ''priority'', ''max_concurrent_bookings'',
     ''provider_active_meeting_limit'', ''credential_configured'', ''last_auth_at'', ''last_auth_success'', ''last_error''] @
     (if au_superuser u then [''username'', ''password'', ''credential_version'', ''default_meeting_config''] else [])"

definition list_display :: "string list" where
  "list_display = [''public_id'', ''name'', ''credential_configured'', ''is_active'', ''priority'', ''booking_count'',
     ''last_auth_at'', ''last_auth_success'']"

definition get_list_display :: "admin_user \<Rightarrow> string list" where
  "get_list_display u = (if au_superuser u then list_display @ [''username''] else list_display)"

definition room_readonly :: "string list" where
  "room_readonly = [''credential_configured'', ''credential_version'', ''last_auth_at'', ''last_auth_success'', ''last_error'']"

definition audit_fields :: "string list" where
  "audit_fields = [''id'', ''actor_type'', ''admin_user'', ''integration_client'', ''action'', ''object_type'', ''object_id'',
     ''request_id'', ''ip'', ''timestamp'', ''metadata'']"

definition client_fields :: "string list" where
  "client_fields = [''name'', ''client_id'', ''is_active'', ''scopes'', ''ip_allowlist'', ''default_preset'', ''last_used_at'']"

definition client_readonly :: "string list" where
  "client_readonly = [''client_id'', ''last_used_at'']"

text \<open>
  The fields of a change form that are not read-only; a preset's form has every field. The meeting
  form depends on the status the form was built for.
\<close>

definition writable :: "inherited \<Rightarrow> admin_user \<Rightarrow> page \<Rightarrow> status \<Rightarrow> string list" where
  "writable inh u page st =
     (if \<not> allowed inh Change u page then []
      else case page of
        RoomPage \<Rightarrow> filter (\<lambda>f. f \<notin> set room_readonly) (room_fields u)
      | MeetingPage \<Rightarrow> editable_fields st
      | AuditLogPage \<Rightarrow> filter (\<lambda>f. f \<notin> set audit_fields) audit_fields
      | PresetPage \<Rightarrow> [''name'', ''payload'', ''is_system_default'']
      | ClientPage \<Rightarrow> filter (\<lambda>f. f \<notin> set client_readonly) client_fields)"

text \<open>The instance a room's form hands to \<open>save_model\<close>; \<open>v\<close> holds the submitted values.\<close>

definition room_form :: "admin_user \<Rightarrow> room \<Rightarrow> room \<Rightarrow> room" where
  "room_form u p v =
     (let q = p\<lparr>r_public_id := r_public_id v, r_name := r_name v, r_is_active := r_is_active v, r_priority := r_priority v,
           r_max_concurrent_bookings := r_max_concurrent_bookings v,
           r_provider_active_meeting_limit := r_provider_active_meeting_limit v\<rparr>
      in if au_superuser u
         then q\<lparr>r_username := r_username v, r_default_meeting_config := r_default_meeting_config v\<rparr> else q)"

subsection \<open>Actions\<close>

datatype admin_action = Activate | Deactivate | TestCredential | ConfirmProviderEnded | RotateSecret

text \<open>The page an action belongs to, and the permissions it declares; a page that may be seen offers it.\<close>

fun action_page :: "admin_action \<Rightarrow> page" where
  "action_page ConfirmProviderEnded = MeetingPage"
| "action_page RotateSecret = ClientPage"
| "action_page a = RoomPage"

fun action_permissions :: "admin_action \<Rightarrow> access list" where
  "action_permissions RotateSecret = []"
| "action_permissions a = [Change]"

definition may_run :: "inherited \<Rightarrow> admin_user \<Rightarrow> admin_action \<Rightarrow> bool" where
  "may_run inh u a \<longleftrightarrow> (allowed inh View u (action_page a) \<or> allowed inh Change u (action_page a)) \<and>
     list_all (\<lambda>x. allowed inh x u (action_page a)) (action_permissions a)"

subsection \<open>Permissions from groups\<close>

fun model_of :: "page \<Rightarrow> string \<times> string" where
  "model_of RoomPage = (''rooms'', ''room'')"
| "model_of MeetingPage = (''meetings'', ''meeting'')"
| "model_of AuditLogPage = (''audit'', ''auditlog'')"
| "model_of PresetPage = (''rooms'', ''meetingconfigpreset'')"
| "model_of ClientPage = (''integrations'', ''integrationclient'')"

text \<open>
  Documented behaviour of Django: a superuser has every permission, another user those of its groups;
  the inherited methods ask for the permission of the page's model, and seeing needs the one to view
  or the one to change.
\<close>

definition has_perm :: "(admin_user \<Rightarrow> string set) \<Rightarrow> group list \<Rightarrow> admin_user \<Rightarrow> permission \<Rightarrow> bool" where
  "has_perm groups_of gs u p \<longleftrightarrow> au_superuser u \<or> (\<exists>g \<in> set gs. g_name g \<in> groups_of u \<and> p \<in> set (g_permissions g))"

definition inherited_ok :: "(admin_user \<Rightarrow> string set) \<Rightarrow> group list \<Rightarrow> inherited \<Rightarrow> bool" where
  "inherited_ok groups_of gs inh \<longleftrightarrow> (\<forall>u page. case model_of page of (app, model) \<Rightarrow>
     inh Change u page = has_perm groups_of gs u (app, ''change_'' @ model) \<and>
     inh View u page = (has_perm groups_of gs u (app, ''view_'' @ model) \<or> has_perm groups_of gs u (app, ''change_'' @ model)))"

lemma group_of_role:
  assumes "g \<in> set (bootstrap_roles perms gs)"
  shows "(g_name g = ''Read Only'' \<longrightarrow> g_permissions g = view_permissions perms) \<and>
    (g_name g = ''Operations Admin'' \<longrightarrow> g_permissions g = view_permissions perms @ change_permissions perms)"
  using assms by (auto simp: bootstrap_roles_def set_permissions_def split: if_splits)

lemma role_exists:
  "\<exists>g \<in> set (bootstrap_roles perms gs). g_name g = ''Operations Admin'' \<and>
    g_permissions g = view_permissions perms @ change_permissions perms"
proof -
  have "''Operations Admin'' \<in> g_name ` set (get_or_create ''Read Only'' (get_or_create ''Operations Admin'' gs))"
    by (auto simp: get_or_create_def)
  then obtain g where g: "g \<in> set (get_or_create ''Read Only'' (get_or_create ''Operations Admin'' gs))" "g_name g = ''Operations Admin''"
    by auto
  then have "g\<lparr>g_permissions := view_permissions perms @ change_permissions perms\<rparr> \<in> set (bootstrap_roles perms gs)"
    by (force simp: bootstrap_roles_def set_permissions_def image_iff)
  then show ?thesis using g(2) by (intro bexI) simp_all
qed

lemma role_permissions:
  assumes "\<not> au_superuser u" and "groups_of u \<subseteq> {''Operations Admin'', ''Read Only''}"
    and "has_perm groups_of (bootstrap_roles perms gs) u p"
  shows "p \<in> set (view_permissions perms) \<or> ''Operations Admin'' \<in> groups_of u \<and> p \<in> set (change_permissions perms)"
proof -
  obtain g where g: "g \<in> set (bootstrap_roles perms gs)" "g_name g \<in> groups_of u" "p \<in> set (g_permissions g)"
    using assms(1,3) by (auto simp: has_perm_def)
  then show ?thesis using group_of_role[OF g(1)] assms(2) by auto
qed

lemma staff_access:
  assumes "\<not> au_superuser u" and "groups_of u \<subseteq> {''Operations Admin'', ''Read Only''}"
    and "inherited_ok groups_of (bootstrap_roles perms gs) inh"
  shows "inh Change u page \<Longrightarrow> ''Operations Admin'' \<in> groups_of u \<and> page \<in> {RoomPage, MeetingPage}"
proof -
  assume "inh Change u page"
  then have "has_perm groups_of (bootstrap_roles perms gs) u (fst (model_of page), ''change_'' @ snd (model_of page))"
    using assms(3)[unfolded inherited_ok_def, rule_format, of u page] by (simp add: case_prod_beta)
  from role_permissions[OF assms(1,2) this] show ?thesis
    by (cases page) (auto simp: view_permissions_def change_permissions_def)
qed

text \<open>Running the command again changes nothing, and groups with other names are left alone.\<close>

lemma bootstrap_roles_again: "bootstrap_roles perms (bootstrap_roles perms gs) = bootstrap_roles perms gs"
proof -
  let ?new = "get_or_create ''Read Only'' (get_or_create ''Operations Admin'' gs)"
  have names: "map g_name (set_permissions n ps xs) = map g_name xs" for n ps xs
    by (induction xs) (simp_all add: set_permissions_def)
  then have "map g_name (bootstrap_roles perms gs) = map g_name ?new" by (simp add: bootstrap_roles_def)
  from arg_cong[OF this, of set] have "g_name ` set (bootstrap_roles perms gs) = g_name ` set ?new" by simp
  moreover have "{''Operations Admin'', ''Read Only''} \<subseteq> g_name ` set ?new" by (auto simp: get_or_create_def)
  ultimately have "get_or_create ''Read Only'' (get_or_create ''Operations Admin'' (bootstrap_roles perms gs)) = bootstrap_roles perms gs"
    by (auto simp: get_or_create_def)
  then show ?thesis
    unfolding bootstrap_roles_def[of perms "bootstrap_roles perms gs"]
    by (simp only:) (auto simp: bootstrap_roles_def set_permissions_def)
qed

lemma staff_room_form:
  assumes "\<not> au_superuser u" and "get_room (r_id p) d = Some p"
    and "save_room_admin E now u (room_form u p v) pw True d = Inr (r, d')"
  shows "r_username r = r_username p \<and> r_encrypted_password r = r_encrypted_password p \<and>
    r_credential_version r = r_credential_version p \<and> r_default_meeting_config r = r_default_meeting_config p"
proof -
  let ?obj = "room_form u p v"
  have obj: "r_username ?obj = r_username p" "r_encrypted_password ?obj = r_encrypted_password p" "r_id ?obj = r_id p"
      "r_credential_version ?obj = r_credential_version p" "r_default_meeting_config ?obj = r_default_meeting_config p"
    using assms(1) by (simp_all add: room_form_def)
  obtain d1 where s: "save_room now ?obj d = Inr (r, d1)"
    using assms(1,3) by (auto simp: save_room_admin_def truthy_def Let_def bind_r_Inr_iff split: if_splits)
  have "get_room (r_id ?obj) d = Some p" using assms(2) by (simp only: obj(3))
  from save_room_update[OF s this] have "r = ?obj\<lparr>r_updated_at := now\<rparr>" by blast
  then show ?thesis using obj by simp
qed

text \<open>
  C40, only superusers manage clients, presets and credentials: after \<open>bootstrap_roles\<close>, a user without
  superuser rights in its two groups may add and delete nothing and may not even see the pages of
  clients and presets; one in the read-only group alone may change nothing and run no action; one in
  the operations group may change rooms, but neither sees nor changes a room's user name, password,
  credential version or configuration, and may edit a meeting only in the state that needs recovery.
  Nobody, a superuser included, may add, change or delete audit records, delete rooms, meetings or
  clients, or add meetings.
\<close>

theorem least_privilege:
  assumes inh: "inherited_ok groups_of (bootstrap_roles perms gs) inh"
    and u: "\<not> au_superuser u" "groups_of u \<subseteq> {''Operations Admin'', ''Read Only''}"
  shows "(\<forall>page. \<not> allowed inh Add u page \<and> \<not> allowed inh Remove u page) \<and>
    (\<forall>a. \<not> allowed inh a u PresetPage \<and> \<not> allowed inh a u ClientPage) \<and>
    (groups_of u = {''Read Only''} \<longrightarrow> (\<forall>page st. writable inh u page st = []) \<and> (\<forall>action. \<not> may_run inh u action)) \<and>
    (''Operations Admin'' \<in> groups_of u \<and> (''rooms'', ''change_room'') \<in> set perms \<longrightarrow>
       set (writable inh u RoomPage st) =
         {''public_id'', ''name'', ''is_active'', ''priority'', ''max_concurrent_bookings'', ''provider_active_meeting_limit''}) \<and>
    (get_room (r_id p) d = Some p \<and> save_room_admin E now u (room_form u p v) pw True d = Inr (r, d') \<longrightarrow>
       r_username r = r_username p \<and> r_encrypted_password r = r_encrypted_password p \<and>
       r_credential_version r = r_credential_version p \<and> r_default_meeting_config r = r_default_meeting_config p) \<and>
    (writable inh u MeetingPage st \<noteq> [] \<longrightarrow> st = PROVIDER_STATE_UNKNOWN) \<and>
    (\<forall>x a. a \<noteq> View \<longrightarrow> \<not> allowed inh a x AuditLogPage) \<and>
    (\<forall>x page. page \<noteq> PresetPage \<longrightarrow> \<not> allowed inh Remove x page) \<and> (\<forall>x. \<not> allowed inh Add x MeetingPage) \<and>
    set (room_fields u @ get_list_display u) \<inter>
      {''username'', ''password'', ''credential_version'', ''default_meeting_config'', ''encrypted_password''} = {}"
proof (intro conjI)
  have ops: "inh Change u RoomPage" if "''Operations Admin'' \<in> groups_of u" "(''rooms'', ''change_room'') \<in> set perms"
  proof -
    have "(''rooms'', ''change_room'') \<in> set (change_permissions perms)" using that(2) by (simp add: change_permissions_def)
    then have "has_perm groups_of (bootstrap_roles perms gs) u (''rooms'', ''change_room'')"
      using role_exists[of perms gs] that(1) unfolding has_perm_def by force
    then show ?thesis using inh[unfolded inherited_ok_def, rule_format, of u RoomPage] by simp
  qed
  have change: "allowed inh Change u page \<Longrightarrow> ''Operations Admin'' \<in> groups_of u" for page
    using staff_access[OF u inh, of page] u(1)
    by (cases page) (auto simp: allowed_def room_access_def meeting_access_def audit_access_def preset_access_def client_access_def)
  note accesses = allowed_def room_access_def meeting_access_def audit_access_def preset_access_def client_access_def
  show "\<forall>page. \<not> allowed inh Add u page \<and> \<not> allowed inh Remove u page"
    using u(1) by (auto simp: accesses split: page.split)
  show "\<forall>a. \<not> allowed inh a u PresetPage \<and> \<not> allowed inh a u ClientPage"
    using u(1) by (auto simp: accesses split: access.split)
  show "groups_of u = {''Read Only''} \<longrightarrow> (\<forall>page st. writable inh u page st = []) \<and> (\<forall>action. \<not> may_run inh u action)"
  proof
    assume "groups_of u = {''Read Only''}"
    then have no: "\<not> allowed inh Change u page" for page using change[of page] by auto
    have "\<not> allowed inh a u ClientPage" for a using u(1) by (cases a) (simp_all add: allowed_def client_access_def)
    then have "\<not> may_run inh u action" for action
      using no[of RoomPage] no[of MeetingPage] by (cases action) (simp_all add: may_run_def)
    then show "(\<forall>page st. writable inh u page st = []) \<and> (\<forall>action. \<not> may_run inh u action)"
      using no by (simp add: writable_def)
  qed
  show "''Operations Admin'' \<in> groups_of u \<and> (''rooms'', ''change_room'') \<in> set perms \<longrightarrow>
      set (writable inh u RoomPage st) =
        {''public_id'', ''name'', ''is_active'', ''priority'', ''max_concurrent_bookings'', ''provider_active_meeting_limit''}"
    using ops u(1) by (auto simp: writable_def allowed_def room_access_def room_fields_def room_readonly_def)
  show "get_room (r_id p) d = Some p \<and> save_room_admin E now u (room_form u p v) pw True d = Inr (r, d') \<longrightarrow>
      r_username r = r_username p \<and> r_encrypted_password r = r_encrypted_password p \<and>
      r_credential_version r = r_credential_version p \<and> r_default_meeting_config r = r_default_meeting_config p"
    using staff_room_form[OF u(1)] by blast
  show "writable inh u MeetingPage st \<noteq> [] \<longrightarrow> st = PROVIDER_STATE_UNKNOWN"
    by (simp add: writable_def editable_fields_def)
  show "set (room_fields u @ get_list_display u) \<inter>
      {''username'', ''password'', ''credential_version'', ''default_meeting_config'', ''encrypted_password''} = {}"
    using u(1) by (simp add: room_fields_def get_list_display_def list_display_def)
qed (auto simp: allowed_def room_access_def meeting_access_def audit_access_def client_access_def split: page.split access.split)

subsection \<open>Witness\<close>

definition sample_permissions :: "permission list" where
  "sample_permissions = [(''rooms'', ''add_room''), (''rooms'', ''change_room''), (''rooms'', ''delete_room''), (''rooms'', ''view_room''),
     (''meetings'', ''change_meeting''), (''meetings'', ''view_meeting''), (''audit'', ''view_auditlog'')]"

definition sample_inherited :: inherited where
  "sample_inherited a u page = (case model_of page of (app, model) \<Rightarrow>
     let perm = has_perm (\<lambda>_. {''Operations Admin''}) (bootstrap_roles sample_permissions []) u in
     perm (app, ''change_'' @ model) \<or> a = View \<and> perm (app, ''view_'' @ model))"

theorem least_privilege_witness:
  "allowed sample_inherited Change \<lparr>au_id = 2, au_superuser = False\<rparr> RoomPage \<and>
   set (writable sample_inherited \<lparr>au_id = 2, au_superuser = False\<rparr> RoomPage DRAFT) =
     {''public_id'', ''name'', ''is_active'', ''priority'', ''max_concurrent_bookings'', ''provider_active_meeting_limit''} \<and>
   \<not> allowed sample_inherited Change \<lparr>au_id = 2, au_superuser = False\<rparr> ClientPage"
proof -
  let ?u = "\<lparr>au_id = 2, au_superuser = False\<rparr>"
  let ?groups = "\<lambda>_ :: admin_user. {''Operations Admin''}"
  have inh: "inherited_ok ?groups (bootstrap_roles sample_permissions []) sample_inherited"
    by (auto simp: inherited_ok_def sample_inherited_def Let_def split: prod.split)
  have "\<not> au_superuser ?u" "?groups ?u \<subseteq> {''Operations Admin'', ''Read Only''}" by simp_all
  note l = least_privilege[OF inh this, where st = DRAFT and p = sample_room_a and d = sample_db and E = sample_env and now = 0
      and v = sample_room_a and pw = None and r = sample_room_a and d' = sample_db]
  have "''Operations Admin'' \<in> ?groups ?u \<and> (''rooms'', ''change_room'') \<in> set sample_permissions"
    by (simp add: sample_permissions_def)
  note w = l[THEN conjunct2, THEN conjunct2, THEN conjunct2, THEN conjunct1, THEN mp, OF this]
  then have "allowed sample_inherited Change ?u RoomPage" by (cases "allowed sample_inherited Change ?u RoomPage") (simp_all add: writable_def)
  moreover have "\<not> allowed sample_inherited Change ?u ClientPage" using l[THEN conjunct2, THEN conjunct1] by (simp only:) simp
  ultimately show ?thesis using w by (simp only:) simp
qed

end
