(* ===== verification/Legacy.thy ===== *)
theory Legacy
  imports Administration "HOL-Library.Product_Lexorder"
begin

text \<open>
  \<open>apps/meetings/migrations/0004_meeting_unique_client_external_class.py\<close>: before the unique constraint
  on client and class is added, all but one of the meetings that share both are renamed. The
  property shows when the constraint then holds and which meeting keeps its class.
\<close>

subsection \<open>The migration\<close>

definition status_rank :: "status \<Rightarrow> int" where
  "status_rank s = (case s of
     LIVE \<Rightarrow> 9 | READY \<Rightarrow> 8 | PROVIDER_RESPONSE_INVALID \<Rightarrow> 7 | PROVIDER_STATE_UNKNOWN \<Rightarrow> 6 | PROVISIONING \<Rightarrow> 5
   | RESERVED \<Rightarrow> 4 | DRAFT \<Rightarrow> 3 | FAILED \<Rightarrow> 2 | ENDED \<Rightarrow> 1 | CANCELLED \<Rightarrow> 0 | _ \<Rightarrow> -1)"

definition keep_key :: "meeting \<Rightarrow> bool \<times> int \<times> bool \<times> int" where
  "keep_key m = (m_provider_calendar_id m \<notin> {None, Some []}, status_rank (m_status m), m_reservation_active m, - m_created_at m)"

text \<open>\<open>meetings.sort(key=..., reverse=True)\<close>, which keeps the order of equal elements.\<close>

definition by_preference :: "meeting list \<Rightarrow> meeting list" where
  "by_preference ms = rev (sort_key keep_key (rev ms))"

type_synonym class_key = "uuid \<times> string"

definition class_key :: "meeting \<Rightarrow> class_key" where
  "class_key m = (m_integration_client m, m_external_class_id m)"

text \<open>The grouped query: the keys that occur more than once.\<close>

definition duplicate_groups :: "meeting list \<Rightarrow> class_key list" where
  "duplicate_groups ms = filter (\<lambda>g. 1 < length (filter (\<lambda>m. class_key m = g) ms)) (remdups (map class_key ms))"

definition uuid_hex :: "uuid \<Rightarrow> string" where
  "uuid_hex u = (case u of UUID w \<Rightarrow> hex_digits 32 (unat w))"

definition legacy_suffix :: "uuid \<Rightarrow> string" where
  "legacy_suffix pk = ''~legacy-'' @ take 8 (uuid_hex pk)"

definition preserved_id :: "string \<Rightarrow> uuid \<Rightarrow> string" where
  "preserved_id class_id pk = take (160 - length (legacy_suffix pk)) class_id @ legacy_suffix pk"

definition rename_duplicate :: "class_key \<Rightarrow> uuid \<Rightarrow> meeting list \<Rightarrow> meeting list" where
  "rename_duplicate g pk ms =
     map (\<lambda>m. if m_id m = pk then m\<lparr>m_external_class_id := preserved_id (snd g) pk\<rparr> else m) ms"

definition rename_group :: "class_key \<Rightarrow> meeting list \<Rightarrow> meeting list" where
  "rename_group g ms =
     fold (\<lambda>duplicate. rename_duplicate g (m_id duplicate))
       (tl (by_preference (filter (\<lambda>m. class_key m = g) ms))) ms"

text \<open>The groups in the order in which the query yields them.\<close>

definition preserve_historical_duplicates :: "class_key list \<Rightarrow> meeting list \<Rightarrow> meeting list" where
  "preserve_historical_duplicates groups ms = fold rename_group groups ms"

subsection \<open>What it leaves behind\<close>

text \<open>The meetings that lose their class: all of a group but the one that comes first.\<close>

definition losers :: "meeting list \<Rightarrow> class_key \<Rightarrow> uuid set" where
  "losers ms g = m_id ` set (tl (by_preference (filter (\<lambda>m. class_key m = g) ms)))"

definition renamed :: "meeting \<Rightarrow> meeting" where
  "renamed m = m\<lparr>m_external_class_id := preserved_id (m_external_class_id m) (m_id m)\<rparr>"

definition migrated :: "class_key set \<Rightarrow> meeting list \<Rightarrow> meeting list" where
  "migrated P ms = map (\<lambda>m. if class_key m \<in> P \<and> m_id m \<in> losers ms (class_key m) then renamed m else m) ms"

lemma fold_rename_duplicate:
  "fold (\<lambda>x. rename_duplicate g (m_id x)) xs ms =
    map (\<lambda>m. if m_id m \<in> m_id ` set xs then m\<lparr>m_external_class_id := preserved_id (snd g) (m_id m)\<rparr> else m) ms"
  by (induction xs arbitrary: ms) (auto simp: rename_duplicate_def)

lemma set_by_preference [simp]: "set (by_preference ms) = set ms"
  by (simp add: by_preference_def)

lemma losers_class:
  assumes "i \<in> losers ms g"
  shows "\<exists>m \<in> set ms. m_id m = i \<and> class_key m = g"
proof -
  have "set (tl (by_preference xs)) \<subseteq> set xs" for xs
    using set_by_preference[of xs] by (cases "by_preference xs") (simp, metis list.sel(3) set_subset_Cons)
  then show ?thesis using assms unfolding losers_def by fastforce
qed

text \<open>
  Tables that can be migrated: no class id ends in the suffix of a meeting of the table, and no two
  ids agree in their first eight digits.
\<close>

definition migratable :: "meeting list \<Rightarrow> bool" where
  "migratable ms \<longleftrightarrow> distinct (map m_id ms) \<and> distinct (map (\<lambda>m. legacy_suffix (m_id m)) ms) \<and>
     (\<forall>a \<in> set ms. \<forall>b \<in> set ms. \<not> ends_with (m_external_class_id a) (legacy_suffix (m_id b)))"

lemma migratableD:
  assumes "migratable ms" and "a \<in> set ms" and "b \<in> set ms"
  shows "m_id a = m_id b \<Longrightarrow> a = b" and "legacy_suffix (m_id a) = legacy_suffix (m_id b) \<Longrightarrow> a = b"
    and "\<not> ends_with (m_external_class_id a) (legacy_suffix (m_id b))"
  using assms by (auto simp: migratable_def distinct_map dest: inj_onD)

lemma renamed_id [simp]: "m_id (renamed m) = m_id m" "m_integration_client (renamed m) = m_integration_client m"
  by (simp_all add: renamed_def)

lemma renamed_suffix: "ends_with (m_external_class_id (renamed m)) (legacy_suffix (m_id m))"
  by (simp add: renamed_def preserved_id_def ends_with_def)

lemma renamed_other: "migratable ms \<Longrightarrow> m \<in> set ms \<Longrightarrow> a \<in> set ms \<Longrightarrow> class_key (renamed m) \<noteq> class_key a"
  using renamed_suffix[of m] migratableD(3)[of ms a m] by (auto simp: class_key_def)

lemma group_unchanged:
  assumes "migratable ms" and "g \<notin> P" and "g \<in> class_key ` set ms"
  shows "filter (\<lambda>m. class_key m = g) (migrated P ms) = filter (\<lambda>m. class_key m = g) ms"
proof -
  have "\<forall>m \<in> set xs. m \<in> set ms \<Longrightarrow>
    filter (\<lambda>m. class_key m = g) (map (\<lambda>m. if class_key m \<in> P \<and> m_id m \<in> losers ms (class_key m) then renamed m else m) xs) =
    filter (\<lambda>m. class_key m = g) xs" for xs
    using assms(2,3) renamed_other[OF assms(1)] by (induction xs) auto
  then show ?thesis unfolding migrated_def by blast
qed

lemma rename_step:
  assumes "migratable ms" and "m \<in> set ms" and "g \<notin> P"
    and "x = (if class_key m \<in> P \<and> m_id m \<in> losers ms (class_key m) then renamed m else m)"
  shows "(if m_id x \<in> losers ms g then x\<lparr>m_external_class_id := preserved_id (snd g) (m_id x)\<rparr> else x) =
    (if class_key m \<in> insert g P \<and> m_id m \<in> losers ms (class_key m) then renamed m else m)"
proof -
  have g: "m_id m \<in> losers ms g \<longleftrightarrow> class_key m = g \<and> m_id m \<in> losers ms (class_key m)"
    using losers_class[of "m_id m" ms g] migratableD(1)[OF assms(1) _ assms(2)] by blast
  have "class_key m = g \<Longrightarrow> m\<lparr>m_external_class_id := preserved_id (snd g) (m_id m)\<rparr> = renamed m"
    by (auto simp: renamed_def class_key_def)
  then show ?thesis using g assms(3,4) by (cases "class_key m = g") auto
qed

lemma rename_group_migrated:
  assumes "migratable ms" and "g \<notin> P" and "g \<in> class_key ` set ms"
  shows "rename_group g (migrated P ms) = migrated (insert g P) ms"
proof -
  have "rename_group g (migrated P ms) = map (\<lambda>m. if m_id m \<in> losers ms g
      then m\<lparr>m_external_class_id := preserved_id (snd g) (m_id m)\<rparr> else m) (migrated P ms)"
    unfolding rename_group_def group_unchanged[OF assms] fold_rename_duplicate losers_def by (rule refl)
  also have "\<dots> = migrated (insert g P) ms"
    unfolding migrated_def map_map comp_def
    by (rule map_cong[OF refl]) (rule rename_step[OF assms(1) _ assms(2) refl])
  finally show ?thesis .
qed

lemma migration:
  assumes "migratable ms" and "distinct groups" and "set groups \<subseteq> class_key ` set ms" and "set groups \<inter> P = {}"
  shows "preserve_historical_duplicates groups (migrated P ms) = migrated (P \<union> set groups) ms"
  using assms(2-) unfolding preserve_historical_duplicates_def
  by (induction groups arbitrary: P) (auto simp: rename_group_migrated[OF assms(1)])

lemma set_duplicate_groups: "set (duplicate_groups ms) \<subseteq> class_key ` set ms"
  by (auto simp: duplicate_groups_def)

lemma duplicate_groupsI:
  assumes "distinct ms" and "a \<in> set ms" and "b \<in> set ms" and "a \<noteq> b" and "class_key a = class_key b"
  shows "class_key a \<in> set (duplicate_groups ms)"
proof -
  let ?rows = "filter (\<lambda>m. class_key m = class_key a) ms"
  have "{a, b} \<subseteq> set ?rows" "distinct ?rows" using assms by simp_all
  then have "2 \<le> length ?rows"
    using assms(4) card_mono[of "set ?rows" "{a, b}"] distinct_card[of ?rows] by simp
  then show ?thesis using assms(2) by (simp add: duplicate_groups_def)
qed

lemma legacy_suffix_length [simp]: "length (legacy_suffix pk) = 16"
  by (cases pk) (simp add: legacy_suffix_def uuid_hex_def)

text \<open>Of a group exactly one meeting is no loser, and it comes first by the sort key.\<close>

lemma keeper:
  assumes "migratable ms" and "m \<in> set ms"
  shows "\<exists>k \<in> set ms. class_key k = class_key m \<and>
    (\<forall>x \<in> set ms. class_key x = class_key m \<longrightarrow> keep_key x \<le> keep_key k \<and> (m_id x \<notin> losers ms (class_key m) \<longleftrightarrow> x = k))"
proof -
  let ?rows = "filter (\<lambda>x. class_key x = class_key m) ms"
  let ?sorted = "by_preference ?rows"
  have rows: "set ?sorted = {x \<in> set ms. class_key x = class_key m}" by auto
  then obtain k rest where k: "?sorted = k # rest" using assms(2) by (cases ?sorted) auto
  have "sorted (rev (map keep_key ?sorted))" by (simp add: by_preference_def rev_map[symmetric])
  then have top: "\<forall>x \<in> set rest. keep_key x \<le> keep_key k" unfolding k by (simp add: sorted_append)
  have "distinct (map m_id ?rows)" using assms(1) by (simp add: migratable_def distinct_map inj_on_def)
  then have "distinct (map m_id ?sorted)" by (simp add: by_preference_def distinct_map inj_on_def)
  then have "m_id k \<notin> m_id ` set rest" unfolding k by simp
  moreover have "losers ms (class_key m) = m_id ` set rest" by (simp add: losers_def k)
  moreover have "set ?sorted = insert k (set rest)" by (simp add: k)
  ultimately show ?thesis using top rows by (intro bexI[of _ k]) auto
qed

lemma migrated_keys_injective:
  assumes "migratable ms" and "set groups = set (duplicate_groups ms)"
    and "new = (\<lambda>m. if class_key m \<in> set groups \<and> m_id m \<in> losers ms (class_key m) then renamed m else m)"
  shows "inj_on (\<lambda>m. class_key (new m)) (set ms)"
proof (rule inj_onI)
  fix a b assume ab: "a \<in> set ms" "b \<in> set ms" and eq: "class_key (new a) = class_key (new b)"
  let ?L = "\<lambda>m. class_key m \<in> set groups \<and> m_id m \<in> losers ms (class_key m)"
  have new1: "new m = renamed m" if "?L m" for m using that unfolding assms(3) by (rule if_P)
  have new2: "new m = m" if "\<not> ?L m" for m using that unfolding assms(3) by (rule if_not_P)
  consider "\<not> ?L a" "\<not> ?L b" | "?L a" "?L b" | "?L a" "\<not> ?L b" | "\<not> ?L a" "?L b" by blast
  then show "a = b"
  proof cases
    case 1
    have same: "class_key a = class_key b" using eq unfolding new2[OF 1(1)] new2[OF 1(2)] .
    show ?thesis
    proof (rule ccontr)
      assume "a \<noteq> b"
      have "distinct ms" using assms(1) by (simp add: migratable_def distinct_map)
      then have "class_key a \<in> set groups"
        using duplicate_groupsI[OF _ ab \<open>a \<noteq> b\<close> same] assms(2) by simp
      then have "m_id a \<notin> losers ms (class_key a)" "m_id b \<notin> losers ms (class_key a)" using 1 same by simp_all
      then show False using keeper[OF assms(1) ab(1)] ab same \<open>a \<noteq> b\<close> by metis
    qed
  next
    case 2
    then have "m_external_class_id (renamed a) = m_external_class_id (renamed b)"
      using eq unfolding new1[OF 2(1)] new1[OF 2(2)] by (simp add: class_key_def)
    then have "legacy_suffix (m_id a) = legacy_suffix (m_id b)"
      using renamed_suffix[of a] renamed_suffix[of b] by (simp add: ends_with_def)
    then show ?thesis using migratableD(2)[OF assms(1) ab] by simp
  next
    case 3
    then show ?thesis using renamed_other[OF assms(1) ab(1,2)] eq unfolding new1[OF 3(1)] new2[OF 3(2)] by blast
  next
    case 4
    then show ?thesis using renamed_other[OF assms(1) ab(2,1)] eq unfolding new1[OF 4(2)] new2[OF 4(1)] by metis
  qed
qed

text \<open>
  C33, the unique constraint can be added: on a table without clashing suffixes, in whatever order the
  groups come, no two rows share client and class afterwards; every row keeps its id, and of each
  duplicated class the row that is best by calendar id, status, active reservation and age keeps
  the class, while rows of other classes stay as they were.
\<close>

theorem migration_makes_classes_unique:
  assumes "migratable ms" and "distinct groups" and "set groups = set (duplicate_groups ms)"
    and "result = preserve_historical_duplicates groups ms"
  shows "distinct (map class_key result) \<and> map m_id result = map m_id ms \<and>
    (\<forall>m \<in> set ms. class_key m \<notin> set groups \<longrightarrow> m \<in> set result) \<and>
    (\<forall>m \<in> set ms. \<exists>k \<in> set ms. k \<in> set result \<and> class_key k = class_key m \<and>
       (\<forall>x \<in> set ms. class_key x = class_key m \<longrightarrow> keep_key x \<le> keep_key k))"
proof -
  let ?new = "\<lambda>m. if class_key m \<in> set groups \<and> m_id m \<in> losers ms (class_key m) then renamed m else m"
  have "migrated {} ms = ms" by (simp add: migrated_def)
  then have r: "result = map ?new ms"
    using migration[OF assms(1,2), of "{}"] set_duplicate_groups[of ms] assms(3,4) by (simp add: migrated_def)
  have "inj_on (\<lambda>m. class_key (?new m)) (set ms)"
    by (rule migrated_keys_injective[OF assms(1,3) refl])
  then have "distinct (map class_key result)" using assms(1) unfolding r by (simp add: migratable_def distinct_map comp_def)
  moreover have "map m_id result = map m_id ms" unfolding r by simp
  moreover have "\<forall>m \<in> set ms. class_key m \<notin> set groups \<longrightarrow> m \<in> set result" unfolding r by force
  moreover have "\<forall>m \<in> set ms. \<exists>k \<in> set ms. k \<in> set result \<and> class_key k = class_key m \<and>
       (\<forall>x \<in> set ms. class_key x = class_key m \<longrightarrow> keep_key x \<le> keep_key k)"
  proof
    fix m assume "m \<in> set ms"
    from keeper[OF assms(1) this] obtain k where k: "k \<in> set ms" "class_key k = class_key m"
      "\<forall>x \<in> set ms. class_key x = class_key m \<longrightarrow> keep_key x \<le> keep_key k \<and> (m_id x \<notin> losers ms (class_key m) \<longleftrightarrow> x = k)" by blast
    then have "m_id k \<notin> losers ms (class_key m)" by blast
    then have "?new k = k" using k(2) by simp
    then have "k \<in> ?new ` set ms" using k(1) by (intro image_eqI[of _ _ k]) simp_all
    then have "k \<in> set result" unfolding r by simp
    then show "\<exists>k \<in> set ms. k \<in> set result \<and> class_key k = class_key m \<and>
       (\<forall>x \<in> set ms. class_key x = class_key m \<longrightarrow> keep_key x \<le> keep_key k)" using k by blast
  qed
  ultimately show ?thesis by blast
qed

subsection \<open>Witness\<close>

definition sample_duplicates :: "meeting list" where
  "sample_duplicates = [sample_draft, sample_draft\<lparr>m_id := UUID 1329227995784915872903807060280344576, m_status := READY\<rparr>]"

lemma hex_digits_numeral: "hex_digits (numeral k) n = hex_digits (pred_numeral k) (n div 16) @ [hex_char (n mod 16)]"
  by (simp only: numeral_eq_Suc[of k] hex_digits.simps)

lemma hex_chars: "char_of (48 :: nat) = CHR ''0''" "char_of (49 :: nat) = CHR ''1''"
  by code_simp+

lemma sample_migratable: "migratable sample_duplicates"
proof -
  have "legacy_suffix (UUID 31) = ''~legacy-00000000''" "legacy_suffix (UUID 1329227995784915872903807060280344576) = ''~legacy-01000000''"
    by (simp_all add: legacy_suffix_def uuid_hex_def hex_char_def hex_digits_numeral hex_chars)
  then show ?thesis by (simp add: migratable_def sample_duplicates_def sample_draft_def ends_with_def)
qed

theorem migration_makes_classes_unique_witness:
  "distinct (map class_key (preserve_historical_duplicates (duplicate_groups sample_duplicates) sample_duplicates)) \<and>
   duplicate_groups sample_duplicates = [(UUID 21, ''c1'')]"
proof -
  have g: "duplicate_groups sample_duplicates = [(UUID 21, ''c1'')]"
    by (simp add: duplicate_groups_def sample_duplicates_def sample_draft_def class_key_def)
  then have "distinct (duplicate_groups sample_duplicates)" by simp
  from migration_makes_classes_unique[OF sample_migratable this refl refl] g show ?thesis by blast
qed

end
