(* ===== verification/Spec2Isabelle.thy ===== *)
theory Spec2Isabelle
  imports Bookings Service Responses Provider_Log Privileges Legacy
begin

text \<open>
  A model of the meeting gateway: a Django service that books provider (Convay) accounts, called
  rooms, for classes, creates one provider meeting per class and hands out the provider's token. A
  client system exchanges its credentials for a gateway token and registers classes; operators use
  the admin pages; a periodic task flags creations that never ended.

  The parts and their theories, in the order they build on each other.

  \<^item> \<open>Prelude\<close>: results with errors on the left, keyed tables (the locale \<open>keyed_table\<close>), UUIDs, the parts
    of Python's \<open>str\<close> the gateway uses. \<open>Json\<close>: Python's JSON values, dictionaries, printer and parser
    (the parser's fuel is twice the text's length, which \<open>loads_fuel_enough\<close> shows to be enough) with
    their round trip. \<open>Urls\<close>: \<open>urlsplit\<close> and what the text of an accepted URL looks like. \<open>Errors\<close>:
    datetimes, the adapter's results, every exception, the settings and the environment.
  \<^item> \<open>Encryption\<close>: \<open>common/encryption.py\<close>. \<open>Models\<close>: the tables of \<open>apps/*/models.py\<close> with the constraints of the
    migrations, \<open>Model.save()\<close> as a checked statement, and \<open>apps/audit/services.py\<close>. \<open>Samples\<close>: concrete
    rows for the witnesses.
  \<^item> \<open>Configuration\<close>: \<open>apps/rooms/configuration.py\<close>. \<open>Allocation\<close>: \<open>apps/rooms/services.py\<close>.
  \<^item> \<open>Convay\<close>: \<open>apps/convay/client.py\<close>. \<open>Tokens\<close>: \<open>apps/convay/tokens.py\<close>; the locale \<open>provider_operation\<close> is
    the contract of everything that talks to the provider (it changes nothing of the database but
    the rooms' authentication columns), interpreted on authentication, creation, \<open>get_token\<close> and
    \<open>invalidate\<close>.
  \<^item> \<open>Meetings\<close>: \<open>apps/meetings/services.py\<close> and \<open>apps/meetings/tasks.py\<close>. \<open>Transactions\<close>: the locale
    \<open>meeting_transaction\<close> is the contract of a committing transaction (constraints kept, identity of every
    meeting kept, only the named meetings changed, audit trail only extended), interpreted on each of
    them. \<open>Provisioning\<close> and \<open>Outcomes\<close>: the properties of registration, provisioning, retries,
    cancellation and the sweep.
  \<^item> \<open>Administration\<close>: the forms and actions of \<open>apps/meetings/admin.py\<close> and \<open>apps/rooms/admin.py\<close>.
    \<open>Workflow\<close>: a step relation that interleaves requests, operators, sweeps and dying processes on
    one world, with its reachable states; an admin form is three steps, the unlocked load, the check and the
    save of every column, so other transactions come in between. Its invariants say that a meeting is
    created at most once and by one process at a time, unless a stale form put it back to a status from which
    it can be started: such meetings are collected in a ghost field, and \<open>stale_form_second_creation\<close> shows that
    the exception is needed. \<open>Bookings\<close>: the reservations of a run carry the buffers of the settings, so
    classes in one room never overlap and keep their distance; stale forms do not harm this.
  \<^item> \<open>Network\<close>: Python's \<open>ipaddress\<close> as far as allow lists use it. \<open>Clients\<close>: \<open>apps/integrations/models.py\<close> and
    \<open>admin.py\<close>, with the locale \<open>client_transaction\<close>. \<open>Machine_Auth\<close>: \<open>apps/integrations/tokens.py\<close>,
    \<open>authentication.py\<close> and the token view. \<open>Serializers\<close> and \<open>Views\<close>: \<open>apps/meetings/serializers.py\<close>,
    \<open>apps/meetings/views.py\<close>, \<open>common/exceptions.py\<close> and \<open>common/middleware.py\<close>. \<open>Access\<close>: the locale \<open>endpoint\<close>
    is the contract of an API endpoint (it touches the caller's meetings only), interpreted on the
    endpoints of \<open>config/urls.py\<close>, and what whole requests guarantee. \<open>Service\<close>: the API refines the workflow:
    the locale \<open>served_by_steps\<close> says that a request is a run of the step relation, every endpoint
    interprets it, and so the workflow's invariants hold of the service. A request body is the result of the
    parser, which may raise; a page whose offset exceeds the database's \<open>bigint\<close> raises \<open>DataError\<close>.
    \<open>Responses\<close>: the response serializers as schemas, with the framework's own fields, that the answers
    are checked against, and the health probes of \<open>common/health.py\<close>.
  \<^item> \<open>Scrubbing\<close>, \<open>Diagnostics\<close>, \<open>Logging\<close>: \<open>apps/convay/diagnostics.py\<close> and \<open>common/logging.py\<close>: what may be
    logged, and which secrets can not occur in it. The regular expressions are matchers that give
    the length of the match at a position. The theorems speak of \<open>scrubbable\<close> secrets: the replacement
    texts overlap a secret of another form, so it may be recreated where two of them meet; \<open>fernet_key_scrubbable\<close>
    shows the condition of encryption keys. \<open>Provider_Log\<close>: the events \<open>_post\<close> of \<open>apps/convay/client.py\<close> logs.
  \<^item> \<open>Presets\<close>: the page of configuration presets; what it stores keeps every configuration resolvable.
    \<open>Privileges\<close>: the groups of \<open>bootstrap_roles\<close> and the permissions, fields and actions of the admin
    pages; how users get permissions from groups is the hypothesis \<open>inherited_ok\<close> on Django.
  \<^item> \<open>Startup\<close>: \<open>config/settings/base.py\<close> and \<open>production.py\<close>; a process that starts has the settings the other
    theories assume. \<open>Legacy\<close>: the data migration that makes client and class unique.

  How state corresponds. A database is the record \<open>db\<close> of row lists; a transaction is a function from
  the database to an exception (rolled back) or a result with the new database. The world adds what
  the provider call touches: the clock, the cache and its lock, the log of the requests sent,
  and a script that gives the outcome and duration of each request. A view is a function of the
  authenticated client and the world.

  What is taken from outside. Third-party code is a parameter with its documented laws as named
  hypotheses: the Fernet cipher (\<open>fernet_ok\<close>, \<open>cipher_text_ok\<close>) and ISO-8601 texts (\<open>isoformat_ok\<close>) in the
  record \<open>env\<close>; PyJWT (\<open>jwt_ok\<close>, which promises to read back only claim sets without \<open>nbf\<close>), the password
  hashers (\<open>hasher_ok\<close>) and the bounds of the clock (\<open>clock_ok\<close>) for \<open>auth_env\<close>; the REST framework's fields
  (\<open>drf_fields_ok\<close>, and \<open>schema_fields_ok\<close> where they check answers) and exception handler (\<open>drf_handler_ok\<close>) in
  the record \<open>drf\<close>; Django's URL validator is an argument. The witnesses instantiate every one of them.

  Bounds. The recursions over nested diagnostics are bounded by the depths the code has (8 and 6), the
  chain of exceptions by its eight entries; the only fuel is the JSON parser's.

  Not modelled. Text beyond code point 255, binary rounding of floats, the interpreter's recursion
  limit, the HTML and search of the admin pages, the schema decorators of the views (they only
  generate documentation), the framework's settings and wiring.
\<close>

end
